(* ===== verification/Prelude.thy ===== *)
theory Prelude
  imports Complex_Main "HOL-Library.AList"
begin

text \<open>
  What every component of the development shares: programs with exceptions over an explicit
  state (the sequencing of the Python coroutines), the way a claim about such a program is put
  together from claims about its parts, and generic facts on lists and maps.

  A coroutine of the service is a \<open>('w, 'a) prog\<close>: from a state it yields an exception or a
  value, and the state it leaves behind. An exception does not undo what was already done, as in
  Python.
\<close>

section \<open>Lemma collections\<close>

named_theorems prog_simps \<open>unfolding the sequencing of programs\<close>
named_theorems evolves_intros \<open>a program stays within a relation between states\<close>
named_theorems yields_intros \<open>every value a program returns satisfies a predicate\<close>

section \<open>Exceptions\<close>

text \<open>
  \<open>RpcError\<close> is the class of errors.py (code and message), \<open>PyExn\<close> any other
  subclass of \<open>Exception\<close> by its class name, and \<open>Cancelled\<close> the
  \<open>asyncio.CancelledError\<close> that \<open>wait_for\<close> throws into a coroutine; it derives from
  \<open>BaseException\<close>, so \<open>except Exception\<close> does not catch it.
\<close>

datatype exn = RpcError string string | PyExn string | Cancelled

section \<open>Programs\<close>

type_synonym ('w, 'a) prog = "'w \<Rightarrow> (exn + 'a) \<times> 'w"

definition ret :: "'a \<Rightarrow> ('w, 'a) prog" where
  "ret x = (\<lambda>w. (Inr x, w))"

definition raise :: "exn \<Rightarrow> ('w, 'a) prog" where
  "raise e = (\<lambda>w. (Inl e, w))"

definition lift :: "exn + 'a \<Rightarrow> ('w, 'a) prog" where
  "lift r = (\<lambda>w. (r, w))"

definition andthen :: "('w, 'a) prog \<Rightarrow> ('a \<Rightarrow> ('w, 'b) prog) \<Rightarrow> ('w, 'b) prog" where
  "andthen m f = (\<lambda>w. case m w of (r, w') \<Rightarrow>
     (case r of Inl e \<Rightarrow> (Inl e, w') | Inr x \<Rightarrow> f x w'))"

text \<open>\<open>try: m except e: h e\<close>, where \<open>h\<close> may re-raise what its clauses do not name.\<close>

definition catch :: "('w, 'a) prog \<Rightarrow> (exn \<Rightarrow> ('w, 'a) prog) \<Rightarrow> ('w, 'a) prog" where
  "catch m h = (\<lambda>w. case m w of (r, w') \<Rightarrow>
     (case r of Inl e \<Rightarrow> h e w' | Inr x \<Rightarrow> (Inr x, w')))"

text \<open>\<open>except Exception\<close>: everything but a cancellation.\<close>

definition catch_exception :: "('w, 'a) prog \<Rightarrow> ('w, 'a) prog \<Rightarrow> ('w, 'a) prog" where
  "catch_exception m h = catch m (\<lambda>e. if e = Cancelled then raise e else h)"

text \<open>\<open>try: m finally: h\<close>: an exception of \<open>h\<close> replaces the outcome of \<open>m\<close>.\<close>

definition finally_do :: "('w, 'a) prog \<Rightarrow> ('w, unit) prog \<Rightarrow> ('w, 'a) prog" where
  "finally_do m h = (\<lambda>w. case m w of (r, w') \<Rightarrow>
     (case h w' of (r', w'') \<Rightarrow> (case r' of Inl e \<Rightarrow> (Inl e, w'') | Inr _ \<Rightarrow> (r, w''))))"

text \<open>The outcome of \<open>m\<close> as a value, for a \<open>try\<close> whose clauses continue differently.\<close>

definition attempt :: "('w, 'a) prog \<Rightarrow> ('w, exn + 'a) prog" where
  "attempt m = (\<lambda>w. case m w of (r, w') \<Rightarrow> (Inr r, w'))"

definition gets :: "('w \<Rightarrow> 'a) \<Rightarrow> ('w, 'a) prog" where
  "gets f = (\<lambda>w. (Inr (f w), w))"

definition modify :: "('w \<Rightarrow> 'w) \<Rightarrow> ('w, unit) prog" where
  "modify f = (\<lambda>w. (Inr (), f w))"

lemmas prog_defs = ret_def raise_def lift_def andthen_def catch_def catch_exception_def
  finally_do_def attempt_def gets_def modify_def

lemma ret_apply [simp, prog_simps]: "ret x w = (Inr x, w)"
  by (simp add: ret_def)

lemma raise_apply [simp, prog_simps]: "raise e w = (Inl e, w)"
  by (simp add: raise_def)

lemma lift_apply [simp, prog_simps]: "lift r w = (r, w)"
  by (simp add: lift_def)

lemma gets_apply [simp, prog_simps]: "gets f w = (Inr (f w), w)"
  by (simp add: gets_def)

lemma modify_apply [simp, prog_simps]: "modify f w = (Inr (), f w)"
  by (simp add: modify_def)

lemma andthen_ret [simp]: "andthen (ret x) f = f x"
  by (simp add: andthen_def ret_def)

lemma andthen_raise [simp]: "andthen (raise e) f = raise e"
  by (simp add: andthen_def raise_def)

lemma andthen_assoc: "andthen (andthen m f) g = andthen m (\<lambda>x. andthen (f x) g)"
  by (auto simp: andthen_def fun_eq_iff split: prod.splits sum.splits)

lemma andthen_Inr: "m w = (Inr x, w') \<Longrightarrow> andthen m f w = f x w'"
  by (simp add: andthen_def)

lemma andthen_Inl: "m w = (Inl e, w') \<Longrightarrow> andthen m f w = (Inl e, w')"
  by (simp add: andthen_def)

lemma andthen_gets [simp]: "andthen (gets f) g w = g (f w) w"
  by (simp add: andthen_def)

lemma andthen_modify [simp]: "andthen (modify f) g w = g () (f w)"
  by (simp add: andthen_def)

lemma andthen_lift_Inr [simp]: "andthen (lift (Inr x)) g = g x"
  by (simp add: andthen_def lift_def)

lemma andthen_lift_Inl [simp]: "andthen (lift (Inl e)) g = raise e"
  by (simp add: andthen_def lift_def raise_def)

lemma catch_Inr: "m w = (Inr x, w') \<Longrightarrow> catch m h w = (Inr x, w')"
  by (simp add: catch_def)

lemma catch_Inl: "m w = (Inl e, w') \<Longrightarrow> catch m h w = h e w'"
  by (simp add: catch_def)

lemma attempt_eq: "m w = (r, w') \<Longrightarrow> attempt m w = (Inr r, w')"
  by (simp add: attempt_def)

lemma andthenE:
  assumes "andthen m f w = (r, w')"
  obtains (fails) e where "m w = (Inl e, w')" "r = Inl e"
  | (goes) x v where "m w = (Inr x, v)" "f x v = (r, w')"
  using assms by (auto simp: andthen_def split: prod.splits sum.splits)

section \<open>Programs that stay within a relation\<close>

text \<open>
  \<open>evolves R m\<close>: whatever \<open>m\<close> returns or raises, the state it leaves is \<open>R\<close>-related
  to the state it started in. With \<open>R\<close> reflexive and transitive this composes along the
  program text. Three instances carry the frame and invariant proofs of the development: a part
  of the state is left alone, an invariant is kept, an output only grows.
\<close>

definition evolves :: "('w \<Rightarrow> 'w \<Rightarrow> bool) \<Rightarrow> ('w, 'a) prog \<Rightarrow> bool" where
  "evolves R m \<longleftrightarrow> (\<forall>w. R w (snd (m w)))"

lemma evolvesD: "evolves R m \<Longrightarrow> m w = (r, w') \<Longrightarrow> R w w'"
  by (metis evolves_def snd_conv)

lemma evolvesI: "(\<And>w r w'. m w = (r, w') \<Longrightarrow> R w w') \<Longrightarrow> evolves R m"
  by (simp add: evolves_def prod_eq_iff)

locale evolution =
  fixes R :: "'w \<Rightarrow> 'w \<Rightarrow> bool"
  assumes evo_refl: "R w w"
    and evo_trans: "R u v \<Longrightarrow> R v w \<Longrightarrow> R u w"
begin

lemma evolves_ret: "evolves R (ret x)"
  by (simp add: evolves_def evo_refl)

lemma evolves_raise: "evolves R (raise e)"
  by (simp add: evolves_def evo_refl)

lemma evolves_lift: "evolves R (lift r)"
  by (simp add: evolves_def evo_refl)

lemma evolves_gets: "evolves R (gets f)"
  by (simp add: evolves_def evo_refl)

lemma evolves_andthen: "evolves R m \<Longrightarrow> (\<And>x. evolves R (f x)) \<Longrightarrow> evolves R (andthen m f)"
  unfolding evolves_def andthen_def
  by (auto split: prod.splits sum.splits) (metis evo_trans snd_conv)+

lemma evolves_catch: "evolves R m \<Longrightarrow> (\<And>e. evolves R (h e)) \<Longrightarrow> evolves R (catch m h)"
  unfolding evolves_def catch_def
  by (auto split: prod.splits sum.splits) (metis evo_trans snd_conv)+

lemma evolves_catch_exception: "evolves R m \<Longrightarrow> evolves R h \<Longrightarrow> evolves R (catch_exception m h)"
  unfolding catch_exception_def by (rule evolves_catch) (auto intro: evolves_raise)

lemma evolves_finally: "evolves R m \<Longrightarrow> evolves R h \<Longrightarrow> evolves R (finally_do m h)"
  unfolding evolves_def finally_do_def
  by (auto split: prod.splits sum.splits) (metis evo_trans snd_conv)+

lemma evolves_attempt: "evolves R m \<Longrightarrow> evolves R (attempt m)"
  unfolding evolves_def attempt_def by (auto split: prod.splits) (metis snd_conv)

lemmas evolves_rules = evolves_ret evolves_raise evolves_lift evolves_gets evolves_andthen evolves_catch
  evolves_catch_exception evolves_finally evolves_attempt

end

text \<open>
  A program that does one thing at its end: the steps before stay within \<open>R\<close>, the last one is
  \<open>T\<close>, which need not be transitive.
\<close>

locale closing = evolution +
  fixes T :: "'a \<Rightarrow> 'a \<Rightarrow> bool"
  assumes close_sub: "R u v \<Longrightarrow> T u v"
    and close_pre: "R u v \<Longrightarrow> T v w \<Longrightarrow> T u w"
begin

lemma closes_idle: "evolves R m \<Longrightarrow> evolves T m"
  by (simp add: evolves_def close_sub)

lemma closes_andthen: "evolves R m \<Longrightarrow> (\<And>x. evolves T (f x)) \<Longrightarrow> evolves T (andthen m f)"
  unfolding evolves_def andthen_def
  by (auto split: prod.splits sum.splits) (metis close_sub close_pre snd_conv)+

end

text \<open>A part of the state is left alone.\<close>

definition same :: "('w \<Rightarrow> 'p) \<Rightarrow> 'w \<Rightarrow> 'w \<Rightarrow> bool" where
  "same f w w' \<longleftrightarrow> f w' = f w"

interpretation same: evolution "same f" for f
  by unfold_locales (auto simp: same_def)

text \<open>An invariant is kept.\<close>

definition kept :: "('w \<Rightarrow> bool) \<Rightarrow> 'w \<Rightarrow> 'w \<Rightarrow> bool" where
  "kept I w w' \<longleftrightarrow> (I w \<longrightarrow> I w')"

interpretation kept: evolution "kept I" for I
  by unfold_locales (auto simp: kept_def)

lemmas evolves_all = same.evolves_rules kept.evolves_rules

declare evolves_all [evolves_intros]

lemma evolves_sameD: "evolves (same f) m \<Longrightarrow> m w = (r, w') \<Longrightarrow> f w' = f w"
  by (metis evolvesD same_def)

lemma evolves_keptD: "evolves (kept I) m \<Longrightarrow> m w = (r, w') \<Longrightarrow> I w \<Longrightarrow> I w'"
  by (metis evolvesD kept_def)

lemma evolves_if [evolves_intros]:
  "evolves R m \<Longrightarrow> evolves R n \<Longrightarrow> evolves R (if b then m else n)"
  by simp

lemma evolves_case_option [evolves_intros]:
  "evolves R m \<Longrightarrow> (\<And>x. evolves R (f x)) \<Longrightarrow> evolves R (case x of None \<Rightarrow> m | Some y \<Rightarrow> f y)"
  by (simp split: option.split)

lemma evolves_case_sum [evolves_intros]:
  "(\<And>x. evolves R (f x)) \<Longrightarrow> (\<And>x. evolves R (g x)) \<Longrightarrow> evolves R (case x of Inl y \<Rightarrow> f y | Inr y \<Rightarrow> g y)"
  by (simp split: sum.split)

lemma evolves_case_prod [evolves_intros]:
  "(\<And>x y. evolves R (f x y)) \<Longrightarrow> evolves R (case p of (x, y) \<Rightarrow> f x y)"
  by (simp split: prod.split)

lemma evolves_Let [evolves_intros]: "(\<And>x. evolves R (f x)) \<Longrightarrow> evolves R (let x = v in f x)"
  by simp

section \<open>What a program can return\<close>

definition yields :: "('a \<Rightarrow> bool) \<Rightarrow> ('w, 'a) prog \<Rightarrow> bool" where
  "yields P m \<longleftrightarrow> (\<forall>w x w'. m w = (Inr x, w') \<longrightarrow> P x)"

lemma yieldsD: "yields P m \<Longrightarrow> m w = (Inr x, w') \<Longrightarrow> P x"
  by (auto simp: yields_def)

lemma yields_ret [yields_intros]: "P x \<Longrightarrow> yields P (ret x)"
  by (simp add: yields_def)

lemma yields_raise [yields_intros]: "yields P (raise e)"
  by (simp add: yields_def)

lemma yields_andthen [yields_intros]: "(\<And>x. yields P (f x)) \<Longrightarrow> yields P (andthen m f)"
  unfolding yields_def andthen_def by (force split: prod.splits sum.splits)

lemma yields_bind: "yields Q m \<Longrightarrow> (\<And>x. Q x \<Longrightarrow> yields P (f x)) \<Longrightarrow> yields P (andthen m f)"
  unfolding yields_def andthen_def by (force split: prod.splits sum.splits)

lemma yields_lift: "yields (\<lambda>x. r = Inr x) (lift r)"
  by (simp add: yields_def)

lemma yields_if_cond: "(b \<Longrightarrow> yields P m) \<Longrightarrow> (\<not> b \<Longrightarrow> yields P n) \<Longrightarrow> yields P (if b then m else n)"
  by simp

lemma yields_if [yields_intros]: "yields P m \<Longrightarrow> yields P n \<Longrightarrow> yields P (if b then m else n)"
  by simp

lemma yields_Let [yields_intros]: "(\<And>x. yields P (f x)) \<Longrightarrow> yields P (let x = v in f x)"
  by simp

lemma yields_case_option [yields_intros]:
  "yields P m \<Longrightarrow> (\<And>x. yields P (f x)) \<Longrightarrow> yields P (case x of None \<Rightarrow> m | Some y \<Rightarrow> f y)"
  by (simp split: option.split)

lemma yields_case_prod [yields_intros]:
  "(\<And>x y. yields P (f x y)) \<Longrightarrow> yields P (case p of (x, y) \<Rightarrow> f x y)"
  by (simp split: prod.split)

section \<open>Lists\<close>

lemma length_filter_split:
  "length (filter P xs) + length (filter (\<lambda>x. \<not> P x) xs) = length xs"
  by (induction xs) auto

lemma length_filter_refine:
  "(\<And>x. P x \<Longrightarrow> Q x) \<Longrightarrow>
     length (filter Q xs) = length (filter P xs) + length (filter (\<lambda>x. \<not> P x \<and> Q x) xs)"
  by (induction xs) auto

lemma filter_eq_self: "(\<And>x. x \<in> set xs \<Longrightarrow> P x) \<Longrightarrow> filter P xs = xs"
  by (simp add: filter_id_conv)

lemma distinct_map_inj_point:
  "distinct (map f xs) \<Longrightarrow> x \<in> set xs \<Longrightarrow> y \<in> set xs \<Longrightarrow> f x = f y \<Longrightarrow> x = y"
  by (auto simp: distinct_map inj_on_def)

lemma distinct_map_filter: "distinct (map f xs) \<Longrightarrow> distinct (map f (filter P xs))"
  by (simp add: distinct_map inj_on_def)

end
