(* ===== verification/PyValues.thy ===== *)
theory PyValues
  imports Prelude
begin

text \<open>
  The Python values that travel through the service: what \<open>json.loads\<close> yields and what
  handlers put into a response body. Also the conversions and comparisons of the language the
  source relies on: truthiness, \<open>isinstance (int, float)\<close>, \<open>float()\<close>, \<open>int()\<close>,
  \<open>round()\<close>, \<open>str()\<close> and dict access.

  A string is a list of characters, one per code point. A finite float is a real number: the
  arithmetic of the model is exact where IEEE doubles round, while the values that change control
  flow (infinities, NaN, integers too large for a double) are kept.
\<close>

section \<open>Floats\<close>

datatype xreal = MInf | Fin real | PInf

instantiation xreal :: linorder
begin

fun less_eq_xreal :: "xreal \<Rightarrow> xreal \<Rightarrow> bool" where
  "less_eq_xreal MInf y = True"
| "less_eq_xreal (Fin a) MInf = False"
| "less_eq_xreal (Fin a) (Fin b) = (a \<le> b)"
| "less_eq_xreal (Fin a) PInf = True"
| "less_eq_xreal PInf y = (y = PInf)"

definition less_xreal :: "xreal \<Rightarrow> xreal \<Rightarrow> bool" where
  "less_xreal x y \<longleftrightarrow> x \<le> y \<and> \<not> y \<le> x"

instance
proof
  fix x y z :: xreal
  show "x < y \<longleftrightarrow> x \<le> y \<and> \<not> y \<le> x" by (rule less_xreal_def)
  show "x \<le> x" by (cases x) auto
  show "x \<le> y \<Longrightarrow> y \<le> z \<Longrightarrow> x \<le> z" by (cases x; cases y; cases z) auto
  show "x \<le> y \<Longrightarrow> y \<le> x \<Longrightarrow> x = y" by (cases x; cases y) auto
  show "x \<le> y \<or> y \<le> x" by (cases x; cases y) auto
qed

end

lemma less_xreal_simps [simp]:
  "(Fin a < Fin b) = (a < b)" "(x < MInf) = False" "(PInf < x) = False"
  "MInf < Fin a" "MInf < PInf" "Fin a < PInf"
  by (cases x; auto simp: less_xreal_def)+

lemma xreal_le_PInf [simp]: "x \<le> PInf"
  by (cases x) auto

lemma max_Fin [simp]: "max (Fin a) (Fin b) = Fin (max a b)"
  by (simp add: max_def)

datatype pyfloat = NaN | Flt xreal

fun fle :: "pyfloat \<Rightarrow> pyfloat \<Rightarrow> bool" where
  "fle (Flt x) (Flt y) = (x \<le> y)"
| "fle x y = False"

fun flt :: "pyfloat \<Rightarrow> pyfloat \<Rightarrow> bool" where
  "flt (Flt x) (Flt y) = (x < y)"
| "flt x y = False"

fun fneg :: "pyfloat \<Rightarrow> pyfloat" where
  "fneg NaN = NaN"
| "fneg (Flt MInf) = Flt PInf"
| "fneg (Flt (Fin a)) = Flt (Fin (- a))"
| "fneg (Flt PInf) = Flt MInf"

fun fadd :: "pyfloat \<Rightarrow> pyfloat \<Rightarrow> pyfloat" where
  "fadd (Flt (Fin a)) (Flt (Fin b)) = Flt (Fin (a + b))"
| "fadd (Flt PInf) (Flt MInf) = NaN"
| "fadd (Flt MInf) (Flt PInf) = NaN"
| "fadd (Flt PInf) (Flt y) = Flt PInf"
| "fadd (Flt MInf) (Flt y) = Flt MInf"
| "fadd (Flt x) (Flt PInf) = Flt PInf"
| "fadd (Flt x) (Flt MInf) = Flt MInf"
| "fadd x y = NaN"

definition fsub :: "pyfloat \<Rightarrow> pyfloat \<Rightarrow> pyfloat" where
  "fsub x y = fadd x (fneg y)"

lemma fsub_Fin [simp]: "fsub (Flt (Fin a)) (Flt (Fin b)) = Flt (Fin (a - b))"
  by (simp add: fsub_def)

text \<open>\<open>int(x)\<close> cuts towards zero; it raises on an infinity and on NaN.\<close>

definition trunc :: "real \<Rightarrow> int" where
  "trunc a = (if 0 \<le> a then \<lfloor>a\<rfloor> else \<lceil>a\<rceil>)"

fun int_of_float :: "pyfloat \<Rightarrow> exn + int" where
  "int_of_float (Flt (Fin a)) = Inr (trunc a)"
| "int_of_float NaN = Inl (PyExn ''ValueError'')"
| "int_of_float (Flt x) = Inl (PyExn ''OverflowError'')"

text \<open>\<open>round(x)\<close>: to the nearest integer, ties to the even one.\<close>

definition round_even :: "real \<Rightarrow> int" where
  "round_even a = (let n = \<lfloor>a\<rfloor>; d = a - of_int n in
     if d < 1 / 2 then n else if d > 1 / 2 then n + 1 else if even n then n else n + 1)"

fun py_round :: "pyfloat \<Rightarrow> exn + int" where
  "py_round (Flt (Fin a)) = Inr (round_even a)"
| "py_round NaN = Inl (PyExn ''ValueError'')"
| "py_round (Flt x) = Inl (PyExn ''OverflowError'')"

lemma round_even_bounds: "of_int (round_even a) \<le> a + 1 / 2" "a - 1 / 2 \<le> of_int (round_even a)"
  unfolding round_even_def Let_def by (simp_all, linarith+)

lemma round_even_nonneg: "0 \<le> a \<Longrightarrow> 0 \<le> round_even a"
  using round_even_bounds(2) [of a] by linarith

lemma trunc_nonneg: "0 \<le> a \<Longrightarrow> 0 \<le> trunc a"
  by (simp add: trunc_def)

lemma trunc_le: "0 \<le> a \<Longrightarrow> of_int (trunc a) \<le> a"
  by (simp add: trunc_def)

lemma trunc_neg: "a < 0 \<Longrightarrow> trunc a \<le> 0"
  unfolding trunc_def by (simp add: ceiling_le_zero)

text \<open>
  \<open>float(n)\<close> of an int: \<open>OverflowError\<close> once \<open>n\<close> rounds to a double that does not
  exist, which is from \<open>2^1024 - 2^970\<close> on.
\<close>

definition float_of_int :: "int \<Rightarrow> exn + pyfloat" where
  "float_of_int n = (if \<bar>n\<bar> < 2 ^ 1024 - 2 ^ 970 then Inr (Flt (Fin (of_int n)))
     else Inl (PyExn ''OverflowError''))"

section \<open>Values\<close>

datatype pyval =
    VNone
  | VBool bool
  | VInt int
  | VFloat pyfloat
  | VStr string
  | VList "pyval list"
  | VDict "(string \<times> pyval) list"

type_synonym pydict = "(string \<times> pyval) list"

fun truthy :: "pyval \<Rightarrow> bool" where
  "truthy VNone = False"
| "truthy (VBool b) = b"
| "truthy (VInt n) = (n \<noteq> 0)"
| "truthy (VFloat f) = (f \<noteq> Flt (Fin 0))"
| "truthy (VStr s) = (s \<noteq> [])"
| "truthy (VList xs) = (xs \<noteq> [])"
| "truthy (VDict d) = (d \<noteq> [])"

text \<open>\<open>a or b\<close>\<close>

definition py_or :: "pyval \<Rightarrow> pyval \<Rightarrow> pyval" where
  "py_or a b = (if truthy a then a else b)"

fun is_none :: "pyval \<Rightarrow> bool" where
  "is_none VNone = True"
| "is_none v = False"

lemma is_none_iff [simp]: "is_none v \<longleftrightarrow> v = VNone"
  by (cases v) auto

fun is_str :: "pyval \<Rightarrow> bool" where
  "is_str (VStr s) = True"
| "is_str v = False"

text \<open>\<open>isinstance(v, (int, float))\<close>: a bool is an int in Python.\<close>

fun is_num :: "pyval \<Rightarrow> bool" where
  "is_num (VBool b) = True"
| "is_num (VInt n) = True"
| "is_num (VFloat f) = True"
| "is_num v = False"

fun is_int :: "pyval \<Rightarrow> bool" where
  "is_int (VBool b) = True"
| "is_int (VInt n) = True"
| "is_int v = False"

text \<open>
  The value a number has in a comparison. Python compares an int with an int or a float exactly,
  without converting it, so no overflow arises here.
\<close>

fun num_val :: "pyval \<Rightarrow> pyfloat" where
  "num_val (VBool b) = Flt (Fin (of_bool b))"
| "num_val (VInt n) = Flt (Fin (of_int n))"
| "num_val (VFloat f) = f"
| "num_val v = NaN"

text \<open>The double that arithmetic with a float makes of an operand; only numbers have one.\<close>

fun as_float :: "pyval \<Rightarrow> exn + pyfloat" where
  "as_float (VBool b) = Inr (Flt (Fin (of_bool b)))"
| "as_float (VInt n) = float_of_int n"
| "as_float (VFloat f) = Inr f"
| "as_float v = Inl (PyExn ''TypeError'')"

text \<open>\<open>int(v)\<close> of a number.\<close>

fun int_of :: "pyval \<Rightarrow> exn + int" where
  "int_of (VBool b) = Inr (of_bool b)"
| "int_of (VInt n) = Inr n"
| "int_of (VFloat f) = int_of_float f"
| "int_of v = Inl (PyExn ''TypeError'')"

fun of_opt :: "('a \<Rightarrow> pyval) \<Rightarrow> 'a option \<Rightarrow> pyval" where
  "of_opt f None = VNone"
| "of_opt f (Some x) = f x"

section \<open>Expressions that may raise\<close>

definition ebind :: "exn + 'a \<Rightarrow> ('a \<Rightarrow> exn + 'b) \<Rightarrow> exn + 'b" where
  "ebind m f = (case m of Inl e \<Rightarrow> Inl e | Inr x \<Rightarrow> f x)"

lemma ebind_simps [simp]: "ebind (Inl e) f = Inl e" "ebind (Inr x) f = f x"
  by (simp_all add: ebind_def)

lemma ebind_Inr_iff: "ebind m f = Inr y \<longleftrightarrow> (\<exists>x. m = Inr x \<and> f x = Inr y)"
  by (cases m) auto

text \<open>\<open>max(0, int(now - v))\<close>, the age of a time stamp in whole seconds.\<close>

definition age_s :: "real \<Rightarrow> pyval \<Rightarrow> exn + int" where
  "age_s now v = ebind (as_float v) (\<lambda>f. ebind (int_of_float (fsub (Flt (Fin now)) f)) (\<lambda>n. Inr (max 0 n)))"

lemma age_s_Fin: "age_s now (VFloat (Flt (Fin t))) = Inr (max 0 (trunc (now - t)))"
  by (simp add: age_s_def)

lemma age_s_nonneg: "age_s now v = Inr n \<Longrightarrow> 0 \<le> n"
  by (auto simp: age_s_def ebind_Inr_iff)

section \<open>Dicts\<close>

text \<open>
  A dict is an association list in insertion order, each key once. \<open>dget d k\<close> is
  \<open>d.get(k)\<close>, \<open>dget_or d k v\<close> is \<open>d.get(k, v)\<close>, \<open>dat d k\<close> is \<open>d[k]\<close>.
\<close>

definition dget :: "pydict \<Rightarrow> string \<Rightarrow> pyval" where
  "dget d k = (case map_of d k of None \<Rightarrow> VNone | Some v \<Rightarrow> v)"

definition dget_or :: "pydict \<Rightarrow> string \<Rightarrow> pyval \<Rightarrow> pyval" where
  "dget_or d k v = (case map_of d k of None \<Rightarrow> v | Some u \<Rightarrow> u)"

definition dat :: "pydict \<Rightarrow> string \<Rightarrow> exn + pyval" where
  "dat d k = (case map_of d k of None \<Rightarrow> Inl (PyExn ''KeyError'') | Some v \<Rightarrow> Inr v)"

definition has_key :: "pydict \<Rightarrow> string \<Rightarrow> bool" where
  "has_key d k \<longleftrightarrow> map_of d k \<noteq> None"

lemma dget_Nil [simp]: "dget [] k = VNone"
  by (simp add: dget_def)

lemma dget_Cons [simp]: "dget ((k', v) # d) k = (if k = k' then v else dget d k)"
  by (simp add: dget_def)

lemma dat_Nil [simp]: "dat [] k = Inl (PyExn ''KeyError'')"
  by (simp add: dat_def)

lemma dat_Cons [simp]: "dat ((k', v) # d) k = (if k = k' then Inr v else dat d k)"
  by (simp add: dat_def)

lemma dget_or_Cons [simp]: "dget_or ((k', v) # d) k u = (if k = k' then v else dget_or d k u)"
  by (simp add: dget_or_def)

lemma dget_or_Nil [simp]: "dget_or [] k u = u"
  by (simp add: dget_or_def)

section \<open>Text\<close>

definition digit :: "nat \<Rightarrow> char" where
  "digit n = char_of (48 + n mod 10)"

fun str_nat :: "nat \<Rightarrow> string" where
  "str_nat n = (if n < 10 then [digit n] else str_nat (n div 10) @ [digit n])"

declare str_nat.simps [simp del]

definition str_int :: "int \<Rightarrow> string" where
  "str_int n = (if n < 0 then CHR ''-'' # str_nat (nat (- n)) else str_nat (nat n))"

text \<open>\<open>repr\<close> of a string: single quotes unless the text has one and no double quote.\<close>

definition hex_digit :: "nat \<Rightarrow> char" where
  "hex_digit n = (if n < 10 then char_of (48 + n) else char_of (87 + n))"

definition repr_char :: "char \<Rightarrow> char \<Rightarrow> string" where
  "repr_char q c =
     (let n = of_char c :: nat; bs = char_of (92 :: nat) in
      if c = q \<or> c = bs then [bs, c]
      else if n = 10 then [bs, CHR ''n'']
      else if n = 13 then [bs, CHR ''r'']
      else if n = 9 then [bs, CHR ''t'']
      else if n < 32 \<or> (127 \<le> n \<and> n \<le> 160) \<or> n = 173
        then [bs, CHR ''x'', hex_digit (n div 16), hex_digit (n mod 16)]
      else [c])"

definition repr_str :: "string \<Rightarrow> string" where
  "repr_str s =
     (let sq = char_of (39 :: nat); dq = char_of (34 :: nat);
          q = (if sq \<in> set s \<and> dq \<notin> set s then dq else sq)
      in [q] @ concat (map (repr_char q) s) @ [q])"

fun join :: "string \<Rightarrow> string list \<Rightarrow> string" where
  "join sep [] = []"
| "join sep [s] = s"
| "join sep (s # t # ss) = s @ sep @ join sep (t # ss)"

text \<open>
  \<open>repr(v)\<close> and \<open>str(v)\<close>. The shortest decimal that reads back as a given double is an
  argument \<open>fr\<close>: the model's floats are reals, so their digits are the interpreter's matter.
\<close>

fun py_repr :: "(pyfloat \<Rightarrow> string) \<Rightarrow> pyval \<Rightarrow> string" where
  "py_repr fr VNone = ''None''"
| "py_repr fr (VBool b) = (if b then ''True'' else ''False'')"
| "py_repr fr (VInt n) = str_int n"
| "py_repr fr (VFloat f) = fr f"
| "py_repr fr (VStr s) = repr_str s"
| "py_repr fr (VList xs) = ''['' @ join '', '' (map (py_repr fr) xs) @ '']''"
| "py_repr fr (VDict d) =
     ''{'' @ join '', '' (map (\<lambda>(k, v). repr_str k @ '': '' @ py_repr fr v) d) @ ''}''"

definition py_str :: "(pyfloat \<Rightarrow> string) \<Rightarrow> pyval \<Rightarrow> string" where
  "py_str fr v = (case v of VStr s \<Rightarrow> s | _ \<Rightarrow> py_repr fr v)"

lemma py_str_VStr [simp]: "py_str fr (VStr s) = s"
  by (simp add: py_str_def)

lemma str_nat_not_Nil [simp]: "str_nat n \<noteq> []"
  by (subst str_nat.simps) simp

lemma str_int_not_Nil [simp]: "str_int n \<noteq> []"
  by (simp add: str_int_def)

section \<open>Numbers in text\<close>

text \<open>
  The decimal literals that SQLite's column affinity and Python's \<open>float()\<close> read: optional
  white space around, a sign, digits with an optional point, an optional exponent. A value that a
  double cannot hold becomes an infinity.
\<close>

definition is_digit :: "char \<Rightarrow> bool" where
  "is_digit c = (let n = of_char c :: nat in 48 \<le> n \<and> n \<le> 57)"

definition is_space :: "char \<Rightarrow> bool" where
  "is_space c = (let n = of_char c :: nat in n = 32 \<or> (9 \<le> n \<and> n \<le> 13))"

definition strip :: "string \<Rightarrow> string" where
  "strip s = rev (dropWhile is_space (rev (dropWhile is_space s)))"

definition digits_val :: "string \<Rightarrow> nat" where
  "digits_val s = foldl (\<lambda>a c. 10 * a + (of_char c - 48)) 0 s"

definition to_xreal :: "real \<Rightarrow> xreal" where
  "to_xreal a = (if 2 ^ 1024 - 2 ^ 970 \<le> a then PInf
     else if a \<le> - (2 ^ 1024 - 2 ^ 970) then MInf else Fin a)"

definition split_sign :: "string \<Rightarrow> bool \<times> string" where
  "split_sign s = (case s of
      [] \<Rightarrow> (False, [])
    | c # cs \<Rightarrow> if c = CHR ''-'' then (True, cs) else if c = CHR ''+'' then (False, cs) else (False, s))"

definition parse_exponent :: "string \<Rightarrow> int option" where
  "parse_exponent s = (case s of
      [] \<Rightarrow> Some 0
    | c # cs \<Rightarrow>
        if c = CHR ''e'' \<or> c = CHR ''E'' then
          (case split_sign cs of (neg, ds) \<Rightarrow>
             if ds \<noteq> [] \<and> list_all is_digit ds
             then Some (if neg then - int (digits_val ds) else int (digits_val ds)) else None)
        else None)"

definition parse_unsigned :: "string \<Rightarrow> real option" where
  "parse_unsigned s =
     (let ip = takeWhile is_digit s; r1 = dropWhile is_digit s;
          dotted = (r1 \<noteq> [] \<and> hd r1 = CHR ''.'');
          fp = (if dotted then takeWhile is_digit (tl r1) else []);
          r2 = (if dotted then dropWhile is_digit (tl r1) else r1)
      in if ip = [] \<and> fp = [] then None
         else (case parse_exponent r2 of
             None \<Rightarrow> None
           | Some e \<Rightarrow> Some (of_nat (digits_val (ip @ fp)) * 10 powi (e - int (length fp)))))"

definition sql_numeric :: "string \<Rightarrow> xreal option" where
  "sql_numeric s = (case split_sign (strip s) of (neg, t) \<Rightarrow>
     map_option (\<lambda>a. to_xreal (if neg then - a else a)) (parse_unsigned t))"

fun drop_underscores :: "bool \<Rightarrow> string \<Rightarrow> string option" where
  "drop_underscores prev [] = Some []"
| "drop_underscores prev (c # cs) =
     (if c = CHR ''_'' then
        (if prev \<and> cs \<noteq> [] \<and> is_digit (hd cs) then drop_underscores False cs else None)
      else map_option ((#) c) (drop_underscores (is_digit c) cs))"

definition lower_char :: "char \<Rightarrow> char" where
  "lower_char c = (let n = of_char c :: nat in if 65 \<le> n \<and> n \<le> 90 then char_of (n + 32) else c)"

text \<open>\<open>float(s)\<close> of a string; Python strips a few more characters than SQLite.\<close>

definition is_py_space :: "char \<Rightarrow> bool" where
  "is_py_space c = (let n = of_char c :: nat in
     is_space c \<or> (28 \<le> n \<and> n \<le> 31) \<or> n = 133 \<or> n = 160)"

definition py_strip :: "string \<Rightarrow> string" where
  "py_strip s = rev (dropWhile is_py_space (rev (dropWhile is_py_space s)))"

definition float_of_str :: "string \<Rightarrow> exn + pyfloat" where
  "float_of_str s = (case split_sign (py_strip s) of (neg, t) \<Rightarrow>
     (let u = map lower_char t in
      if u = ''inf'' \<or> u = ''infinity'' then Inr (Flt (if neg then MInf else PInf))
      else if u = ''nan'' then Inr NaN
      else (case Option.bind (drop_underscores False t) parse_unsigned of
          None \<Rightarrow> Inl (PyExn ''ValueError'')
        | Some a \<Rightarrow> Inr (Flt (to_xreal (if neg then - a else a))))))"

text \<open>\<open>float(v)\<close>\<close>

fun float_of :: "pyval \<Rightarrow> exn + pyfloat" where
  "float_of (VStr s) = float_of_str s"
| "float_of v = as_float v"

end
