(* ===== verification/Contract.thy ===== *)
theory Contract
  imports PyValues
begin

text \<open>
  The fixed vocabulary of the service: the error codes of errors.py, the lifecycle states of
  lifecycle.py with the transitions its docstring lists, and the MQTT topics of mqtt/topics.py.
\<close>

section \<open>Error codes (errors.py)\<close>

definition BAD_REQUEST :: string where "BAD_REQUEST = ''bad_request''"
definition UNKNOWN_TYPE :: string where "UNKNOWN_TYPE = ''unknown_type''"
definition DUPLICATE :: string where "DUPLICATE = ''duplicate''"
definition TIMEOUT_CODE :: string where "TIMEOUT_CODE = ''timeout''"
definition INTERNAL :: string where "INTERNAL = ''internal''"
definition STALE :: string where "STALE = ''stale''"
definition UNAVAILABLE :: string where "UNAVAILABLE = ''unavailable''"

lemmas error_code_defs = BAD_REQUEST_def UNKNOWN_TYPE_def DUPLICATE_def TIMEOUT_CODE_def
  INTERNAL_def STALE_def UNAVAILABLE_def

section \<open>Lifecycle states (lifecycle.py)\<close>

definition RECEIVED :: string where "RECEIVED = ''received''"
definition VALIDATED :: string where "VALIDATED = ''validated''"
definition REJECTED :: string where "REJECTED = ''rejected''"
definition HANDLER_STARTED :: string where "HANDLER_STARTED = ''handler_started''"
definition RESPONSE_PUBLISHED :: string where "RESPONSE_PUBLISHED = ''response_published''"
definition TIMEOUT :: string where "TIMEOUT = ''timeout''"
definition COMPLETED_OK :: string where "COMPLETED_OK = ''completed_ok''"
definition COMPLETED_ERROR :: string where "COMPLETED_ERROR = ''completed_error''"

lemmas lifecycle_defs = RECEIVED_def VALIDATED_def REJECTED_def HANDLER_STARTED_def
  RESPONSE_PUBLISHED_def TIMEOUT_def COMPLETED_OK_def COMPLETED_ERROR_def

definition ALL_EVENT_STATES :: "string list" where
  "ALL_EVENT_STATES = [RECEIVED, VALIDATED, REJECTED, HANDLER_STARTED, RESPONSE_PUBLISHED, TIMEOUT]"

definition ALL_FINAL_STATES :: "string list" where
  "ALL_FINAL_STATES = [COMPLETED_OK, COMPLETED_ERROR]"

text \<open>
  The transition sketch of the module docstring: which states may directly follow a state, the
  two terminal ones included. \<open>rejected\<close> follows \<open>validated\<close> or, for a request turned away
  at once, \<open>received\<close>; \<open>handler_started\<close> goes to the published response or to the timeout,
  and a timeout ends in \<open>completed_error\<close>.
\<close>

definition sketch_next :: "string \<Rightarrow> string list" where
  "sketch_next s =
     (if s = RECEIVED then [VALIDATED, REJECTED]
      else if s = VALIDATED then [HANDLER_STARTED, REJECTED]
      else if s = HANDLER_STARTED then [RESPONSE_PUBLISHED, TIMEOUT]
      else if s = REJECTED then [RESPONSE_PUBLISHED]
      else if s = TIMEOUT then [COMPLETED_ERROR]
      else if s = RESPONSE_PUBLISHED then [COMPLETED_OK, COMPLETED_ERROR]
      else [])"

fun follows_sketch :: "string list \<Rightarrow> bool" where
  "follows_sketch (s # t # ts) = (t \<in> set (sketch_next s) \<and> follows_sketch (t # ts))"
| "follows_sketch ts = True"

section \<open>Topics (mqtt/topics.py)\<close>

definition RPC_REQUEST :: string where "RPC_REQUEST = ''mc/rpc/req''"
definition RPC_RESPONSE_PREFIX :: string where "RPC_RESPONSE_PREFIX = ''mc/rpc/resp''"
definition GATEWAY_STATUS :: string where "GATEWAY_STATUS = ''mc/gateway/status''"
definition SVC_HEALTH :: string where "SVC_HEALTH = ''mc/svc/health''"
definition NODE_PREFIX :: string where "NODE_PREFIX = ''mc/node''"
definition BASE_PREFIX :: string where "BASE_PREFIX = ''mc/base''"
definition BASE_LOCATION :: string where "BASE_LOCATION = BASE_PREFIX @ ''/location''"

definition rpc_response_topic :: "string \<Rightarrow> exn + string" where
  "rpc_response_topic node_id =
     (if node_id = [] then Inl (PyExn ''ValueError'')
      else Inr (RPC_RESPONSE_PREFIX @ ''/'' @ node_id))"

definition node_location_topic :: "string \<Rightarrow> string" where
  "node_location_topic node_id = NODE_PREFIX @ ''/'' @ node_id @ ''/location''"

definition node_battery_topic :: "string \<Rightarrow> string" where
  "node_battery_topic node_id = NODE_PREFIX @ ''/'' @ node_id @ ''/battery''"

definition node_state_topic :: "string \<Rightarrow> string" where
  "node_state_topic node_id = NODE_PREFIX @ ''/'' @ node_id @ ''/state''"

definition GATEWAY_NATIVE_PREFIX :: string where "GATEWAY_NATIVE_PREFIX = ''meshcore''"

definition GATEWAY_NATIVE_STATUS_SUFFIX :: string where
  "GATEWAY_NATIVE_STATUS_SUFFIX = ''status''"

definition GATEWAY_NATIVE_DIRECT_MSG_FILTER_SUFFIX :: string where
  "GATEWAY_NATIVE_DIRECT_MSG_FILTER_SUFFIX = ''message/direct/+''"

definition GATEWAY_NATIVE_SEND_MSG_SUFFIX :: string where
  "GATEWAY_NATIVE_SEND_MSG_SUFFIX = ''command/send_msg''"

definition GATEWAY_NATIVE_BATTERY_SUFFIX :: string where
  "GATEWAY_NATIVE_BATTERY_SUFFIX = ''battery''"

definition GATEWAY_NATIVE_TELEMETRY_SUFFIX :: string where
  "GATEWAY_NATIVE_TELEMETRY_SUFFIX = ''telemetry''"

definition GATEWAY_NATIVE_ADVERTISEMENT_SUFFIX :: string where
  "GATEWAY_NATIVE_ADVERTISEMENT_SUFFIX = ''advertisement''"

definition gateway_native_status :: "string \<Rightarrow> string" where
  "gateway_native_status pfx = pfx @ ''/'' @ GATEWAY_NATIVE_STATUS_SUFFIX"

definition gateway_native_direct_msg_filter :: "string \<Rightarrow> string" where
  "gateway_native_direct_msg_filter pfx = pfx @ ''/'' @ GATEWAY_NATIVE_DIRECT_MSG_FILTER_SUFFIX"

definition gateway_native_send_msg :: "string \<Rightarrow> string" where
  "gateway_native_send_msg pfx = pfx @ ''/'' @ GATEWAY_NATIVE_SEND_MSG_SUFFIX"

definition gateway_native_battery :: "string \<Rightarrow> string" where
  "gateway_native_battery pfx = pfx @ ''/'' @ GATEWAY_NATIVE_BATTERY_SUFFIX"

definition gateway_native_telemetry :: "string \<Rightarrow> string" where
  "gateway_native_telemetry pfx = pfx @ ''/'' @ GATEWAY_NATIVE_TELEMETRY_SUFFIX"

definition gateway_native_advertisement :: "string \<Rightarrow> string" where
  "gateway_native_advertisement pfx = pfx @ ''/'' @ GATEWAY_NATIVE_ADVERTISEMENT_SUFFIX"

lemmas native_topics = GATEWAY_NATIVE_PREFIX_def gateway_native_battery_def gateway_native_telemetry_def
  GATEWAY_NATIVE_BATTERY_SUFFIX_def GATEWAY_NATIVE_TELEMETRY_SUFFIX_def

lemmas topic_defs = RPC_REQUEST_def RPC_RESPONSE_PREFIX_def GATEWAY_STATUS_def SVC_HEALTH_def
  NODE_PREFIX_def BASE_PREFIX_def BASE_LOCATION_def rpc_response_topic_def
  node_location_topic_def node_battery_topic_def node_state_topic_def

text \<open>
  The topics a node id is spliced into keep different ids and different kinds of state apart,
  whatever characters the id holds.
\<close>

lemma node_location_topic_inj [simp]: "node_location_topic a = node_location_topic b \<longleftrightarrow> a = b"
  by (simp add: node_location_topic_def)

lemma node_battery_topic_inj [simp]: "node_battery_topic a = node_battery_topic b \<longleftrightarrow> a = b"
  by (simp add: node_battery_topic_def)

lemma node_state_topic_inj [simp]: "node_state_topic a = node_state_topic b \<longleftrightarrow> a = b"
  by (simp add: node_state_topic_def)

lemma last_of_node_topics:
  "last (node_location_topic a) = CHR ''n''" "last (node_battery_topic a) = CHR ''y''"
  "last (node_state_topic a) = CHR ''e''"
  by (simp_all add: topic_defs)

lemma node_topics_apart [simp]:
  "node_location_topic a \<noteq> node_battery_topic b" "node_battery_topic a \<noteq> node_location_topic b"
  "node_location_topic a \<noteq> node_state_topic b" "node_state_topic a \<noteq> node_location_topic b"
  "node_battery_topic a \<noteq> node_state_topic b" "node_state_topic a \<noteq> node_battery_topic b"
  by (auto dest!: arg_cong [where f = last] simp: last_of_node_topics)

lemma node_topic_not_response:
  "rpc_response_topic a = Inr t \<Longrightarrow> t \<noteq> node_location_topic b \<and> t \<noteq> node_battery_topic b \<and>
     t \<noteq> node_state_topic b \<and> t \<noteq> BASE_LOCATION \<and> t \<noteq> RPC_REQUEST"
  by (auto simp: topic_defs split: if_splits)

lemma node_topic_not_base [simp]:
  "node_location_topic a \<noteq> BASE_LOCATION" "node_battery_topic a \<noteq> BASE_LOCATION"
  "node_state_topic a \<noteq> BASE_LOCATION"
  by (simp_all add: topic_defs)

end
