(* ===== verification/Schemas.thy ===== *)
theory Schemas
  imports Contract "HOL-Library.Monad_Syntax"
begin

text \<open>
  schemas.py: the request and response envelopes, the constraints the request model declares, and
  the JSON objects the two are written as.

  The declarations are read by pydantic. The one thing they leave to it is how a JSON value becomes
  an \<open>int\<close> (a string of digits and an integral float are accepted too): that conversion is the
  argument \<open>lax_int\<close>.
\<close>

definition SCHEMA_VERSION :: int where "SCHEMA_VERSION = 1"

section \<open>Requests\<close>

record request =
  q_v :: int
  q_id :: string
  q_type :: string
  q_from :: string
  q_ttl :: "int option"
  q_args :: pydict

definition bounded_str :: "pyval \<Rightarrow> string option" where
  "bounded_str v = (case v of
      VStr s \<Rightarrow> if 1 \<le> length s \<and> length s \<le> 128 then Some s else None
    | _ \<Rightarrow> None)"

definition ttl_field :: "(pyval \<Rightarrow> int option) \<Rightarrow> pyval \<Rightarrow> int option option" where
  "ttl_field lax_int v = (case v of
      VNone \<Rightarrow> Some None
    | _ \<Rightarrow> (case lax_int v of
          None \<Rightarrow> None
        | Some n \<Rightarrow> if 1 \<le> n then Some (Some n) else None))"

definition args_field :: "pyval \<Rightarrow> pydict option" where
  "args_field v = (case v of VDict d \<Rightarrow> Some d | _ \<Rightarrow> None)"

definition field_or :: "pydict \<Rightarrow> string \<Rightarrow> 'a \<Rightarrow> (pyval \<Rightarrow> 'a option) \<Rightarrow> 'a option" where
  "field_or d k dflt conv = (case map_of d k of None \<Rightarrow> Some dflt | Some v \<Rightarrow> conv v)"

definition field_req :: "pydict \<Rightarrow> string \<Rightarrow> (pyval \<Rightarrow> 'a option) \<Rightarrow> 'a option" where
  "field_req d k conv = (case map_of d k of None \<Rightarrow> None | Some v \<Rightarrow> conv v)"

text \<open>\<open>from_\<close> is filled from its alias or, \<open>populate_by_name\<close>, from its own name.\<close>

definition from_key :: "pydict \<Rightarrow> string" where
  "from_key d = (if has_key d ''from'' then ''from'' else ''from_'')"

text \<open>\<open>extra="forbid"\<close>: every key is one a field was filled from.\<close>

definition no_extra :: "pydict \<Rightarrow> bool" where
  "no_extra d = list_all (\<lambda>(k, v). k \<in> set [''v'', ''id'', ''type'', from_key d, ''ttl'', ''args'']) d"

definition validate_request :: "(pyval \<Rightarrow> int option) \<Rightarrow> pyval \<Rightarrow> request option" where
  "validate_request lax_int data = (case data of
      VDict d \<Rightarrow>
        do { v \<leftarrow> field_or d ''v'' SCHEMA_VERSION lax_int;
             i \<leftarrow> field_req d ''id'' bounded_str;
             t \<leftarrow> field_req d ''type'' bounded_str;
             f \<leftarrow> field_req d (from_key d) bounded_str;
             ttl \<leftarrow> field_or d ''ttl'' None (ttl_field lax_int);
             args \<leftarrow> field_or d ''args'' [] args_field;
             (if no_extra d
              then Some \<lparr>q_v = v, q_id = i, q_type = t, q_from = f, q_ttl = ttl, q_args = args\<rparr>
              else None) }
    | _ \<Rightarrow> None)"

definition well_formed_request :: "request \<Rightarrow> bool" where
  "well_formed_request r \<longleftrightarrow>
     1 \<le> length (q_id r) \<and> length (q_id r) \<le> 128 \<and>
     1 \<le> length (q_type r) \<and> length (q_type r) \<le> 128 \<and>
     1 \<le> length (q_from r) \<and> length (q_from r) \<le> 128 \<and>
     (case q_ttl r of None \<Rightarrow> True | Some n \<Rightarrow> 1 \<le> n)"

text \<open>\<open>request.model_dump_json(by_alias=True)\<close>\<close>

definition request_dump :: "request \<Rightarrow> pyval" where
  "request_dump r = VDict
     [(''v'', VInt (q_v r)), (''id'', VStr (q_id r)), (''type'', VStr (q_type r)),
      (''from'', VStr (q_from r)), (''ttl'', of_opt VInt (q_ttl r)), (''args'', VDict (q_args r))]"

section \<open>Responses\<close>

record error_body =
  eb_code :: string
  eb_message :: string

record response =
  p_v :: int
  p_id :: string
  p_type :: string
  p_to :: string
  p_status :: string
  p_body :: "pydict option"
  p_error :: "error_body option"

definition response_ok :: "request \<Rightarrow> pydict \<Rightarrow> response" where
  "response_ok r body =
     \<lparr>p_v = SCHEMA_VERSION, p_id = q_id r, p_type = q_type r, p_to = q_from r, p_status = ''ok'',
      p_body = Some body, p_error = None\<rparr>"

definition make_error :: "string \<Rightarrow> string \<Rightarrow> string \<Rightarrow> string \<Rightarrow> string \<Rightarrow> response" where
  "make_error request_id request_type to code message =
     \<lparr>p_v = SCHEMA_VERSION, p_id = request_id, p_type = request_type, p_to = to,
      p_status = ''error'', p_body = None,
      p_error = Some \<lparr>eb_code = code, eb_message = message\<rparr>\<rparr>"

definition error_json :: "error_body \<Rightarrow> pyval" where
  "error_json e = VDict [(''code'', VStr (eb_code e)), (''message'', VStr (eb_message e))]"

text \<open>\<open>to_json\<close>: a field that is \<open>None\<close> is left out.\<close>

definition response_json :: "response \<Rightarrow> pyval" where
  "response_json p = VDict
     ([(''v'', VInt (p_v p)), (''id'', VStr (p_id p)), (''type'', VStr (p_type p)),
       (''to'', VStr (p_to p)), (''status'', VStr (p_status p))]
      @ (case p_body p of None \<Rightarrow> [] | Some b \<Rightarrow> [(''body'', VDict b)])
      @ (case p_error p of None \<Rightarrow> [] | Some e \<Rightarrow> [(''error'', error_json e)]))"

lemma response_ok_simps [simp]:
  "p_id (response_ok r b) = q_id r" "p_type (response_ok r b) = q_type r"
  "p_to (response_ok r b) = q_from r" "p_status (response_ok r b) = ''ok''"
  "p_body (response_ok r b) = Some b" "p_error (response_ok r b) = None"
  by (simp_all add: response_ok_def)

lemma make_error_simps [simp]:
  "p_id (make_error i t n c m) = i" "p_type (make_error i t n c m) = t"
  "p_to (make_error i t n c m) = n" "p_status (make_error i t n c m) = ''error''"
  "p_body (make_error i t n c m) = None"
  "p_error (make_error i t n c m) = Some \<lparr>eb_code = c, eb_message = m\<rparr>"
  by (simp_all add: make_error_def)

text \<open>The contract of \<open>Response\<close>: a body or an error, matching the status, never both.\<close>

definition response_shape :: "response \<Rightarrow> bool" where
  "response_shape p \<longleftrightarrow>
     (p_status p = ''ok'' \<and> p_body p \<noteq> None \<and> p_error p = None) \<or>
     (p_status p = ''error'' \<and> p_body p = None \<and> p_error p \<noteq> None)"

lemma response_shape_ok [simp]: "response_shape (response_ok r b)"
  and response_shape_error [simp]: "response_shape (make_error i t n c m)"
  by (simp_all add: response_shape_def)

section \<open>What validation guarantees\<close>

lemma bounded_str_Some: "bounded_str v = Some s \<longleftrightarrow> v = VStr s \<and> 1 \<le> length s \<and> length s \<le> 128"
  by (auto simp: bounded_str_def split: pyval.splits)

lemma ttl_field_Some: "ttl_field lax_int v = Some (Some n) \<Longrightarrow> 1 \<le> n"
  by (auto simp: ttl_field_def split: pyval.splits option.splits if_splits)

lemma field_or_Some: "field_or d k dflt conv = Some x \<Longrightarrow> x = dflt \<or> (\<exists>v. map_of d k = Some v \<and> conv v = Some x)"
  by (auto simp: field_or_def split: option.splits)

lemma field_req_Some: "field_req d k conv = Some x \<longleftrightarrow> (\<exists>v. map_of d k = Some v \<and> conv v = Some x)"
  by (auto simp: field_req_def split: option.splits)

lemma validate_request_iff:
  "validate_request lax_int (VDict d) = Some r \<longleftrightarrow>
     field_or d ''v'' SCHEMA_VERSION lax_int = Some (q_v r) \<and>
     field_req d ''id'' bounded_str = Some (q_id r) \<and>
     field_req d ''type'' bounded_str = Some (q_type r) \<and>
     field_req d (from_key d) bounded_str = Some (q_from r) \<and>
     field_or d ''ttl'' None (ttl_field lax_int) = Some (q_ttl r) \<and>
     field_or d ''args'' [] args_field = Some (q_args r) \<and> no_extra d"
  unfolding validate_request_def by (cases r) (simp add: bind_eq_Some_conv, blast)

lemma validate_request_dict:
  assumes "validate_request lax_int data = Some r"
  obtains d where "data = VDict d"
  using assms by (auto simp: validate_request_def split: pyval.splits)

lemma validate_request_well_formed:
  assumes "validate_request lax_int data = Some r"
  shows "well_formed_request r"
proof -
  from assms obtain d where "data = VDict d" by (rule validate_request_dict)
  with assms have f: "field_req d ''id'' bounded_str = Some (q_id r)"
      "field_req d ''type'' bounded_str = Some (q_type r)"
      "field_req d (from_key d) bounded_str = Some (q_from r)"
      "field_or d ''ttl'' None (ttl_field lax_int) = Some (q_ttl r)"
    by (simp_all add: validate_request_iff)
  have "case q_ttl r of None \<Rightarrow> True | Some n \<Rightarrow> 1 \<le> n"
    using field_or_Some [OF f(4)] by (cases "q_ttl r") (auto dest: ttl_field_Some)
  with f(1-3) show ?thesis
    by (auto simp: well_formed_request_def field_req_Some bounded_str_Some)
qed

lemma validate_request_fields:
  assumes "validate_request lax_int (VDict d) = Some r"
  shows "map_of d ''id'' = Some (VStr (q_id r))" "map_of d ''type'' = Some (VStr (q_type r))"
    "map_of d (from_key d) = Some (VStr (q_from r))"
  using assms by (simp_all add: validate_request_iff field_req_Some bounded_str_Some)

lemma validate_request_keys:
  assumes "validate_request lax_int (VDict d) = Some r" "(k, v) \<in> set d"
  shows "k \<in> {''v'', ''id'', ''type'', ''from'', ''from_'', ''ttl'', ''args''}"
proof -
  from assms(1) have "no_extra d" by (simp add: validate_request_iff)
  with assms(2) have "k \<in> set [''v'', ''id'', ''type'', from_key d, ''ttl'', ''args'']"
    by (auto simp: no_extra_def list_all_iff)
  then show ?thesis by (auto simp: from_key_def split: if_splits)
qed

lemma validate_request_dump:
  assumes "well_formed_request r" and lax: "\<And>n. lax_int (VInt n) = Some n"
  shows "validate_request lax_int (request_dump r) = Some r"
proof -
  have ttl: "ttl_field lax_int (of_opt VInt (q_ttl r)) = Some (q_ttl r)"
    using assms(1) by (cases "q_ttl r") (simp_all add: ttl_field_def lax well_formed_request_def)
  from assms(1) show ?thesis
    unfolding request_dump_def
    by (simp add: validate_request_iff field_or_def field_req_def from_key_def has_key_def
        no_extra_def bounded_str_Some lax ttl args_field_def well_formed_request_def)
qed

end
