(* ===== verification/SqlStore.thy ===== *)
theory SqlStore
  imports Schemas
begin

text \<open>
  persistence/schema.sql and persistence/sqlite.py: the tables and the synchronous operations that
  \<open>Store\<close> runs in its thread pool. An operation runs in one transaction, so it takes the
  tables to new tables or raises and leaves them as they were.

  A value bound to a statement is converted as the sqlite3 module does it (NaN becomes NULL, an
  integer beyond 64 bits or a container raises), and stored after the affinity of its column is
  applied. The text SQLite gives a REAL in a TEXT column is the argument \<open>st\<close>; it matters only
  for a node id that is a float.
\<close>

section \<open>SQL values\<close>

datatype sqlval = SNull | SInt int | SReal xreal | SText string

definition fits64 :: "int \<Rightarrow> bool" where
  "fits64 n \<longleftrightarrow> - (2 ^ 63) \<le> n \<and> n < 2 ^ 63"

fun bind_val :: "pyval \<Rightarrow> exn + sqlval" where
  "bind_val VNone = Inr SNull"
| "bind_val (VBool b) = Inr (SInt (of_bool b))"
| "bind_val (VInt n) = (if fits64 n then Inr (SInt n) else Inl (PyExn ''OverflowError''))"
| "bind_val (VFloat NaN) = Inr SNull"
| "bind_val (VFloat (Flt x)) = Inr (SReal x)"
| "bind_val (VStr s) = Inr (SText s)"
| "bind_val v = Inl (PyExn ''ProgrammingError'')"

fun real_affinity :: "sqlval \<Rightarrow> sqlval" where
  "real_affinity (SInt n) = SReal (Fin (of_int n))"
| "real_affinity (SText s) = (case sql_numeric s of Some x \<Rightarrow> SReal x | None \<Rightarrow> SText s)"
| "real_affinity v = v"

fun shrink_real :: "xreal \<Rightarrow> sqlval" where
  "shrink_real (Fin a) =
     (if of_int \<lfloor>a\<rfloor> = a \<and> fits64 \<lfloor>a\<rfloor> then SInt \<lfloor>a\<rfloor> else SReal (Fin a))"
| "shrink_real x = SReal x"

fun int_affinity :: "sqlval \<Rightarrow> sqlval" where
  "int_affinity (SReal x) = shrink_real x"
| "int_affinity (SText s) = (case sql_numeric s of Some x \<Rightarrow> shrink_real x | None \<Rightarrow> SText s)"
| "int_affinity v = v"

fun text_affinity :: "(xreal \<Rightarrow> string) \<Rightarrow> sqlval \<Rightarrow> sqlval" where
  "text_affinity st (SInt n) = SText (str_int n)"
| "text_affinity st (SReal x) = SText (st x)"
| "text_affinity st v = v"

text \<open>The order of \<open>MAX(a, b)\<close>: numbers before texts, NULL if either is NULL.\<close>

fun sql_le :: "sqlval \<Rightarrow> sqlval \<Rightarrow> bool" where
  "sql_le SNull v = True"
| "sql_le v SNull = False"
| "sql_le (SText s) (SText t) = (s = t \<or> (s, t) \<in> lexord {(a, b). (of_char a :: nat) < of_char b})"
| "sql_le (SText s) v = False"
| "sql_le v (SText t) = True"
| "sql_le (SInt m) (SInt n) = (m \<le> n)"
| "sql_le (SInt m) (SReal y) = (Fin (of_int m) \<le> y)"
| "sql_le (SReal x) (SInt n) = (x \<le> Fin (of_int n))"
| "sql_le (SReal x) (SReal y) = (x \<le> y)"

definition sql_max :: "sqlval \<Rightarrow> sqlval \<Rightarrow> sqlval" where
  "sql_max a b = (if a = SNull \<or> b = SNull then SNull else if sql_le b a then a else b)"

text \<open>What a fetched column is to Python.\<close>

fun of_sql :: "sqlval \<Rightarrow> pyval" where
  "of_sql SNull = VNone"
| "of_sql (SInt n) = VInt n"
| "of_sql (SReal x) = VFloat (Flt x)"
| "of_sql (SText s) = VStr s"

fun float_of_sql :: "sqlval \<Rightarrow> exn + pyfloat" where
  "float_of_sql (SReal x) = Inr (Flt x)"
| "float_of_sql (SInt n) = float_of_int n"
| "float_of_sql (SText s) = float_of_str s"
| "float_of_sql SNull = Inl (PyExn ''TypeError'')"

definition bind_key :: "(xreal \<Rightarrow> string) \<Rightarrow> pyval \<Rightarrow> exn + sqlval" where
  "bind_key st v = (case bind_val v of Inl e \<Rightarrow> Inl e | Inr x \<Rightarrow> Inr (text_affinity st x))"

lemma bind_key_VStr [simp]: "bind_key st (VStr s) = Inr (SText s)"
  by (simp add: bind_key_def)

fun null_of_float :: "pyfloat \<Rightarrow> xreal option" where
  "null_of_float NaN = None"
| "null_of_float (Flt x) = Some x"

section \<open>Tables (schema.sql)\<close>

record request_row =
  r_id :: string
  r_node :: string
  r_type :: string
  r_ttl :: int
  r_received :: real
  r_completed :: "real option"
  r_final :: "string option"
  r_error :: "string option"
  r_request :: pyval
  r_response :: "pyval option"

record event_row =
  e_request :: string
  e_node :: string
  e_state :: string
  e_detail :: "string option"
  e_ts :: real

record snapshot_row =
  g_ts :: real
  g_status :: sqlval
  g_health :: sqlval
  g_state :: sqlval
  g_detail :: sqlval
  g_since :: sqlval

record location_row =
  l_lat :: xreal
  l_lon :: xreal
  l_alt :: "xreal option"
  l_acc :: "xreal option"
  l_fix :: "int option"
  l_spd :: "xreal option"
  l_hdg :: "xreal option"
  l_ts :: xreal
  l_source :: "string option"
  l_rssi :: "int option"
  l_snr :: "xreal option"

record battery_row =
  b_pct :: sqlval
  b_voltage :: sqlval
  b_ts :: sqlval
  b_source :: sqlval

record base_row =
  s_value :: pydict
  s_ts :: real

text \<open>
  A table whose primary key is a node id is a map from the stored key. A NULL key never equals a
  bound value, so a lookup under it finds nothing.
\<close>

record store =
  t_requests :: "request_row list"
  t_events :: "event_row list"
  t_snapshots :: "snapshot_row list"
  t_nodes :: "sqlval \<rightharpoonup> sqlval"
  t_locations :: "sqlval \<rightharpoonup> location_row"
  t_battery :: "sqlval \<rightharpoonup> battery_row"
  t_base :: "string \<rightharpoonup> base_row"

definition empty_store :: store where
  "empty_store = \<lparr>t_requests = [], t_events = [], t_snapshots = [], t_nodes = Map.empty,
     t_locations = Map.empty, t_battery = Map.empty, t_base = Map.empty\<rparr>"

definition row_at :: "(sqlval \<rightharpoonup> 'r) \<Rightarrow> sqlval \<Rightarrow> 'r option" where
  "row_at m k = (if k = SNull then None else m k)"

lemma row_at_SText [simp]: "row_at m (SText s) = m (SText s)"
  by (simp add: row_at_def)

text \<open>The dataclass \<open>LocationFix\<close> of state.py, which the location table stores.\<close>

record location_fix =
  f_lat :: pyfloat
  f_lon :: pyfloat
  f_ts :: pyfloat
  f_alt :: "pyfloat option"
  f_acc :: "pyfloat option"
  f_fix :: "int option"
  f_spd :: "pyfloat option"
  f_hdg :: "pyfloat option"

section \<open>Request lifecycle\<close>

definition row_key :: "request_row \<Rightarrow> string \<times> string" where
  "row_key r = (r_node r, r_id r)"

definition has_request :: "store \<Rightarrow> string \<Rightarrow> string \<Rightarrow> bool" where
  "has_request d node i \<longleftrightarrow> (node, i) \<in> set (map row_key (t_requests d))"

definition new_row :: "real \<Rightarrow> request \<Rightarrow> int \<Rightarrow> request_row" where
  "new_row now r ttl =
     \<lparr>r_id = q_id r, r_node = q_from r, r_type = q_type r, r_ttl = ttl, r_received = now,
      r_completed = None, r_final = None, r_error = None, r_request = request_dump r,
      r_response = None\<rparr>"

definition new_event :: "real \<Rightarrow> string \<Rightarrow> string \<Rightarrow> string \<Rightarrow> string option \<Rightarrow> event_row" where
  "new_event now i node state detail =
     \<lparr>e_request = i, e_node = node, e_state = state, e_detail = detail, e_ts = now\<rparr>"

definition sync_record_received :: "request \<Rightarrow> int \<Rightarrow> real \<Rightarrow> store \<Rightarrow> exn + (bool \<times> store)" where
  "sync_record_received r ttl now d =
     (if \<not> fits64 ttl then Inl (PyExn ''OverflowError'')
      else if has_request d (q_from r) (q_id r) then Inr (False, d)
      else Inr (True, d\<lparr>t_requests := t_requests d @ [new_row now r ttl],
                       t_events := t_events d @ [new_event now (q_id r) (q_from r) RECEIVED None]\<rparr>))"

definition sync_record_event ::
  "string \<Rightarrow> string \<Rightarrow> string \<Rightarrow> string option \<Rightarrow> real \<Rightarrow> store \<Rightarrow> exn + (unit \<times> store)" where
  "sync_record_event i node state detail now d =
     Inr ((), d\<lparr>t_events := t_events d @ [new_event now i node state detail]\<rparr>)"

definition complete_row ::
  "real \<Rightarrow> string \<Rightarrow> string option \<Rightarrow> pyval option \<Rightarrow> request_row \<Rightarrow> request_row" where
  "complete_row now final err resp r =
     r\<lparr>r_completed := Some now, r_final := Some final, r_error := err, r_response := resp\<rparr>"

definition sync_record_completion ::
  "string \<Rightarrow> string \<Rightarrow> string \<Rightarrow> response option \<Rightarrow> string option \<Rightarrow> real \<Rightarrow> store \<Rightarrow> exn + (unit \<times> store)" where
  "sync_record_completion i node final resp err now d =
     Inr ((), d\<lparr>t_requests := map (\<lambda>r. if r_id r = i \<and> r_node r = node
                  then complete_row now final err (map_option response_json resp) r else r)
                (t_requests d)\<rparr>)"

definition sync_count_by_final_state :: "store \<Rightarrow> string \<rightharpoonup> int" where
  "sync_count_by_final_state d s =
     (let n = length (filter (\<lambda>r. r_final r = Some s) (t_requests d))
      in if n = 0 then None else Some (int n))"

definition sync_count_pending :: "store \<Rightarrow> int" where
  "sync_count_pending d = int (length (filter (\<lambda>r. r_final r = None) (t_requests d)))"

section \<open>Node registry\<close>

definition sync_mark_node_seen ::
  "(xreal \<Rightarrow> string) \<Rightarrow> pyval \<Rightarrow> pyval \<Rightarrow> store \<Rightarrow> exn + (unit \<times> store)" where
  "sync_mark_node_seen st node ts d =
     (case bind_key st node of Inl e \<Rightarrow> Inl e | Inr k \<Rightarrow>
      (case bind_val ts of Inl e \<Rightarrow> Inl e | Inr t \<Rightarrow>
       (let v = real_affinity t in
        if v = SNull then Inl (PyExn ''IntegrityError'')
        else Inr ((), d\<lparr>t_nodes := (t_nodes d)(k \<mapsto>
               (case t_nodes d k of None \<Rightarrow> v | Some old \<Rightarrow> sql_max old v))\<rparr>))))"

definition sync_get_last_seen ::
  "(xreal \<Rightarrow> string) \<Rightarrow> pyval \<Rightarrow> store \<Rightarrow> exn + (pyfloat option)" where
  "sync_get_last_seen st node d =
     (case bind_key st node of Inl e \<Rightarrow> Inl e | Inr k \<Rightarrow>
      (case row_at (t_nodes d) k of
         None \<Rightarrow> Inr None
       | Some v \<Rightarrow> (case float_of_sql v of Inl e \<Rightarrow> Inl e | Inr f \<Rightarrow> Inr (Some f))))"

section \<open>Gateway snapshots\<close>

definition sync_record_gateway_snapshot ::
  "(xreal \<Rightarrow> string) \<Rightarrow> pyval \<Rightarrow> pyval \<Rightarrow> pyval \<Rightarrow> real \<Rightarrow> store \<Rightarrow> exn + (unit \<times> store)" where
  "sync_record_gateway_snapshot st state detail since now d =
     (case bind_key st state of Inl e \<Rightarrow> Inl e | Inr s \<Rightarrow>
      (case bind_key st detail of Inl e \<Rightarrow> Inl e | Inr dt \<Rightarrow>
       (case bind_val since of Inl e \<Rightarrow> Inl e | Inr sn \<Rightarrow>
         Inr ((), d\<lparr>t_snapshots := t_snapshots d @
           [\<lparr>g_ts = now, g_status = s, g_health = SNull, g_state = s, g_detail = dt,
             g_since = real_affinity sn\<rparr>]\<rparr>))))"

section \<open>Locations, battery, base state\<close>

definition opt_fits64 :: "int option \<Rightarrow> bool" where
  "opt_fits64 x = (case x of None \<Rightarrow> True | Some n \<Rightarrow> fits64 n)"

definition location_of_fix ::
  "location_fix \<Rightarrow> string option \<Rightarrow> int option \<Rightarrow> pyfloat option \<Rightarrow> location_row option" where
  "location_of_fix fx source rssi snr =
     (case (null_of_float (f_lat fx), null_of_float (f_lon fx), null_of_float (f_ts fx)) of
        (Some lat, Some lon, Some ts) \<Rightarrow> Some
          \<lparr>l_lat = lat, l_lon = lon,
           l_alt = Option.bind (f_alt fx) null_of_float,
           l_acc = Option.bind (f_acc fx) null_of_float,
           l_fix = f_fix fx,
           l_spd = Option.bind (f_spd fx) null_of_float,
           l_hdg = Option.bind (f_hdg fx) null_of_float,
           l_ts = ts, l_source = source, l_rssi = rssi, l_snr = Option.bind snr null_of_float\<rparr>
      | _ \<Rightarrow> None)"

definition sync_upsert_node_location ::
  "(xreal \<Rightarrow> string) \<Rightarrow> pyval \<Rightarrow> location_fix \<Rightarrow> string option \<Rightarrow> int option \<Rightarrow> pyfloat option \<Rightarrow>
     store \<Rightarrow> exn + (unit \<times> store)" where
  "sync_upsert_node_location st node fx source rssi snr d =
     (case bind_key st node of Inl e \<Rightarrow> Inl e | Inr k \<Rightarrow>
      if \<not> opt_fits64 (f_fix fx) \<or> \<not> opt_fits64 rssi then Inl (PyExn ''OverflowError'')
      else (case location_of_fix fx source rssi snr of
          None \<Rightarrow> Inl (PyExn ''IntegrityError'')
        | Some row \<Rightarrow> Inr ((), d\<lparr>t_locations := (t_locations d)(k \<mapsto> row)\<rparr>)))"

definition location_dict :: "location_row \<Rightarrow> pydict" where
  "location_dict r =
     (let fl = (\<lambda>x. VFloat (Flt x)) in
      [(''lat'', fl (l_lat r)), (''lon'', fl (l_lon r)), (''alt'', of_opt fl (l_alt r)),
       (''acc'', of_opt fl (l_acc r)), (''fix'', of_opt VInt (l_fix r)),
       (''spd'', of_opt fl (l_spd r)), (''hdg'', of_opt fl (l_hdg r)), (''ts'', fl (l_ts r)),
       (''source'', of_opt VStr (l_source r)), (''rssi'', of_opt VInt (l_rssi r)),
       (''snr'', of_opt fl (l_snr r))])"

definition sync_get_node_location ::
  "(xreal \<Rightarrow> string) \<Rightarrow> pyval \<Rightarrow> store \<Rightarrow> exn + (pydict option)" where
  "sync_get_node_location st node d =
     (case bind_key st node of Inl e \<Rightarrow> Inl e | Inr k \<Rightarrow>
        Inr (map_option location_dict (row_at (t_locations d) k)))"

definition sync_upsert_node_battery ::
  "(xreal \<Rightarrow> string) \<Rightarrow> pyval \<Rightarrow> pyval \<Rightarrow> pyval \<Rightarrow> pyval \<Rightarrow> string \<Rightarrow> store \<Rightarrow> exn + (unit \<times> store)" where
  "sync_upsert_node_battery st node ts pct voltage source d =
     (case bind_key st node of Inl e \<Rightarrow> Inl e | Inr k \<Rightarrow>
      (case bind_val pct of Inl e \<Rightarrow> Inl e | Inr p \<Rightarrow>
       (case bind_val voltage of Inl e \<Rightarrow> Inl e | Inr v \<Rightarrow>
        (case bind_val ts of Inl e \<Rightarrow> Inl e | Inr t \<Rightarrow>
          (if real_affinity t = SNull then Inl (PyExn ''IntegrityError'')
           else Inr ((), d\<lparr>t_battery := (t_battery d)(k \<mapsto>
               \<lparr>b_pct = int_affinity p, b_voltage = real_affinity v, b_ts = real_affinity t,
                b_source = SText source\<rparr>)\<rparr>))))))"

definition battery_dict :: "battery_row \<Rightarrow> pydict" where
  "battery_dict r = [(''pct'', of_sql (b_pct r)), (''voltage'', of_sql (b_voltage r)),
     (''ts'', of_sql (b_ts r)), (''source'', of_sql (b_source r))]"

definition sync_get_node_battery ::
  "(xreal \<Rightarrow> string) \<Rightarrow> pyval \<Rightarrow> store \<Rightarrow> exn + (pydict option)" where
  "sync_get_node_battery st node d =
     (case bind_key st node of Inl e \<Rightarrow> Inl e | Inr k \<Rightarrow>
        Inr (map_option battery_dict (row_at (t_battery d) k)))"

text \<open>\<open>json.dumps\<close> then \<open>json.loads\<close> gives back a dict with string keys unchanged.\<close>

definition sync_upsert_base_state :: "string \<Rightarrow> pydict \<Rightarrow> real \<Rightarrow> store \<Rightarrow> exn + (unit \<times> store)" where
  "sync_upsert_base_state key val now d =
     Inr ((), d\<lparr>t_base := (t_base d)(key \<mapsto> \<lparr>s_value = val, s_ts = now\<rparr>)\<rparr>)"

definition sync_get_base_state :: "string \<Rightarrow> store \<Rightarrow> exn + (pydict option)" where
  "sync_get_base_state key d = Inr (map_option s_value (t_base d key))"

section \<open>Retention\<close>

definition purgeable :: "real \<Rightarrow> request_row \<Rightarrow> bool" where
  "purgeable cutoff r = (case r_completed r of None \<Rightarrow> False | Some t \<Rightarrow> t < cutoff)"

definition sync_purge_before :: "real \<Rightarrow> store \<Rightarrow> exn + (int \<times> store)" where
  "sync_purge_before cutoff d =
     (let left = filter (\<lambda>r. \<not> purgeable cutoff r) (t_requests d);
          deleted = length (filter (purgeable cutoff) (t_requests d))
      in Inr (int deleted,
           d\<lparr>t_requests := left,
             t_events := filter (\<lambda>e. \<not> (e_ts e < cutoff \<and> e_request e \<notin> set (map r_id left))) (t_events d),
             t_snapshots := filter (\<lambda>g. \<not> g_ts g < cutoff) (t_snapshots d)\<rparr>))"

end
