(* ===== verification/StoreLaws.thy ===== *)
theory StoreLaws
  imports SqlStore
begin

text \<open>
  What the tables guarantee: the contract of the upserted tables as a locale with its three
  instances, the invariant of the request tables and its preservation by every operation, the
  counts, the node registry as a running maximum, and the effect of the retention sweep.
\<close>

section \<open>Tables with one row per key\<close>

fun run_ops :: "('d \<Rightarrow> exn + (unit \<times> 'd)) list \<Rightarrow> 'd \<Rightarrow> exn + 'd" where
  "run_ops [] d = Inr d"
| "run_ops (f # fs) d = (case f d of Inl e \<Rightarrow> Inl e | Inr (u, d') \<Rightarrow> run_ops fs d')"

text \<open>
  The contract \<open>StateAggregator\<close> relies on: an upsert of an admitted value succeeds, what is
  fetched afterwards is that value, and the other keys are untouched.
\<close>

locale keyed_table =
  fixes upsert :: "'k \<Rightarrow> 'v \<Rightarrow> 'd \<Rightarrow> exn + (unit \<times> 'd)"
    and fetch :: "'k \<Rightarrow> 'd \<Rightarrow> exn + 'r option"
    and shown :: "'v \<Rightarrow> 'r"
    and admits :: "'v \<Rightarrow> bool"
  assumes upsert_admitted: "admits v \<Longrightarrow> \<exists>d'. upsert k v d = Inr ((), d')"
    and upsert_refused: "\<not> admits v \<Longrightarrow> \<exists>e. upsert k v d = Inl e"
    and fetch_same: "upsert k v d = Inr ((), d') \<Longrightarrow> fetch k d' = Inr (Some (shown v))"
    and fetch_other: "upsert k v d = Inr ((), d') \<Longrightarrow> k' \<noteq> k \<Longrightarrow> fetch k' d' = fetch k' d"
begin

lemma admitted_iff: "admits v \<longleftrightarrow> (\<exists>d'. upsert k v d = Inr ((), d'))"
  using upsert_admitted upsert_refused by (metis Inl_Inr_False)

lemma fetch_after: "upsert k v d = Inr ((), d') \<Longrightarrow>
    fetch k' d' = (if k' = k then Inr (Some (shown v)) else fetch k' d)"
  using fetch_same fetch_other by auto

text \<open>After any run of upserts a key shows its last value, or what it showed before the run.\<close>

lemma fetch_after_run:
  "run_ops (map (\<lambda>(k, v). upsert k v) kvs) d = Inr d' \<Longrightarrow>
     fetch k d' = (case map_of (rev kvs) k of Some v \<Rightarrow> Inr (Some (shown v)) | None \<Rightarrow> fetch k d)"
proof (induction kvs arbitrary: d)
  case Nil
  then show ?case by simp
next
  case (Cons kv kvs)
  obtain k0 v0 where kv: "kv = (k0, v0)" by (cases kv)
  with Cons.prems obtain d1 where d1: "upsert k0 v0 d = Inr ((), d1)"
      and rest: "run_ops (map (\<lambda>(k, v). upsert k v) kvs) d1 = Inr d'"
    by (auto split: sum.splits)
  show ?case
    using Cons.IH [OF rest] fetch_after [OF d1, of k]
    by (auto simp: kv map_add_def split: option.splits)
qed

text \<open>A run of admitted values never stops on an error.\<close>

lemma run_admitted:
  "list_all (\<lambda>(k, v). admits v) kvs \<Longrightarrow> \<exists>d'. run_ops (map (\<lambda>(k, v). upsert k v) kvs) d = Inr d'"
proof (induction kvs arbitrary: d)
  case Nil
  then show ?case by simp
next
  case (Cons kv kvs)
  obtain k0 v0 where kv: "kv = (k0, v0)" by (cases kv)
  with Cons.prems upsert_admitted obtain d1 where "upsert k0 v0 d = Inr ((), d1)" by fastforce
  with Cons kv show ?case by simp
qed

end

subsection \<open>Locations\<close>

type_synonym location_args = "location_fix \<times> string option \<times> int option \<times> pyfloat option"

definition put_location :: "(xreal \<Rightarrow> string) \<Rightarrow> string \<Rightarrow> location_args \<Rightarrow> store \<Rightarrow> exn + (unit \<times> store)" where
  "put_location st n v d = (case v of (fx, source, rssi, snr) \<Rightarrow>
     sync_upsert_node_location st (VStr n) fx source rssi snr d)"

definition admits_location :: "location_args \<Rightarrow> bool" where
  "admits_location v = (case v of (fx, source, rssi, snr) \<Rightarrow>
     f_lat fx \<noteq> NaN \<and> f_lon fx \<noteq> NaN \<and> f_ts fx \<noteq> NaN \<and> opt_fits64 (f_fix fx) \<and> opt_fits64 rssi)"

definition shown_location :: "location_args \<Rightarrow> pydict" where
  "shown_location v = (case v of (fx, source, rssi, snr) \<Rightarrow>
     location_dict (the (location_of_fix fx source rssi snr)))"

lemma location_of_fix_None:
  "location_of_fix fx s r n = None \<longleftrightarrow> f_lat fx = NaN \<or> f_lon fx = NaN \<or> f_ts fx = NaN"
  by (cases "f_lat fx"; cases "f_lon fx"; cases "f_ts fx") (auto simp: location_of_fix_def)

lemma upsert_node_location_Inr:
  "sync_upsert_node_location st (VStr n) fx s r sn d = Inr (u, d') \<longleftrightarrow>
     admits_location (fx, s, r, sn) \<and>
     d' = d\<lparr>t_locations := (t_locations d)(SText n \<mapsto> the (location_of_fix fx s r sn))\<rparr>"
proof (cases "location_of_fix fx s r sn")
  case None
  then have "f_lat fx = NaN \<or> f_lon fx = NaN \<or> f_ts fx = NaN" by (simp add: location_of_fix_None)
  with None show ?thesis
    by (auto simp: sync_upsert_node_location_def admits_location_def)
next
  case (Some row)
  then have "\<not> (f_lat fx = NaN \<or> f_lon fx = NaN \<or> f_ts fx = NaN)"
    by (metis location_of_fix_None option.discI)
  with Some show ?thesis
    by (auto simp: sync_upsert_node_location_def admits_location_def)
qed

interpretation loc_tab: keyed_table "put_location st" "\<lambda>n. sync_get_node_location st (VStr n)"
    shown_location admits_location for st
proof unfold_locales
  fix v :: location_args and n n' :: string and d d' :: store
  obtain fx s r sn where v: "v = (fx, s, r, sn)" by (cases v)
  show "\<exists>d'. put_location st n v d = Inr ((), d')" if "admits_location v"
    using that by (auto simp: v put_location_def upsert_node_location_Inr)
  show "\<exists>e. put_location st n v d = Inl e" if "\<not> admits_location v"
  proof (cases "put_location st n v d")
    case (Inr r)
    with that show ?thesis
      by (cases r) (simp add: v put_location_def upsert_node_location_Inr)
  qed simp
  show "sync_get_node_location st (VStr n) d' = Inr (Some (shown_location v))"
    if "put_location st n v d = Inr ((), d')"
    using that by (auto simp: v put_location_def upsert_node_location_Inr shown_location_def
        sync_get_node_location_def)
  show "sync_get_node_location st (VStr n') d' = sync_get_node_location st (VStr n') d"
    if "put_location st n v d = Inr ((), d')" "n' \<noteq> n"
    using that by (auto simp: v put_location_def upsert_node_location_Inr sync_get_node_location_def)
qed

subsection \<open>Battery\<close>

type_synonym battery_args = "pyval \<times> pyval \<times> pyval \<times> string"

definition put_battery :: "(xreal \<Rightarrow> string) \<Rightarrow> string \<Rightarrow> battery_args \<Rightarrow> store \<Rightarrow> exn + (unit \<times> store)" where
  "put_battery st n v d = (case v of (ts, pct, voltage, source) \<Rightarrow>
     sync_upsert_node_battery st (VStr n) ts pct voltage source d)"

definition binds :: "pyval \<Rightarrow> bool" where
  "binds v = (case bind_val v of Inl e \<Rightarrow> False | Inr x \<Rightarrow> True)"

definition bound :: "pyval \<Rightarrow> sqlval" where
  "bound v = (case bind_val v of Inl e \<Rightarrow> SNull | Inr x \<Rightarrow> x)"

definition admits_battery :: "battery_args \<Rightarrow> bool" where
  "admits_battery v = (case v of (ts, pct, voltage, source) \<Rightarrow>
     binds pct \<and> binds voltage \<and> binds ts \<and> real_affinity (bound ts) \<noteq> SNull)"

definition shown_battery :: "battery_args \<Rightarrow> pydict" where
  "shown_battery v = (case v of (ts, pct, voltage, source) \<Rightarrow> battery_dict
     \<lparr>b_pct = int_affinity (bound pct), b_voltage = real_affinity (bound voltage),
      b_ts = real_affinity (bound ts), b_source = SText source\<rparr>)"

lemma upsert_node_battery_Inr:
  "sync_upsert_node_battery st (VStr n) ts p v s d = Inr (u, d') \<longleftrightarrow>
     admits_battery (ts, p, v, s) \<and>
     d' = d\<lparr>t_battery := (t_battery d)(SText n \<mapsto>
       \<lparr>b_pct = int_affinity (bound p), b_voltage = real_affinity (bound v),
        b_ts = real_affinity (bound ts), b_source = SText s\<rparr>)\<rparr>"
  unfolding sync_upsert_node_battery_def admits_battery_def binds_def bound_def
  by (auto split: sum.splits)

interpretation bat_tab: keyed_table "put_battery st" "\<lambda>n. sync_get_node_battery st (VStr n)"
    shown_battery admits_battery for st
proof unfold_locales
  fix v :: battery_args and n n' :: string and d d' :: store
  obtain ts p vo s where v: "v = (ts, p, vo, s)" by (cases v)
  show "\<exists>d'. put_battery st n v d = Inr ((), d')" if "admits_battery v"
    using that by (auto simp: v put_battery_def upsert_node_battery_Inr)
  show "\<exists>e. put_battery st n v d = Inl e" if "\<not> admits_battery v"
  proof (cases "put_battery st n v d")
    case (Inr r)
    with that show ?thesis
      by (cases r) (simp add: v put_battery_def upsert_node_battery_Inr)
  qed simp
  show "sync_get_node_battery st (VStr n) d' = Inr (Some (shown_battery v))"
    if "put_battery st n v d = Inr ((), d')"
    using that by (auto simp: v put_battery_def upsert_node_battery_Inr shown_battery_def
        sync_get_node_battery_def)
  show "sync_get_node_battery st (VStr n') d' = sync_get_node_battery st (VStr n') d"
    if "put_battery st n v d = Inr ((), d')" "n' \<noteq> n"
    using that by (auto simp: v put_battery_def upsert_node_battery_Inr sync_get_node_battery_def)
qed

subsection \<open>Base state\<close>

interpretation base_tab: keyed_table "\<lambda>k v. sync_upsert_base_state k v now" sync_get_base_state
    "\<lambda>v. v" "\<lambda>v. True" for now
  by unfold_locales (auto simp: sync_upsert_base_state_def sync_get_base_state_def)

section \<open>The request tables\<close>

text \<open>
  One row per \<open>(node_id, id)\<close>, a row is completed exactly when it has a final state, that
  state is one of the two of lifecycle.py, and the event log holds known states only.
\<close>

definition row_ok :: "request_row \<Rightarrow> bool" where
  "row_ok r \<longleftrightarrow> (r_completed r = None) = (r_final r = None) \<and>
     (case r_final r of None \<Rightarrow> r_response r = None \<and> r_error r = None
        | Some s \<Rightarrow> s \<in> set ALL_FINAL_STATES)"

definition store_ok :: "store \<Rightarrow> bool" where
  "store_ok d \<longleftrightarrow> distinct (map row_key (t_requests d)) \<and> list_all row_ok (t_requests d) \<and>
     list_all (\<lambda>e. e_state e \<in> set ALL_EVENT_STATES) (t_events d)"

lemma store_ok_empty [simp]: "store_ok empty_store"
  by (simp add: store_ok_def empty_store_def)

lemma row_key_new_row [simp]: "row_key (new_row now r ttl) = (q_from r, q_id r)"
  by (simp add: row_key_def new_row_def)

lemma row_ok_new_row [simp]: "row_ok (new_row now r ttl)"
  by (simp add: row_ok_def new_row_def)

lemma row_key_complete_row [simp]: "row_key (complete_row now f e p r) = row_key r"
  by (simp add: row_key_def complete_row_def)

lemma row_ok_complete_row [simp]: "row_ok (complete_row now f e p r) \<longleftrightarrow> f \<in> set ALL_FINAL_STATES"
  by (simp add: row_ok_def complete_row_def)

lemma final_states [simp]: "COMPLETED_OK \<in> set ALL_FINAL_STATES" "COMPLETED_ERROR \<in> set ALL_FINAL_STATES"
  by (simp_all add: ALL_FINAL_STATES_def)

lemma event_states [simp]: "RECEIVED \<in> set ALL_EVENT_STATES" "VALIDATED \<in> set ALL_EVENT_STATES"
  "REJECTED \<in> set ALL_EVENT_STATES" "HANDLER_STARTED \<in> set ALL_EVENT_STATES"
  "RESPONSE_PUBLISHED \<in> set ALL_EVENT_STATES" "TIMEOUT \<in> set ALL_EVENT_STATES"
  by (simp_all add: ALL_EVENT_STATES_def)

lemma store_ok_received:
  "sync_record_received r ttl now d = Inr (b, d') \<Longrightarrow> store_ok d \<Longrightarrow> store_ok d'"
  by (auto simp: sync_record_received_def store_ok_def has_request_def new_event_def
      simp del: set_map split: if_splits)

lemma store_ok_event:
  "sync_record_event i n s dt now d = Inr (u, d') \<Longrightarrow> s \<in> set ALL_EVENT_STATES \<Longrightarrow>
     store_ok d \<Longrightarrow> store_ok d'"
  by (auto simp: sync_record_event_def store_ok_def new_event_def)

definition completed_requests ::
  "real \<Rightarrow> string \<Rightarrow> string \<Rightarrow> string \<Rightarrow> response option \<Rightarrow> string option \<Rightarrow> request_row list \<Rightarrow> request_row list" where
  "completed_requests now i n f p e rows =
     map (\<lambda>r. if r_id r = i \<and> r_node r = n
         then complete_row now f e (map_option response_json p) r else r) rows"

lemma sync_record_completion_eq:
  "sync_record_completion i n f p e now d =
     Inr ((), d\<lparr>t_requests := completed_requests now i n f p e (t_requests d)\<rparr>)"
  by (simp add: sync_record_completion_def completed_requests_def)

lemma keys_completed_requests [simp]:
  "map row_key (completed_requests now i n f p e rows) = map row_key rows"
  by (simp add: completed_requests_def)

lemma row_ok_completed_requests:
  "f \<in> set ALL_FINAL_STATES \<Longrightarrow> list_all row_ok rows \<Longrightarrow>
     list_all row_ok (completed_requests now i n f p e rows)"
  by (auto simp: list_all_iff completed_requests_def)

lemma store_ok_completion:
  "sync_record_completion i n f p e now d = Inr (u, d') \<Longrightarrow> f \<in> set ALL_FINAL_STATES \<Longrightarrow>
     store_ok d \<Longrightarrow> store_ok d'"
  by (auto simp: sync_record_completion_eq store_ok_def row_ok_completed_requests)

lemma store_ok_purge: "sync_purge_before c d = Inr (n, d') \<Longrightarrow> store_ok d \<Longrightarrow> store_ok d'"
  by (auto simp: sync_purge_before_def Let_def store_ok_def list_all_iff distinct_map_filter)

text \<open>The remaining operations do not touch the request tables.\<close>

definition request_tables :: "store \<Rightarrow> request_row list \<times> event_row list" where
  "request_tables d = (t_requests d, t_events d)"

lemma store_ok_request_tables: "request_tables d' = request_tables d \<Longrightarrow> store_ok d' = store_ok d"
  by (simp add: request_tables_def store_ok_def)

lemma request_tables_frames:
  "sync_mark_node_seen st v ts d = Inr (u, d') \<Longrightarrow> request_tables d' = request_tables d"
  "sync_record_gateway_snapshot st s dt sn now d = Inr (u, d') \<Longrightarrow> request_tables d' = request_tables d"
  "sync_upsert_node_location st v fx src ri sr d = Inr (u, d') \<Longrightarrow> request_tables d' = request_tables d"
  "sync_upsert_node_battery st v ts p vo so d = Inr (u, d') \<Longrightarrow> request_tables d' = request_tables d"
  "sync_upsert_base_state k val now d = Inr (u, d') \<Longrightarrow> request_tables d' = request_tables d"
  by (auto simp: request_tables_def sync_mark_node_seen_def sync_record_gateway_snapshot_def
      sync_upsert_node_location_def sync_upsert_node_battery_def sync_upsert_base_state_def Let_def
      split: sum.splits option.splits if_splits)

section \<open>Counts\<close>

lemma count_final_split:
  assumes "list_all row_ok rows"
  shows "length rows = length (filter (\<lambda>r. r_final r = None) rows)
     + length (filter (\<lambda>r. r_final r = Some COMPLETED_OK) rows)
     + length (filter (\<lambda>r. r_final r = Some COMPLETED_ERROR) rows)"
  using assms
proof (induction rows)
  case Nil
  then show ?case by simp
next
  case (Cons r rows)
  then have "r_final r = None \<or> r_final r = Some COMPLETED_OK \<or> r_final r = Some COMPLETED_ERROR"
    by (auto simp: row_ok_def ALL_FINAL_STATES_def split: option.splits)
  with Cons show ?case by (auto simp: COMPLETED_OK_def COMPLETED_ERROR_def)
qed

definition count_of :: "store \<Rightarrow> string \<Rightarrow> int" where
  "count_of d s = (case sync_count_by_final_state d s of None \<Rightarrow> 0 | Some n \<Rightarrow> n)"

lemma count_of_eq: "count_of d s = int (length (filter (\<lambda>r. r_final r = Some s) (t_requests d)))"
  by (simp add: count_of_def sync_count_by_final_state_def Let_def)

lemma count_only_final_states:
  assumes "store_ok d" "s \<notin> set ALL_FINAL_STATES"
  shows "sync_count_by_final_state d s = None"
proof -
  have "filter (\<lambda>r. r_final r = Some s) (t_requests d) = []"
    using assms by (auto simp: store_ok_def list_all_iff row_ok_def filter_empty_conv
        split: option.splits)
  then show ?thesis by (simp add: sync_count_by_final_state_def)
qed

section \<open>The node registry\<close>

abbreviation fin_ts :: "real \<Rightarrow> pyval" where "fin_ts t \<equiv> VFloat (Flt (Fin t))"

fun sees :: "(xreal \<Rightarrow> string) \<Rightarrow> string \<Rightarrow> real list \<Rightarrow> store \<Rightarrow> exn + store" where
  "sees st n ts d = run_ops (map (\<lambda>t. sync_mark_node_seen st (VStr n) (fin_ts t)) ts) d"

lemma sql_max_Fin [simp]: "sql_max (SReal (Fin a)) (SReal (Fin b)) = SReal (Fin (max a b))"
  by (auto simp: sql_max_def)

lemma mark_seen_Fin:
  "sync_mark_node_seen st (VStr n) (fin_ts t) d = Inr ((), d\<lparr>t_nodes := (t_nodes d)(SText n \<mapsto>
     (case t_nodes d (SText n) of None \<Rightarrow> SReal (Fin t) | Some old \<Rightarrow> sql_max old (SReal (Fin t))))\<rparr>)"
  by (simp add: sync_mark_node_seen_def Let_def)

lemma sees_from:
  assumes "t_nodes d (SText n) = Some (SReal (Fin a))"
  shows "\<exists>d'. sees st n ts d = Inr d' \<and> t_nodes d' (SText n) = Some (SReal (Fin (fold max ts a)))"
  using assms
proof (induction ts arbitrary: d a)
  case Nil
  then show ?case by simp
next
  case (Cons t ts)
  let ?d = "d\<lparr>t_nodes := (t_nodes d)(SText n \<mapsto> SReal (Fin (max a t)))\<rparr>"
  have "t_nodes ?d (SText n) = Some (SReal (Fin (max a t)))" by simp
  from Cons.IH [OF this] show ?case
    using Cons.prems by (auto simp: mark_seen_Fin max.commute)
qed

lemma fold_max_Max: "fold max ts (a::real) = Max (insert a (set ts))"
  using Max.set_eq_fold [of a ts] by simp

end
