(* ===== verification/Adapter.thy ===== *)
theory Adapter
  imports Schemas
begin

text \<open>
  transport/adapter.py: from the payload of a message on the request topic to a request, or to the
  error response that can be published at once.

  A payload is represented by what \<open>json.loads\<close> makes of its decoded text: a value, or the
  exception it raises. That exception is \<open>JSONDecodeError\<close> for text that is not JSON, but a
  plain \<open>ValueError\<close> for an integer of more than 4300 digits and \<open>RecursionError\<close> for
  nesting beyond the interpreter's limit.
\<close>

type_synonym payload = "exn + pyval"

abbreviation JSONDecodeError :: exn where "JSONDecodeError \<equiv> PyExn ''JSONDecodeError''"

record envelope =
  env_request :: "request option"
  env_error :: "response option"
  env_topic :: string

definition try_build_bad_request :: "(pyfloat \<Rightarrow> string) \<Rightarrow> pyval \<Rightarrow> response option" where
  "try_build_bad_request fr data = (case data of
      VDict d \<Rightarrow>
        (let req_id = dget d ''id''; req_type = dget d ''type''; to = dget d ''from''
         in if \<not> truthy req_id \<or> \<not> truthy to then None
            else Some (make_error (py_str fr req_id) (py_str fr (py_or req_type (VStr ''unknown'')))
                   (py_str fr to) BAD_REQUEST ''Request payload failed validation''))
    | _ \<Rightarrow> None)"

definition inbound_to_request ::
  "(pyval \<Rightarrow> int option) \<Rightarrow> (pyfloat \<Rightarrow> string) \<Rightarrow> string \<Rightarrow> payload \<Rightarrow> exn + envelope" where
  "inbound_to_request lax_int fr topic raw = (case raw of
      Inl e \<Rightarrow>
        if e = JSONDecodeError
        then Inr \<lparr>env_request = None, env_error = None, env_topic = topic\<rparr>
        else Inl e
    | Inr data \<Rightarrow>
        (case validate_request lax_int data of
            None \<Rightarrow> Inr \<lparr>env_request = None, env_error = try_build_bad_request fr data,
                      env_topic = topic\<rparr>
          | Some request \<Rightarrow> Inr \<lparr>env_request = Some request, env_error = None,
                      env_topic = topic\<rparr>))"

text \<open>\<open>response_to_outbound\<close>: the addressee and the payload, as the JSON value it encodes.\<close>

definition response_to_outbound :: "response \<Rightarrow> string \<times> pyval" where
  "response_to_outbound p = (p_to p, response_json p)"

lemma inbound_cases:
  assumes "inbound_to_request lax_int fr topic raw = Inr env"
  obtains (request) r data where "raw = Inr data" "validate_request lax_int data = Some r"
      "env = \<lparr>env_request = Some r, env_error = None, env_topic = topic\<rparr>"
  | (refused) data where "raw = Inr data" "validate_request lax_int data = None"
      "env = \<lparr>env_request = None, env_error = try_build_bad_request fr data, env_topic = topic\<rparr>"
  | (garbled) "raw = Inl JSONDecodeError"
      "env = \<lparr>env_request = None, env_error = None, env_topic = topic\<rparr>"
  using assms
  by (auto simp: inbound_to_request_def split: sum.splits option.splits if_splits)

lemma bad_request_shape:
  assumes "try_build_bad_request fr data = Some p"
  shows "response_shape p \<and> p_error p = Some \<lparr>eb_code = BAD_REQUEST,
           eb_message = ''Request payload failed validation''\<rparr>"
  using assms by (auto simp: try_build_bad_request_def Let_def split: pyval.splits if_splits)

text \<open>The refusal is addressed to the sender the payload names, under the id it names.\<close>

lemma bad_request_addressed:
  assumes "try_build_bad_request fr (VDict d) = Some p"
  shows "p_to p = py_str fr (dget d ''from'') \<and> p_id p = py_str fr (dget d ''id'')"
  using assms by (auto simp: try_build_bad_request_def Let_def split: if_splits)

lemma bad_request_Some_iff:
  "(\<exists>p. try_build_bad_request fr (VDict d) = Some p) \<longleftrightarrow>
     truthy (dget d ''id'') \<and> truthy (dget d ''from'')"
  by (auto simp: try_build_bad_request_def Let_def)

end
