(* ===== verification/World.thy ===== *)
theory World
  imports StoreLaws Adapter
begin

text \<open>
  The state a running service acts on, and the operations that touch the outside: the clock, the
  database behind the asynchronous \<open>Store\<close> methods, the MQTT client behind
  \<open>MqttBus.publish\<close>, and the time limit of \<open>timeouts/tracker.py\<close>.

  What the outside does is not determined by the program, so the state carries a \<open>host\<close>: for
  every interaction, numbered by \<open>w_tick\<close>, the clock reading, whether the database statement
  and the MQTT publish succeed, after how many completed awaits the time limit of a handler
  fires, and whether the operation awaited at that moment still takes effect. A theorem over all states is therefore a theorem over all behaviours of the outside.
\<close>

record host =
  h_clock :: "nat \<Rightarrow> real"
  h_db_ok :: "nat \<Rightarrow> bool"
  h_mqtt_ok :: "nat \<Rightarrow> bool"
  h_cut :: "nat \<Rightarrow> int \<Rightarrow> nat option"
  h_lands :: "nat \<Rightarrow> bool"
  h_float_repr :: "pyfloat \<Rightarrow> string"
  h_sql_text :: "xreal \<Rightarrow> string"
  h_lax_int :: "pyval \<Rightarrow> int option"

record radio_meta =
  m_rssi :: "int option"
  m_snr :: "pyfloat option"
  m_ts :: pyval

record gateway_cache =
  c_state :: pyval
  c_detail :: pyval
  c_since :: pyval
  c_snapped_at :: "real option"

record message =
  msg_topic :: string
  msg_payload :: pyval
  msg_retain :: bool

record world =
  w_host :: host
  w_tick :: nat
  w_budget :: "nat option"
  w_db :: store
  w_radio :: "string \<rightharpoonup> radio_meta"
  w_sent :: "message list"
  w_connected :: bool
  w_in_flight :: int
  w_gateway :: gateway_cache

abbreviation TimeoutError :: exn where "TimeoutError \<equiv> PyExn ''TimeoutError''"

section \<open>Interactions\<close>

text \<open>
  A coroutine can be cancelled where it awaits: inside a handler, \<open>w_budget\<close> counts the awaits
  that still complete before the time limit fires; outside it is \<open>None\<close>. The cancellation ends
  the waiting, not the operation: a thread that runs a database statement goes on to its end, and a
  packet handed to the client is sent, so the operation may take effect (\<open>h_lands\<close>) although its
  result is lost.
\<close>

definition awaiting :: "(world, 'a) prog \<Rightarrow> (world, 'a) prog" where
  "awaiting m = (\<lambda>w. case w_budget w of
      None \<Rightarrow> m w
    | Some n \<Rightarrow>
        if n = 0 then (Inl Cancelled, if h_lands (w_host w) (w_tick w) then snd (m w) else w)
        else m (w\<lparr>w_budget := Some (n - 1)\<rparr>))"

definition time_time :: "(world, real) prog" where
  "time_time = (\<lambda>w. (Inr (h_clock (w_host w) (w_tick w)), w\<lparr>w_tick := Suc (w_tick w)\<rparr>))"

text \<open>
  One \<open>asyncio.to_thread\<close> call of a synchronous store operation: a failing database raises
  \<open>OperationalError\<close>, and an operation that raises is rolled back.
\<close>

definition store_call ::
  "((xreal \<Rightarrow> string) \<Rightarrow> real \<Rightarrow> store \<Rightarrow> exn + ('a \<times> store)) \<Rightarrow> (world, 'a) prog" where
  "store_call f = awaiting (\<lambda>w.
     (let t = w_tick w; w1 = w\<lparr>w_tick := Suc t\<rparr>
      in if \<not> h_db_ok (w_host w) t then (Inl (PyExn ''OperationalError''), w1)
         else (case f (h_sql_text (w_host w)) (h_clock (w_host w) t) (w_db w) of
             Inl e \<Rightarrow> (Inl e, w1)
           | Inr (x, d) \<Rightarrow> (Inr x, w1\<lparr>w_db := d\<rparr>))))"

definition store_query ::
  "((xreal \<Rightarrow> string) \<Rightarrow> store \<Rightarrow> exn + 'a) \<Rightarrow> (world, 'a) prog" where
  "store_query f = store_call (\<lambda>st now d. case f st d of Inl e \<Rightarrow> Inl e | Inr x \<Rightarrow> Inr (x, d))"

section \<open>The asynchronous store (persistence/sqlite.py)\<close>

definition record_received :: "request \<Rightarrow> int \<Rightarrow> (world, bool) prog" where
  "record_received r ttl = store_call (\<lambda>st. sync_record_received r ttl)"

definition record_event :: "string \<Rightarrow> string \<Rightarrow> string \<Rightarrow> string option \<Rightarrow> (world, unit) prog" where
  "record_event i node state detail = store_call (\<lambda>st. sync_record_event i node state detail)"

definition record_completion ::
  "string \<Rightarrow> string \<Rightarrow> string \<Rightarrow> response option \<Rightarrow> string option \<Rightarrow> (world, unit) prog" where
  "record_completion i node final resp err =
     store_call (\<lambda>st. sync_record_completion i node final resp err)"

definition counts :: "(world, string \<rightharpoonup> int) prog" where
  "counts = andthen (store_query (\<lambda>st d. Inr (sync_count_by_final_state d))) (\<lambda>by_state.
     andthen (store_query (\<lambda>st d. Inr (sync_count_pending d))) (\<lambda>pending.
       ret (by_state(''pending'' \<mapsto> pending))))"

definition mark_node_seen :: "pyval \<Rightarrow> pyval \<Rightarrow> (world, unit) prog" where
  "mark_node_seen node ts = store_call (\<lambda>st now. sync_mark_node_seen st node ts)"

definition get_last_seen :: "pyval \<Rightarrow> (world, pyfloat option) prog" where
  "get_last_seen node = store_query (\<lambda>st. sync_get_last_seen st node)"

definition record_gateway_snapshot :: "pyval \<Rightarrow> pyval \<Rightarrow> pyval \<Rightarrow> (world, unit) prog" where
  "record_gateway_snapshot state detail since =
     store_call (\<lambda>st. sync_record_gateway_snapshot st state detail since)"

definition upsert_node_location ::
  "pyval \<Rightarrow> location_fix \<Rightarrow> string option \<Rightarrow> int option \<Rightarrow> pyfloat option \<Rightarrow> (world, unit) prog" where
  "upsert_node_location node fx source rssi snr =
     store_call (\<lambda>st now. sync_upsert_node_location st node fx source rssi snr)"

definition get_node_location :: "pyval \<Rightarrow> (world, pydict option) prog" where
  "get_node_location node = store_query (\<lambda>st. sync_get_node_location st node)"

definition upsert_node_battery ::
  "pyval \<Rightarrow> pyval \<Rightarrow> pyval \<Rightarrow> pyval \<Rightarrow> string \<Rightarrow> (world, unit) prog" where
  "upsert_node_battery node ts pct voltage source =
     store_call (\<lambda>st now. sync_upsert_node_battery st node ts pct voltage source)"

definition get_node_battery :: "pyval \<Rightarrow> (world, pydict option) prog" where
  "get_node_battery node = store_query (\<lambda>st. sync_get_node_battery st node)"

definition upsert_base_state :: "string \<Rightarrow> pydict \<Rightarrow> (world, unit) prog" where
  "upsert_base_state key val = store_call (\<lambda>st. sync_upsert_base_state key val)"

definition get_base_state :: "string \<Rightarrow> (world, pydict option) prog" where
  "get_base_state key = store_query (\<lambda>st. sync_get_base_state key)"

definition purge_before :: "real \<Rightarrow> (world, int) prog" where
  "purge_before cutoff = store_call (\<lambda>st now. sync_purge_before cutoff)"

section \<open>Publishing (transport/bus.py)\<close>

text \<open>
  \<open>MqttBus.publish\<close>: \<open>RuntimeError\<close> without a connection, otherwise whatever the client
  does: it sends or raises \<open>MqttError\<close>. \<open>w_sent\<close> is what reached the broker, in order.
\<close>

definition bus_publish :: "string \<Rightarrow> pyval \<Rightarrow> bool \<Rightarrow> (world, unit) prog" where
  "bus_publish topic payload retain = (\<lambda>w.
     if \<not> w_connected w then (Inl (PyExn ''RuntimeError''), w)
     else awaiting (\<lambda>w.
       (let t = w_tick w; w1 = w\<lparr>w_tick := Suc t\<rparr>
        in if \<not> h_mqtt_ok (w_host w) t then (Inl (PyExn ''MqttError''), w1)
           else (Inr (), w1\<lparr>w_sent := w_sent w @
             [\<lparr>msg_topic = topic, msg_payload = payload, msg_retain = retain\<rparr>]\<rparr>))) w)"

section \<open>The time limit (timeouts/tracker.py)\<close>

definition inc_in_flight :: "(world, unit) prog" where
  "inc_in_flight = modify (\<lambda>w. w\<lparr>w_in_flight := w_in_flight w + 1\<rparr>)"

definition dec_in_flight :: "(world, unit) prog" where
  "dec_in_flight = modify (\<lambda>w. w\<lparr>w_in_flight := max 0 (w_in_flight w - 1)\<rparr>)"

text \<open>\<open>asyncio.wait_for\<close>: the cancellation it sends comes back as a \<open>TimeoutError\<close>.\<close>

definition wait_for :: "(world, 'a) prog \<Rightarrow> int \<Rightarrow> (world, 'a) prog" where
  "wait_for m ttl = (\<lambda>w.
     case m (w\<lparr>w_tick := Suc (w_tick w), w_budget := h_cut (w_host w) (w_tick w) ttl\<rparr>) of
       (r, w') \<Rightarrow>
         ((case r of Inl e \<Rightarrow> Inl (if e = Cancelled then TimeoutError else e) | Inr x \<Rightarrow> Inr x),
          w'\<lparr>w_budget := None\<rparr>))"

definition run_with_timeout :: "(world, 'a) prog \<Rightarrow> int \<Rightarrow> (world, 'a) prog" where
  "run_with_timeout m ttl =
     andthen inc_in_flight (\<lambda>_. finally_do (wait_for m ttl) dec_in_flight)"

lemmas store_api_defs = record_received_def record_event_def record_completion_def counts_def
  mark_node_seen_def get_last_seen_def record_gateway_snapshot_def upsert_node_location_def
  get_node_location_def upsert_node_battery_def get_node_battery_def upsert_base_state_def
  get_base_state_def purge_before_def

section \<open>Frames\<close>

lemma awaiting_cases:
  obtains (run) "w_budget w = None" "awaiting m w = m w"
  | (cut) "awaiting m w = (Inl Cancelled, w)"
  | (lands) "awaiting m w = (Inl Cancelled, snd (m w))"
  | (count) n where "w_budget w = Some (Suc n)" "awaiting m w = m (w\<lparr>w_budget := Some n\<rparr>)"
proof (cases "w_budget w")
  case None
  then show ?thesis by (intro run) (simp_all add: awaiting_def)
next
  case (Some n)
  show ?thesis
  proof (cases n)
    case 0
    with Some show ?thesis
      by (cases "h_lands (w_host w) (w_tick w)") (auto intro: cut lands simp: awaiting_def)
  next
    case (Suc m')
    with Some show ?thesis by (intro count [of m']) (simp_all add: awaiting_def)
  qed
qed

lemma awaiting_None [simp]: "w_budget w = None \<Longrightarrow> awaiting m w = m w"
  by (simp add: awaiting_def)

lemma store_call_result:
  assumes "store_call f w = (r, w')"
  shows "\<exists>t b d. w' = w\<lparr>w_tick := t, w_budget := b, w_db := d\<rparr> \<and>
     (d = w_db w \<or> (\<exists>st now x. (r = Inr x \<or> r = Inl Cancelled) \<and> f st now (w_db w) = Inr (x, d)))"
proof -
  define m :: "(world, 'a) prog" where "m = (\<lambda>w. (let t = w_tick w; w1 = w\<lparr>w_tick := Suc t\<rparr>
      in if \<not> h_db_ok (w_host w) t then (Inl (PyExn ''OperationalError''), w1)
         else (case f (h_sql_text (w_host w)) (h_clock (w_host w) t) (w_db w) of
             Inl e \<Rightarrow> (Inl e, w1)
           | Inr (x, d) \<Rightarrow> (Inr x, w1\<lparr>w_db := d\<rparr>))))"
  have run: "\<exists>t d. v' = v\<lparr>w_tick := t, w_budget := w_budget v, w_db := d\<rparr> \<and>
     (d = w_db v \<or> (\<exists>st now x. q = Inr x \<and> f st now (w_db v) = Inr (x, d)))"
    if "m v = (q, v')" for v q v'
    using that by (cases v) (auto simp: m_def Let_def split: if_splits sum.splits)
  have eq: "awaiting m w = (r, w')"
    using assms by (simp add: store_call_def m_def)
  show ?thesis
  proof (rule awaiting_cases [where w = w and m = m])
    assume "awaiting m w = m w"
    with eq run [of w r w'] show ?thesis by metis
  next
    assume "awaiting m w = (Inl Cancelled, w)"
    with eq have "w' = w\<lparr>w_tick := w_tick w, w_budget := w_budget w, w_db := w_db w\<rparr>" by simp
    then show ?thesis by blast
  next
    assume "awaiting m w = (Inl Cancelled, snd (m w))"
    with eq have "r = Inl Cancelled" "m w = (fst (m w), w')" by (simp_all add: prod_eq_iff)
    with run [of w "fst (m w)" w'] show ?thesis by metis
  next
    fix n
    assume "awaiting m w = m (w\<lparr>w_budget := Some n\<rparr>)"
    with eq have "m (w\<lparr>w_budget := Some n\<rparr>) = (r, w')" by simp
    from run [OF this] obtain t d where
        w': "w' = w\<lparr>w_budget := Some n\<rparr>\<lparr>w_tick := t, w_budget := w_budget (w\<lparr>w_budget := Some n\<rparr>), w_db := d\<rparr>"
        and d: "d = w_db (w\<lparr>w_budget := Some n\<rparr>) \<or>
          (\<exists>st now x. r = Inr x \<and> f st now (w_db (w\<lparr>w_budget := Some n\<rparr>)) = Inr (x, d))"
      by blast
    have "w' = w\<lparr>w_tick := t, w_budget := Some n, w_db := d\<rparr>" using w' by (cases w) simp
    moreover have "d = w_db w \<or> (\<exists>st now x. r = Inr x \<and> f st now (w_db w) = Inr (x, d))" using d by simp
    ultimately show ?thesis by blast
  qed
qed

lemma evolves_store_call:
  assumes "\<And>w t b. R w (w\<lparr>w_tick := t, w_budget := b\<rparr>)"
    and "\<And>w t b st now x d. f st now (w_db w) = Inr (x, d) \<Longrightarrow>
      R w (w\<lparr>w_tick := t, w_budget := b, w_db := d\<rparr>)"
  shows "evolves R (store_call f)"
proof (rule evolvesI)
  fix w r w'
  assume "store_call f w = (r, w')"
  from store_call_result [OF this] obtain t b d where w': "w' = w\<lparr>w_tick := t, w_budget := b, w_db := d\<rparr>"
      and d: "d = w_db w \<or> (\<exists>st now x. f st now (w_db w) = Inr (x, d))"
    by blast
  have "w\<lparr>w_tick := t, w_budget := b, w_db := w_db w\<rparr> = w\<lparr>w_tick := t, w_budget := b\<rparr>"
    by (cases w) simp
  with w' d assms show "R w w'" by metis
qed

lemma evolves_store_query:
  assumes "\<And>w t b. R w (w\<lparr>w_tick := t, w_budget := b\<rparr>)"
  shows "evolves R (store_query f)"
  unfolding store_query_def
proof (rule evolves_store_call)
  show "R w (w\<lparr>w_tick := t, w_budget := b\<rparr>)" for w :: world and t b by (rule assms)
next
  fix w :: world and t b st now x d
  assume "(case f st (w_db w) of Inl e \<Rightarrow> Inl e | Inr x \<Rightarrow> Inr (x, w_db w)) = Inr (x, d)"
  then have d: "d = w_db w" by (simp split: sum.splits)
  have "w\<lparr>w_tick := t, w_budget := b, w_db := w_db w\<rparr> = w\<lparr>w_tick := t, w_budget := b\<rparr>"
    by (cases w) simp
  with d assms show "R w (w\<lparr>w_tick := t, w_budget := b, w_db := d\<rparr>)" by simp
qed

lemma evolves_time_time:
  assumes "\<And>w t. R w (w\<lparr>w_tick := t\<rparr>)"
  shows "evolves R time_time"
  using assms by (simp add: evolves_def time_time_def)

lemma evolves_modify: "(\<And>w. R w (f w)) \<Longrightarrow> evolves R (modify f)"
  by (simp add: evolves_def)

lemma bus_publish_result:
  assumes "bus_publish topic payload rt w = (r, w')"
  shows "\<exists>t b. w' = w\<lparr>w_tick := t, w_budget := b\<rparr> \<or> ((r = Inr () \<or> r = Inl Cancelled \<and> w_budget w \<noteq> None) \<and>
     w' = w\<lparr>w_tick := t, w_budget := b,
       w_sent := w_sent w @ [\<lparr>msg_topic = topic, msg_payload = payload, msg_retain = rt\<rparr>]\<rparr>)"
  using assms
  by (cases w) (auto simp: bus_publish_def awaiting_def Let_def split: if_splits option.splits)

lemma evolves_bus_publish:
  assumes "\<And>w t b. R w (w\<lparr>w_tick := t, w_budget := b\<rparr>)"
    and "\<And>w t b. R w (w\<lparr>w_tick := t, w_budget := b,
        w_sent := w_sent w @ [\<lparr>msg_topic = topic, msg_payload = payload, msg_retain = rt\<rparr>]\<rparr>)"
  shows "evolves R (bus_publish topic payload rt)"
proof (rule evolvesI)
  fix w r w'
  assume "bus_publish topic payload rt w = (r, w')"
  from bus_publish_result [OF this] assms show "R w w'" by metis
qed

lemma evolves_wait_for:
  assumes "evolves R m" and tr: "\<And>u v w. R u v \<Longrightarrow> R v w \<Longrightarrow> R u w"
    and st: "\<And>w t b. R w (w\<lparr>w_tick := t, w_budget := b\<rparr>)"
  shows "evolves R (wait_for m ttl)"
proof (rule evolvesI)
  fix w r w'
  assume w: "wait_for m ttl w = (r, w')"
  let ?u = "w\<lparr>w_tick := Suc (w_tick w), w_budget := h_cut (w_host w) (w_tick w) ttl\<rparr>"
  obtain r1 v where v: "m ?u = (r1, v)" by (cases "m ?u")
  with w have w': "w' = v\<lparr>w_budget := None\<rparr>" by (simp add: wait_for_def)
  have "v\<lparr>w_budget := None\<rparr> = v\<lparr>w_tick := w_tick v, w_budget := None\<rparr>" by (cases v) simp
  with st have "R v w'" unfolding w' by metis
  moreover have "R ?u v" using assms(1) v by (rule evolvesD)
  ultimately show "R w w'" using st tr by blast
qed

end
