(* ===== verification/StateAgg.thy ===== *)
theory StateAgg
  imports World
begin

text \<open>
  state.py: the aggregator that owns the node and base tables and the retained topics made from
  them. Every \<open>apply_\<close> operation writes the database first and publishes afterwards.

  A node id is a Python value, because the gateway events hand on whatever their payload holds;
  the handlers pass strings. \<open>_last_radio\<close> is a dict keyed by strings, as only string ids are
  ever stored with a reception's metadata.
\<close>

definition ONLINE_THRESHOLD_S :: real where "ONLINE_THRESHOLD_S = 300"

definition compact_json :: "pydict \<Rightarrow> pyval" where
  "compact_json d = VDict (filter (\<lambda>(k, v). \<not> is_none v) d)"

definition radio_of :: "(string \<rightharpoonup> radio_meta) \<Rightarrow> pyval \<Rightarrow> radio_meta option" where
  "radio_of m node = (case node of VStr n \<Rightarrow> m n | _ \<Rightarrow> None)"

definition note_radio ::
  "pyval \<Rightarrow> int option \<Rightarrow> pyfloat option \<Rightarrow> pyval \<Rightarrow> (world, unit) prog" where
  "note_radio node rssi snr ts = modify (\<lambda>w.
     if rssi \<noteq> None \<or> snr \<noteq> None
     then (case node of
         VStr n \<Rightarrow> w\<lparr>w_radio := (w_radio w)(n \<mapsto> \<lparr>m_rssi = rssi, m_snr = snr, m_ts = ts\<rparr>)\<rparr>
       | _ \<Rightarrow> w)
     else w)"

section \<open>Reads\<close>

definition node_state_dict ::
  "pyval \<Rightarrow> pyfloat \<Rightarrow> int \<Rightarrow> real \<Rightarrow> pydict option \<Rightarrow> pydict option \<Rightarrow> radio_meta option \<Rightarrow> pydict" where
  "node_state_dict node last_seen age now loc bat radio =
     [(''id'', node),
      (''last_seen'', VFloat last_seen),
      (''last_seen_age_s'', VInt age),
      (''online'', VBool (flt (fsub (Flt (Fin now)) last_seen) (Flt (Fin ONLINE_THRESHOLD_S)))),
      (''loc_ts'', (case loc of None \<Rightarrow> VNone | Some d \<Rightarrow> dget d ''ts'')),
      (''bat_pct'', (case bat of None \<Rightarrow> VNone | Some d \<Rightarrow> dget d ''pct'')),
      (''rssi'', (case radio of None \<Rightarrow> VNone | Some m \<Rightarrow> of_opt VInt (m_rssi m))),
      (''snr'', (case radio of None \<Rightarrow> VNone | Some m \<Rightarrow> of_opt VFloat (m_snr m)))]"

definition get_node_state :: "pyval \<Rightarrow> (world, pydict option) prog" where
  "get_node_state node =
     andthen (get_last_seen node) (\<lambda>seen.
       case seen of
         None \<Rightarrow> ret None
       | Some last_seen \<Rightarrow>
           andthen (get_node_location node) (\<lambda>loc.
           andthen (get_node_battery node) (\<lambda>bat.
           andthen (gets (\<lambda>w. radio_of (w_radio w) node)) (\<lambda>radio.
           andthen time_time (\<lambda>now.
           andthen (lift (age_s now (VFloat last_seen))) (\<lambda>age.
             ret (Some (node_state_dict node last_seen age now loc bat radio))))))))"

definition get_base_location :: "(world, pydict option) prog" where
  "get_base_location = get_base_state ''location''"

definition republish_state :: "pyval \<Rightarrow> (world, unit) prog" where
  "republish_state node =
     andthen (get_node_state node) (\<lambda>st.
       case st of
         None \<Rightarrow> ret ()
       | Some d \<Rightarrow>
           andthen (gets (\<lambda>w. py_str (h_float_repr (w_host w)) node)) (\<lambda>name.
             bus_publish (node_state_topic name) (compact_json d) True))"

section \<open>Inbound\<close>

definition apply_seen ::
  "pyval \<Rightarrow> pyval \<Rightarrow> int option \<Rightarrow> pyfloat option \<Rightarrow> (world, unit) prog" where
  "apply_seen node ts rssi snr =
     andthen (mark_node_seen node ts) (\<lambda>_.
     andthen (note_radio node rssi snr ts) (\<lambda>_.
       republish_state node))"

definition location_body ::
  "string \<Rightarrow> location_fix \<Rightarrow> string \<Rightarrow> int option \<Rightarrow> pyfloat option \<Rightarrow> pydict" where
  "location_body node fx source rssi snr =
     [(''id'', VStr node), (''lat'', VFloat (f_lat fx)), (''lon'', VFloat (f_lon fx)),
      (''alt'', of_opt VFloat (f_alt fx)), (''acc'', of_opt VFloat (f_acc fx)),
      (''fix'', of_opt VInt (f_fix fx)), (''spd'', of_opt VFloat (f_spd fx)),
      (''hdg'', of_opt VFloat (f_hdg fx)), (''ts'', VFloat (f_ts fx)),
      (''source'', VStr source), (''rssi'', of_opt VInt rssi), (''snr'', of_opt VFloat snr)]"

definition apply_location ::
  "string \<Rightarrow> location_fix \<Rightarrow> string \<Rightarrow> int option \<Rightarrow> pyfloat option \<Rightarrow> (world, unit) prog" where
  "apply_location node fx source rssi snr =
     andthen (upsert_node_location (VStr node) fx (Some source) rssi snr) (\<lambda>_.
     andthen (mark_node_seen (VStr node) (VFloat (f_ts fx))) (\<lambda>_.
     andthen (note_radio (VStr node) rssi snr (VFloat (f_ts fx))) (\<lambda>_.
     andthen (bus_publish (node_location_topic node)
                (compact_json (location_body node fx source rssi snr)) True) (\<lambda>_.
       republish_state (VStr node)))))"

definition battery_body :: "pyval \<Rightarrow> pyval \<Rightarrow> pyval \<Rightarrow> pyval \<Rightarrow> string \<Rightarrow> pydict" where
  "battery_body node ts pct voltage source =
     [(''id'', node), (''pct'', pct), (''v'', voltage), (''ts'', ts), (''source'', VStr source)]"

definition apply_battery :: "pyval \<Rightarrow> pyval \<Rightarrow> pyval \<Rightarrow> pyval \<Rightarrow> string \<Rightarrow> (world, unit) prog" where
  "apply_battery node ts pct voltage source =
     andthen (upsert_node_battery node ts pct voltage source) (\<lambda>_.
     andthen (mark_node_seen node ts) (\<lambda>_.
     andthen (gets (\<lambda>w. py_str (h_float_repr (w_host w)) node)) (\<lambda>name.
     andthen (bus_publish (node_battery_topic name)
                (compact_json (battery_body node ts pct voltage source)) True) (\<lambda>_.
       republish_state node))))"

definition base_body :: "location_fix \<Rightarrow> string \<Rightarrow> pydict" where
  "base_body fx source =
     [(''lat'', VFloat (f_lat fx)), (''lon'', VFloat (f_lon fx)),
      (''alt'', of_opt VFloat (f_alt fx)), (''acc'', of_opt VFloat (f_acc fx)),
      (''fix'', of_opt VInt (f_fix fx)), (''ts'', VFloat (f_ts fx)), (''source'', VStr source)]"

definition apply_base_location :: "location_fix \<Rightarrow> string \<Rightarrow> (world, unit) prog" where
  "apply_base_location fx source =
     andthen (upsert_base_state ''location'' (base_body fx source)) (\<lambda>_.
       bus_publish BASE_LOCATION (compact_json (base_body fx source)) True)"

section \<open>Frames\<close>

text \<open>
  The aggregator never touches the request tables, the gateway cache, the connection or the host,
  keeps the store invariant, and everything it publishes is retained under its own topics.
\<close>

definition outside_aggregator :: "world \<Rightarrow> (request_row list \<times> event_row list) \<times> host \<times> bool \<times> int \<times> gateway_cache" where
  "outside_aggregator w = (request_tables (w_db w), w_host w, w_connected w, w_in_flight w, w_gateway w)"

abbreviation aside :: "(world, 'a) prog \<Rightarrow> bool" where
  "aside m \<equiv> evolves (same outside_aggregator) m"

lemma aside_store_query [evolves_intros]: "aside (store_query f)"
  by (rule evolves_store_query) (simp add: same_def outside_aggregator_def)

lemma aside_store_call:
  "(\<And>st now d x d'. f st now d = Inr (x, d') \<Longrightarrow> request_tables d' = request_tables d) \<Longrightarrow>
     aside (store_call f)"
  by (rule evolves_store_call) (auto simp: same_def outside_aggregator_def)

lemma aside_bus_publish [evolves_intros]: "aside (bus_publish t p r)"
  by (rule evolves_bus_publish) (simp_all add: same_def outside_aggregator_def)

lemma aside_time_time [evolves_intros]: "aside time_time"
  by (rule evolves_time_time) (simp add: same_def outside_aggregator_def)

lemma aside_note_radio [evolves_intros]: "aside (note_radio n r s t)"
  unfolding note_radio_def
  by (rule evolves_modify) (auto simp: same_def outside_aggregator_def split: pyval.split)

lemma aside_store_api [evolves_intros]:
  "aside (mark_node_seen n ts)" "aside (get_last_seen n)"
  "aside (upsert_node_location n fx src r s)" "aside (get_node_location n)"
  "aside (upsert_node_battery n ts p v so)" "aside (get_node_battery n)"
  "aside (upsert_base_state k val)" "aside (get_base_state k)"
  "aside (record_gateway_snapshot gs dt sn)"
  unfolding store_api_defs
  by (auto intro!: evolves_intros aside_store_call dest: request_tables_frames)

lemma aside_get_node_state [evolves_intros]: "aside (get_node_state n)"
  unfolding get_node_state_def by (intro evolves_intros)

lemma aside_republish [evolves_intros]: "aside (republish_state n)"
  unfolding republish_state_def by (intro evolves_intros)

lemma aside_applies [evolves_intros]:
  "aside (apply_seen n ts r s)" "aside (apply_location m fx src r s)"
  "aside (apply_battery n ts p v so)" "aside (apply_base_location fx src)"
  unfolding apply_seen_def apply_location_def apply_battery_def apply_base_location_def
  by (intro evolves_intros)+

end
