(* ===== verification/Geo.thy ===== *)
theory Geo
  imports PyValues
begin

text \<open>
  geo.py: great-circle distance and initial bearing. The formulas are given on real numbers, and on
  Python floats with the exceptions the \<open>math\<close> functions raise: the sine or cosine of an
  infinity, the root of a negative number and the arc sine outside \<open>[-1, 1]\<close> are
  \<open>ValueError\<close>s, and NaN goes through.
\<close>

definition EARTH_RADIUS_M :: real where "EARTH_RADIUS_M = 6371000"

section \<open>The math module\<close>

definition radians :: "real \<Rightarrow> real" where "radians x = x * pi / 180"

definition degrees :: "real \<Rightarrow> real" where "degrees x = x * 180 / pi"

definition atan2 :: "real \<Rightarrow> real \<Rightarrow> real" where
  "atan2 y x =
     (if x > 0 then arctan (y / x)
      else if x < 0 then (if y \<ge> 0 then arctan (y / x) + pi else arctan (y / x) - pi)
      else if y > 0 then pi / 2 else if y < 0 then - (pi / 2) else 0)"

text \<open>\<open>a % b\<close> for a positive \<open>b\<close>.\<close>

definition py_mod :: "real \<Rightarrow> real \<Rightarrow> real" where
  "py_mod a b = a - b * of_int \<lfloor>a / b\<rfloor>"

fun fscale :: "real \<Rightarrow> pyfloat \<Rightarrow> pyfloat" where
  "fscale c NaN = NaN"
| "fscale c (Flt MInf) = Flt (if c > 0 then MInf else PInf)"
| "fscale c (Flt (Fin a)) = Flt (Fin (c * a))"
| "fscale c (Flt PInf) = Flt (if c > 0 then PInf else MInf)"

definition fradians :: "pyfloat \<Rightarrow> pyfloat" where "fradians = fscale (pi / 180)"

fun fmul :: "pyfloat \<Rightarrow> pyfloat \<Rightarrow> pyfloat" where
  "fmul (Flt (Fin a)) (Flt (Fin b)) = Flt (Fin (a * b))"
| "fmul x y = NaN"

text \<open>The products below are of sines and cosines, so no infinity reaches \<open>fmul\<close>.\<close>

fun trig :: "(real \<Rightarrow> real) \<Rightarrow> pyfloat \<Rightarrow> exn + pyfloat" where
  "trig f (Flt (Fin a)) = Inr (Flt (Fin (f a)))"
| "trig f NaN = Inr NaN"
| "trig f (Flt x) = Inl (PyExn ''ValueError'')"

fun fsqrt :: "pyfloat \<Rightarrow> exn + pyfloat" where
  "fsqrt (Flt (Fin a)) = (if 0 \<le> a then Inr (Flt (Fin (sqrt a))) else Inl (PyExn ''ValueError''))"
| "fsqrt (Flt PInf) = Inr (Flt PInf)"
| "fsqrt (Flt MInf) = Inl (PyExn ''ValueError'')"
| "fsqrt NaN = Inr NaN"

fun fasin :: "pyfloat \<Rightarrow> exn + pyfloat" where
  "fasin (Flt (Fin a)) = (if - 1 \<le> a \<and> a \<le> 1 then Inr (Flt (Fin (arcsin a))) else Inl (PyExn ''ValueError''))"
| "fasin NaN = Inr NaN"
| "fasin (Flt x) = Inl (PyExn ''ValueError'')"

fun fatan2 :: "pyfloat \<Rightarrow> pyfloat \<Rightarrow> pyfloat" where
  "fatan2 (Flt (Fin y)) (Flt (Fin x)) = Flt (Fin (atan2 y x))"
| "fatan2 y x = NaN"

fun fmod360 :: "pyfloat \<Rightarrow> pyfloat" where
  "fmod360 (Flt (Fin a)) = Flt (Fin (py_mod a 360))"
| "fmod360 x = NaN"

section \<open>The functions of geo.py\<close>

definition haversine_m :: "pyfloat \<Rightarrow> pyfloat \<Rightarrow> pyfloat \<Rightarrow> pyfloat \<Rightarrow> exn + pyfloat" where
  "haversine_m lat1 lon1 lat2 lon2 =
     (let p1 = fradians lat1; p2 = fradians lat2;
          dlat = fradians (fsub lat2 lat1); dlon = fradians (fsub lon2 lon1)
      in ebind (trig sin (fscale (1 / 2) dlat)) (\<lambda>s1.
         ebind (trig cos p1) (\<lambda>c1. ebind (trig cos p2) (\<lambda>c2.
         ebind (trig sin (fscale (1 / 2) dlon)) (\<lambda>s2.
         ebind (fsqrt (fadd (fmul s1 s1) (fmul (fmul c1 c2) (fmul s2 s2)))) (\<lambda>r.
         ebind (fasin r) (\<lambda>t. Inr (fscale (2 * EARTH_RADIUS_M) t))))))))"

definition initial_bearing_deg :: "pyfloat \<Rightarrow> pyfloat \<Rightarrow> pyfloat \<Rightarrow> pyfloat \<Rightarrow> exn + pyfloat" where
  "initial_bearing_deg lat1 lon1 lat2 lon2 =
     (let p1 = fradians lat1; p2 = fradians lat2; dlon = fradians (fsub lon2 lon1)
      in ebind (trig sin dlon) (\<lambda>sd. ebind (trig cos p2) (\<lambda>c2.
         ebind (trig cos p1) (\<lambda>c1. ebind (trig sin p2) (\<lambda>s2.
         ebind (trig sin p1) (\<lambda>s1. ebind (trig cos dlon) (\<lambda>cd.
           (let y = fmul sd c2; x = fsub (fmul c1 s2) (fmul (fmul s1 c2) cd)
            in Inr (fmod360 (fadd (fscale (180 / pi) (fatan2 y x)) (Flt (Fin 360))))))))))))"

section \<open>On finite coordinates\<close>

definition hav_arg :: "real \<Rightarrow> real \<Rightarrow> real \<Rightarrow> real \<Rightarrow> real" where
  "hav_arg lat1 lon1 lat2 lon2 =
     (sin (radians (lat2 - lat1) / 2))\<^sup>2
     + cos (radians lat1) * cos (radians lat2) * (sin (radians (lon2 - lon1) / 2))\<^sup>2"

definition haversine :: "real \<Rightarrow> real \<Rightarrow> real \<Rightarrow> real \<Rightarrow> real" where
  "haversine lat1 lon1 lat2 lon2 = 2 * EARTH_RADIUS_M * arcsin (sqrt (hav_arg lat1 lon1 lat2 lon2))"

definition bearing_y :: "real \<Rightarrow> real \<Rightarrow> real \<Rightarrow> real \<Rightarrow> real" where
  "bearing_y lat1 lon1 lat2 lon2 = sin (radians (lon2 - lon1)) * cos (radians lat2)"

definition bearing_x :: "real \<Rightarrow> real \<Rightarrow> real \<Rightarrow> real \<Rightarrow> real" where
  "bearing_x lat1 lon1 lat2 lon2 = cos (radians lat1) * sin (radians lat2)
     - sin (radians lat1) * cos (radians lat2) * cos (radians (lon2 - lon1))"

definition bearing :: "real \<Rightarrow> real \<Rightarrow> real \<Rightarrow> real \<Rightarrow> real" where
  "bearing lat1 lon1 lat2 lon2 =
     py_mod (degrees (atan2 (bearing_y lat1 lon1 lat2 lon2) (bearing_x lat1 lon1 lat2 lon2)) + 360) 360"

text \<open>
  The argument of the root lies in the unit interval for all coordinates, not only for those in
  range: it is half of one minus the cosine of the central angle.
\<close>

lemma hav_arg_cos:
  "hav_arg a b c d = (1 - (sin (radians a) * sin (radians c)
     + cos (radians a) * cos (radians c) * cos (radians (d - b)))) / 2"
proof -
  have half: "(sin (x / 2))\<^sup>2 = (1 - cos x) / 2" for x :: real
    using cos_double_sin [of "x / 2"] by simp
  have diff: "cos (radians (c - a)) = cos (radians c) * cos (radians a) + sin (radians c) * sin (radians a)"
  proof -
    have "radians (c - a) = radians c - radians a"
      by (simp add: radians_def left_diff_distrib diff_divide_distrib)
    then show ?thesis by (simp add: cos_diff)
  qed
  have alg: "(1 - (C * A + S * T)) / 2 + A * C * ((1 - D) / 2) = (1 - (T * S + A * C * D)) / 2"
    for A C D S T :: real by (simp add: field_simps)
  show ?thesis
    unfolding hav_arg_def half diff by (rule alg)
qed

lemma cos_central_bound: "\<bar>sin a * sin b + cos a * cos b * t\<bar> \<le> 1" if "\<bar>t\<bar> \<le> 1" for a b t :: real
proof -
  have s: "(sin a)\<^sup>2 + (cos a)\<^sup>2 = 1" "(sin b)\<^sup>2 + (cos b)\<^sup>2 = 1" by simp_all
  have amgm: "x * y \<le> (x\<^sup>2 + y\<^sup>2) / 2" for x y :: real
    using sum_squares_bound [of x y] by simp
  have "\<bar>sin a * sin b + cos a * cos b * t\<bar> \<le> \<bar>sin a\<bar> * \<bar>sin b\<bar> + \<bar>cos a\<bar> * \<bar>cos b\<bar> * \<bar>t\<bar>"
    by (metis abs_mult abs_triangle_ineq)
  also have "\<dots> \<le> \<bar>sin a\<bar> * \<bar>sin b\<bar> + \<bar>cos a\<bar> * \<bar>cos b\<bar>"
    using that by (simp add: mult_left_le)
  also have "\<dots> \<le> (\<bar>sin a\<bar>\<^sup>2 + \<bar>sin b\<bar>\<^sup>2) / 2 + (\<bar>cos a\<bar>\<^sup>2 + \<bar>cos b\<bar>\<^sup>2) / 2"
    by (rule add_mono [OF amgm amgm])
  also have "\<dots> = (((sin a)\<^sup>2 + (cos a)\<^sup>2) + ((sin b)\<^sup>2 + (cos b)\<^sup>2)) / 2"
    by (simp only: power2_abs add_divide_distrib [symmetric]) (simp only: ac_simps)
  also have "\<dots> = 1" using s by simp
  finally show ?thesis .
qed

lemma hav_arg_range: "0 \<le> hav_arg a b c d \<and> hav_arg a b c d \<le> 1"
  using cos_central_bound [of "cos (radians (d - b))" "radians a" "radians c"]
  by (simp add: hav_arg_cos abs_le_iff)

lemma haversine_range: "0 \<le> haversine a b c d \<and> haversine a b c d \<le> pi * EARTH_RADIUS_M"
proof -
  let ?r = "sqrt (hav_arg a b c d)"
  have r: "0 \<le> ?r" "?r \<le> 1" using hav_arg_range [of a b c d] by simp_all
  have "0 \<le> arcsin ?r" using r arcsin_le_arcsin [of 0 ?r] by simp
  moreover have "arcsin ?r \<le> pi / 2" using r by (intro arcsin_ubound) linarith+
  ultimately show ?thesis by (simp add: haversine_def EARTH_RADIUS_M_def)
qed

lemma cos_radians_diff: "cos (radians (x - y)) = cos (radians (y - x))"
proof -
  have "radians (x - y) = - radians (y - x)"
    by (simp add: radians_def left_diff_distrib diff_divide_distrib)
  then show ?thesis by simp
qed

lemma hav_arg_sym: "hav_arg a b c d = hav_arg c d a b"
  unfolding hav_arg_cos cos_radians_diff [of d b]
  by (simp only: mult.commute [of "sin (radians c)"] mult.commute [of "cos (radians c)"])

lemma haversine_sym: "haversine a b c d = haversine c d a b"
  unfolding haversine_def by (subst hav_arg_sym) (rule refl)

lemma haversine_same: "haversine a b a b = 0"
  by (simp add: haversine_def hav_arg_def radians_def)

lemma haversine_m_Fin:
  "haversine_m (Flt (Fin a)) (Flt (Fin b)) (Flt (Fin c)) (Flt (Fin d)) = Inr (Flt (Fin (haversine a b c d)))"
proof -
  have h: "hav_arg a b c d = sin (pi * (c - a) / 360) * sin (pi * (c - a) / 360) +
      cos (pi * a / 180) * cos (pi * c / 180) * (sin (pi * (d - b) / 360) * sin (pi * (d - b) / 360))"
    by (simp add: hav_arg_def radians_def power2_eq_square mult.commute)
  have sq: "- 1 \<le> sqrt (hav_arg a b c d)" "sqrt (hav_arg a b c d) \<le> 1" "0 \<le> hav_arg a b c d"
    using hav_arg_range [of a b c d] by (auto intro: order_trans [of _ 0])
  then show ?thesis
    by (simp add: haversine_m_def fradians_def h [symmetric] haversine_def)
qed

lemma initial_bearing_deg_Fin:
  "initial_bearing_deg (Flt (Fin a)) (Flt (Fin b)) (Flt (Fin c)) (Flt (Fin d)) = Inr (Flt (Fin (bearing a b c d)))"
  by (simp add: initial_bearing_deg_def fradians_def bearing_def bearing_y_def bearing_x_def
      radians_def degrees_def mult.commute mult.left_commute)

lemma py_mod_range:
  assumes b: "0 < b"
  shows "0 \<le> py_mod a b \<and> py_mod a b < b"
proof -
  have "of_int \<lfloor>a / b\<rfloor> \<le> a / b" "a / b < of_int \<lfloor>a / b\<rfloor> + 1" by linarith+
  with b have "of_int \<lfloor>a / b\<rfloor> * b \<le> a" "a < (of_int \<lfloor>a / b\<rfloor> + 1) * b"
    by (simp_all only: pos_le_divide_eq pos_divide_less_eq)
  then show ?thesis by (simp add: py_mod_def algebra_simps)
qed

lemma bearing_range: "0 \<le> bearing a b c d \<and> bearing a b c d < 360"
  unfolding bearing_def by (rule py_mod_range) simp

lemma py_mod_shift: "0 \<le> a \<Longrightarrow> a < b \<Longrightarrow> 0 < b \<Longrightarrow> py_mod a b = a"
  by (simp add: py_mod_def floor_eq_iff)

section \<open>Setting out on the bearing\<close>

text \<open>
  Who leaves the point \<open>(lat1, lon1)\<close> on the heading \<open>b\<close> (degrees, clockwise from north) along a great
  circle and goes through the angle \<open>t\<close> at the centre of the earth, arrives at \<open>(lat2, lon2)\<close>: the three
  coordinates of the arrival, in the frame whose axes point from the centre to the pole, to the
  meridian of the start and a quarter turn east of it.
\<close>

definition arrives :: "real \<Rightarrow> real \<Rightarrow> real \<Rightarrow> real \<Rightarrow> real \<Rightarrow> real \<Rightarrow> bool" where
  "arrives lat1 lon1 b t lat2 lon2 \<longleftrightarrow>
     sin (radians lat2) = sin (radians lat1) * cos t + cos (radians lat1) * sin t * cos (radians b) \<and>
     cos (radians lat2) * cos (radians (lon2 - lon1)) =
       cos (radians lat1) * cos t - sin (radians lat1) * sin t * cos (radians b) \<and>
     cos (radians lat2) * sin (radians (lon2 - lon1)) = sin t * sin (radians b)"

lemma atan2_polar:
  "sqrt (x\<^sup>2 + y\<^sup>2) * cos (atan2 y x) = x" "sqrt (x\<^sup>2 + y\<^sup>2) * sin (atan2 y x) = y"
proof -
  have r: "sqrt (x\<^sup>2 + y\<^sup>2) = \<bar>x\<bar> * sqrt (1 + (y / x)\<^sup>2)" if "x \<noteq> 0"
  proof -
    have "x\<^sup>2 + y\<^sup>2 = x\<^sup>2 * (1 + (y / x)\<^sup>2)" using that by (simp add: field_simps power_divide)
    then show ?thesis by (simp only: real_sqrt_mult real_sqrt_abs)
  qed
  have pos: "sqrt (1 + (y / x)\<^sup>2) \<noteq> 0"
    by (metis cos_arctan cos_arctan_not_zero divide_eq_0_iff)
  consider "x > 0" | "x < 0" | "x = 0" by linarith
  then show "sqrt (x\<^sup>2 + y\<^sup>2) * cos (atan2 y x) = x" "sqrt (x\<^sup>2 + y\<^sup>2) * sin (atan2 y x) = y"
    by (cases; use pos in \<open>simp add: atan2_def r cos_arctan sin_arctan cos_diff sin_diff\<close>)+
qed

lemma radians_mod:
  "cos (radians (py_mod (degrees t + 360) 360)) = cos t" "sin (radians (py_mod (degrees t + 360) 360)) = sin t"
proof -
  let ?k = "\<lfloor>(degrees t + 360) / 360\<rfloor>"
  have e: "radians (py_mod (degrees t + 360) 360) = t + of_int (1 - ?k) * (2 * pi)"
    by (simp add: radians_def degrees_def py_mod_def field_simps)
  have c: "cos (of_int n * (2 * pi)) = 1" "sin (of_int n * (2 * pi)) = 0" for n
    using cos_int_2pin [of n] sin_int_2pin [of n] by (simp_all add: mult.commute mult.left_commute)
  show "cos (radians (py_mod (degrees t + 360) 360)) = cos t"
    "sin (radians (py_mod (degrees t + 360) 360)) = sin t"
    unfolding e cos_add sin_add c by simp_all
qed

lemma haversine_angle:
  obtains t where "haversine a b c d = EARTH_RADIUS_M * t" "0 \<le> t" "t \<le> pi"
    "cos t = sin (radians a) * sin (radians c) + cos (radians a) * cos (radians c) * cos (radians (d - b))"
proof
  let ?r = "sqrt (hav_arg a b c d)"
  have r: "0 \<le> ?r" "?r \<le> 1" using hav_arg_range [of a b c d] by simp_all
  show "haversine a b c d = EARTH_RADIUS_M * (2 * arcsin ?r)" by (simp add: haversine_def)
  show "0 \<le> 2 * arcsin ?r" using r arcsin_le_arcsin [of 0 ?r] by simp
  have "arcsin ?r \<le> pi / 2" using r by (intro arcsin_ubound) linarith+
  then show "2 * arcsin ?r \<le> pi" by simp
  have "sin (arcsin ?r) = ?r" using r by (intro sin_arcsin) linarith+
  then have "cos (2 * arcsin ?r) = 1 - 2 * ?r\<^sup>2" by (simp add: cos_double_sin)
  also have "?r\<^sup>2 = hav_arg a b c d" using hav_arg_range [of a b c d] by simp
  finally show "cos (2 * arcsin ?r) =
      sin (radians a) * sin (radians c) + cos (radians a) * cos (radians c) * cos (radians (d - b))"
    by (simp add: hav_arg_cos field_simps)
qed

lemma bearing_arrives:
  obtains t where "haversine lat1 lon1 lat2 lon2 = EARTH_RADIUS_M * t" "0 \<le> t" "t \<le> pi"
    "arrives lat1 lon1 (bearing lat1 lon1 lat2 lon2) t lat2 lon2"
proof -
  obtain t where t: "haversine lat1 lon1 lat2 lon2 = EARTH_RADIUS_M * t" "0 \<le> t" "t \<le> pi"
      "cos t = sin (radians lat1) * sin (radians lat2)
        + cos (radians lat1) * cos (radians lat2) * cos (radians (lon2 - lon1))"
    by (rule haversine_angle)
  let ?x = "bearing_x lat1 lon1 lat2 lon2" and ?y = "bearing_y lat1 lon1 lat2 lon2"
  have unit: "(c1 * s2 - s1 * c2 * cd)\<^sup>2 + (sd * c2)\<^sup>2 = 1 - (s1 * s2 + c1 * c2 * cd)\<^sup>2"
    if "s1\<^sup>2 + c1\<^sup>2 = 1" "s2\<^sup>2 + c2\<^sup>2 = 1" "sd\<^sup>2 + cd\<^sup>2 = 1" for s1 c1 s2 c2 sd cd :: real
  proof -
    have "(c1 * s2 - s1 * c2 * cd)\<^sup>2 + (s1 * s2 + c1 * c2 * cd)\<^sup>2 + (sd * c2)\<^sup>2 =
        (s1\<^sup>2 + c1\<^sup>2) * s2\<^sup>2 + (s1\<^sup>2 + c1\<^sup>2) * c2\<^sup>2 * cd\<^sup>2 + c2\<^sup>2 * sd\<^sup>2"
      by (simp add: power2_eq_square algebra_simps)
    also have "\<dots> = s2\<^sup>2 + c2\<^sup>2 * (sd\<^sup>2 + cd\<^sup>2)" using that(1) by (simp add: algebra_simps)
    also have "\<dots> = 1" using that(2,3) by simp
    finally show ?thesis by simp
  qed
  have "?x\<^sup>2 + ?y\<^sup>2 = 1 - (cos t)\<^sup>2"
    unfolding bearing_x_def bearing_y_def t(4) by (rule unit) simp_all
  also have "\<dots> = (sin t)\<^sup>2" by (simp add: sin_squared_eq)
  finally have "sqrt (?x\<^sup>2 + ?y\<^sup>2) = sin t" using sin_ge_zero [OF t(2,3)] by simp
  with atan2_polar [of ?x ?y] have xy: "sin t * cos (radians (bearing lat1 lon1 lat2 lon2)) = ?x"
      "sin t * sin (radians (bearing lat1 lon1 lat2 lon2)) = ?y"
    by (simp_all add: bearing_def radians_mod)
  have one: "s1 * (s1 * s2 + c1 * c2 * cd) + c1 * (c1 * s2 - s1 * c2 * cd) = s2"
      "c1 * (s1 * s2 + c1 * c2 * cd) - s1 * (c1 * s2 - s1 * c2 * cd) = c2 * cd"
    if "s1\<^sup>2 + c1\<^sup>2 = 1" for s1 c1 s2 c2 cd :: real
  proof -
    have "s1 * (s1 * s2 + c1 * c2 * cd) + c1 * (c1 * s2 - s1 * c2 * cd) = (s1\<^sup>2 + c1\<^sup>2) * s2"
      "c1 * (s1 * s2 + c1 * c2 * cd) - s1 * (c1 * s2 - s1 * c2 * cd) = (s1\<^sup>2 + c1\<^sup>2) * (c2 * cd)"
      by (simp_all add: power2_eq_square algebra_simps)
    with that show "s1 * (s1 * s2 + c1 * c2 * cd) + c1 * (c1 * s2 - s1 * c2 * cd) = s2"
      "c1 * (s1 * s2 + c1 * c2 * cd) - s1 * (c1 * s2 - s1 * c2 * cd) = c2 * cd" by simp_all
  qed
  have x: "cos (radians lat1) * sin t * cos (radians (bearing lat1 lon1 lat2 lon2)) = cos (radians lat1) * ?x"
      "sin (radians lat1) * sin t * cos (radians (bearing lat1 lon1 lat2 lon2)) = sin (radians lat1) * ?x"
    by (simp_all only: mult.assoc xy)
  note o = one [of "sin (radians lat1)" "cos (radians lat1)" "sin (radians lat2)" "cos (radians lat2)"
      "cos (radians (lon2 - lon1))", OF sin_cos_squared_add]
  have "arrives lat1 lon1 (bearing lat1 lon1 lat2 lon2) t lat2 lon2"
    unfolding arrives_def x xy(2) t(4) bearing_x_def o
    by (simp add: bearing_y_def)
  with t(1-3) show ?thesis by (rule that)
qed

text \<open>
  From a point on the equator a point on the 45th parallel, a quarter of a degree further west, lies
  less than half a degree west of north.
\<close>

lemma bearing_near_north: "359 + 1 / 2 < bearing 0 0 45 (- (1 / 4)) \<and> bearing 0 0 45 (- (1 / 4)) < 360"
proof -
  define q where "q = pi / 720"
  have q: "0 < q" "q < pi / 2" "2 * q < pi / 2" using pi_gt_zero by (simp_all add: q_def)
  have c: "cos (radians 45) = sin (radians 45)" "0 < sin (radians 45)" "sin (radians 45) \<noteq> 0"
    by (simp_all add: radians_def sin_45 cos_45 mult.commute)
  have "radians (- (1 / 4) - 0) = - q" by (simp add: radians_def q_def)
  then have "bearing_y 0 0 45 (- (1 / 4)) = - sin q * sin (radians 45)"
      "bearing_x 0 0 45 (- (1 / 4)) = sin (radians 45)"
    by (simp_all only: bearing_y_def bearing_x_def c) (simp_all add: radians_def)
  with c have t: "atan2 (bearing_y 0 0 45 (- (1 / 4))) (bearing_x 0 0 45 (- (1 / 4))) = - arctan (sin q)"
    by (simp add: atan2_def arctan_minus)
  have s: "0 < sin q" using q by (intro sin_gt_zero) linarith+
  have "sin q < tan (2 * q)"
  proof -
    have less: "sin q < sin (2 * q)" using q by (intro sin_monotone_2pi) linarith+
    have c: "0 < cos (2 * q)" using q by (simp add: cos_gt_zero)
    have "sin q * cos (2 * q) \<le> sin q" using s by (simp add: mult_left_le)
    with less have "sin q * cos (2 * q) < sin (2 * q)" by linarith
    with c show ?thesis by (simp add: tan_def pos_less_divide_eq)
  qed
  then have "arctan (sin q) < 2 * q"
    using arctan_monotone [of "sin q" "tan (2 * q)"] arctan_tan [of "2 * q"] q by simp
  moreover have "0 < arctan (sin q)" using s by simp
  ultimately have d: "- (1 / 2) < degrees (- arctan (sin q))" "degrees (- arctan (sin q)) < 0"
    by (simp_all add: degrees_def q_def field_simps)
  then have "py_mod (degrees (- arctan (sin q)) + 360) 360 = degrees (- arctan (sin q)) + 360"
    by (intro py_mod_shift) linarith+
  with d show ?thesis by (simp add: bearing_def t)
qed

end
