(* ===== verification/Router.thy ===== *)
theory Router
  imports PyValues "HOL-Library.List_Lexorder" "HOL-Library.Char_ord"
begin

text \<open>
  router.py: the dict from request types to handlers, in registration order. The handlers are a
  type parameter; the service instantiates it with the handlers of handlers/.
\<close>

type_synonym 'h router = "(string \<times> 'h) list"

definition register :: "'h router \<Rightarrow> string \<times> 'h \<Rightarrow> exn + 'h router" where
  "register d h =
     (if map_of d (fst h) \<noteq> None then Inl (PyExn ''ValueError'') else Inr (d @ [h]))"

fun register_all :: "'h router \<Rightarrow> (string \<times> 'h) list \<Rightarrow> exn + 'h router" where
  "register_all d [] = Inr d"
| "register_all d (h # hs) = ebind (register d h) (\<lambda>d'. register_all d' hs)"

definition make_router :: "(string \<times> 'h) list \<Rightarrow> exn + 'h router" where
  "make_router hs = register_all [] hs"

definition resolve :: "'h router \<Rightarrow> string \<Rightarrow> 'h option" where
  "resolve d t = map_of d t"

definition types :: "'h router \<Rightarrow> string list" where
  "types d = sort (map fst d)"

lemma register_all_iff:
  "register_all d hs = Inr d' \<longleftrightarrow>
     d' = d @ hs \<and> distinct (map fst hs) \<and> set (map fst hs) \<inter> set (map fst d) = {}"
proof (induction hs arbitrary: d)
  case Nil
  then show ?case by auto
next
  case (Cons h hs)
  show ?case
  proof (cases "fst h \<in> set (map fst d)")
    case True
    then show ?thesis by (auto simp: register_def map_of_eq_None_iff)
  next
    case False
    then have "register d h = Inr (d @ [h])"
      by (simp add: register_def map_of_eq_None_iff)
    with False Cons.IH [of "d @ [h]"] show ?thesis by auto
  qed
qed

lemma register_all_fails: "(\<nexists>d'. register_all d hs = Inr d') \<Longrightarrow> register_all d hs = Inl (PyExn ''ValueError'')"
  by (induction hs arbitrary: d) (auto simp: register_def ebind_def split: if_splits sum.splits)

text \<open>
  Building a router succeeds exactly when no type is registered twice, and then every handler is
  found under its own type and nothing else is.
\<close>

lemma make_router_iff: "make_router hs = Inr d \<longleftrightarrow> d = hs \<and> distinct (map fst hs)"
  by (auto simp: make_router_def register_all_iff)

lemma make_router_duplicate:
  "\<not> distinct (map fst hs) \<Longrightarrow> make_router hs = Inl (PyExn ''ValueError'')"
  unfolding make_router_def by (rule register_all_fails) (simp add: register_all_iff)

lemma resolve_make_router:
  "make_router hs = Inr d \<Longrightarrow> resolve d t = Some h \<longleftrightarrow> (t, h) \<in> set hs"
  by (auto simp: make_router_iff resolve_def)

lemma types_sorted: "sorted (types d) \<and> set (types d) = fst ` set d"
  by (simp add: types_def)

end
