(* ===== verification/Calendar.thy ===== *)
theory Calendar
  imports PyValues
begin

text \<open>
  The part of the \<open>datetime\<close> module the source uses: the UTC civil time of a POSIX time stamp and
  its ISO-8601 text. A time stamp is rounded to microseconds first, ties to even, as
  \<open>datetime.fromtimestamp\<close> does.
\<close>

text \<open>
  Day number (0 is 1970-01-01) to year, month and day of the Gregorian calendar. Years are counted
  from March inside a 400-year era, so that the leap day is the last day of a year.
\<close>

definition civil_from_days :: "int \<Rightarrow> int \<times> int \<times> int" where
  "civil_from_days z0 =
     (let z = z0 + 719468;
          era = z div 146097;
          doe = z mod 146097;
          yoe = (doe - doe div 1460 + doe div 36524 - doe div 146096) div 365;
          doy = doe - (365 * yoe + yoe div 4 - yoe div 100);
          mp = (5 * doy + 2) div 153;
          d = doy - (153 * mp + 2) div 5 + 1;
          m = (if mp < 10 then mp + 3 else mp - 9)
      in (yoe + era * 400 + (if m \<le> 2 then 1 else 0), m, d))"

record datetime =
  dt_year :: int
  dt_month :: int
  dt_day :: int
  dt_hour :: int
  dt_minute :: int
  dt_second :: int
  dt_micro :: int

definition civil_time :: "int \<Rightarrow> datetime" where
  "civil_time us =
     (let secs = us div 1000000; days = secs div 86400; sod = secs mod 86400
      in case civil_from_days days of (y, m, d) \<Rightarrow>
        \<lparr>dt_year = y, dt_month = m, dt_day = d, dt_hour = sod div 3600,
         dt_minute = sod mod 3600 div 60, dt_second = sod mod 60, dt_micro = us mod 1000000\<rparr>)"

text \<open>From the first instant of year 1 to the last of year 9999, in microseconds.\<close>

definition datetime_ok :: "int \<Rightarrow> bool" where
  "datetime_ok us \<longleftrightarrow> - 62135596800000000 \<le> us \<and> us < 253402300800000000"

definition fromtimestamp :: "real \<Rightarrow> exn + datetime" where
  "fromtimestamp t = (let us = round_even (t * 1000000) in
     if datetime_ok us then Inr (civil_time us) else Inl (PyExn ''ValueError''))"

definition pad :: "nat \<Rightarrow> int \<Rightarrow> string" where
  "pad n x = (let s = str_int x in replicate (n - length s) (CHR ''0'') @ s)"

text \<open>\<open>%Y\<close> of the C library of Linux writes a year before 1000 with fewer digits.\<close>

definition date_text :: "datetime \<Rightarrow> string" where
  "date_text t = str_int (dt_year t) @ ''-'' @ pad 2 (dt_month t) @ ''-'' @ pad 2 (dt_day t)"

definition clock_text :: "datetime \<Rightarrow> string" where
  "clock_text t = pad 2 (dt_hour t) @ '':'' @ pad 2 (dt_minute t) @ '':'' @ pad 2 (dt_second t)"

text \<open>\<open>isoformat(timespec="seconds").replace("+00:00", "Z")\<close> of a UTC datetime.\<close>

definition iso_seconds :: "datetime \<Rightarrow> string" where
  "iso_seconds t = date_text t @ ''T'' @ clock_text t @ ''Z''"

lemma civil_from_days_epoch: "civil_from_days 0 = (1970, 1, 1)"
  by code_simp

lemma datetime_range:
  "civil_from_days (- 62135596800 div 86400) = (1, 1, 1)"
  "civil_from_days (253402300799 div 86400) = (9999, 12, 31)"
  by code_simp+

end
