(* ===== verification/Handlers.thy ===== *)
theory Handlers
  imports StateAgg Geo Router Calendar
begin

text \<open>
  handlers/: one program per request type, as the source has them, and the table of default
  handlers. The \<open>HandlerContext\<close> (store, gateway snapshot, aggregator) is the world.
\<close>

type_synonym handler = "request \<Rightarrow> (world, response) prog"

text \<open>
  \<open>target = request.args.get("node")\<close>, defaulting to the requester when it is no string or
  empty; three handlers start with these lines.
\<close>

definition target_node :: "request \<Rightarrow> string" where
  "target_node r = (case dget (q_args r) ''node'' of
      VStr s \<Rightarrow> if s = [] then q_from r else s
    | _ \<Rightarrow> q_from r)"

section \<open>ping, echo, time.now\<close>

definition handle_ping :: handler where
  "handle_ping r = (case dget (q_args r) ''echo'' of
      VStr s \<Rightarrow> if s \<noteq> [] then ret (response_ok r [(''msg'', VStr ''pong''), (''echo'', VStr (take 64 s))])
               else ret (response_ok r [(''msg'', VStr ''pong'')])
    | _ \<Rightarrow> ret (response_ok r [(''msg'', VStr ''pong'')]))"

definition handle_echo :: handler where
  "handle_echo r =
     (let msg = (case dget (q_args r) ''msg'' of VStr s \<Rightarrow> s | _ \<Rightarrow> [])
      in ret (response_ok r [(''msg'', VStr (take 180 msg))]))"

definition handle_time_now :: handler where
  "handle_time_now r =
     andthen time_time (\<lambda>now.
     andthen (lift (fromtimestamp now)) (\<lambda>dt.
       ret (response_ok r [(''ts'', fin_ts now), (''iso'', VStr (iso_seconds dt))])))"

section \<open>gateway.status\<close>

text \<open>\<open>MqttBus.get_gateway_snapshot\<close>\<close>

definition get_gateway_snapshot :: "(world, gateway_cache) prog" where
  "get_gateway_snapshot = gets w_gateway"

definition count_get :: "(string \<rightharpoonup> int) \<Rightarrow> string \<Rightarrow> int" where
  "count_get m k = (case m k of None \<Rightarrow> 0 | Some n \<Rightarrow> n)"

definition snap_age :: "gateway_cache \<Rightarrow> (world, pyval) prog" where
  "snap_age snap = (case c_snapped_at snap of
      None \<Rightarrow> ret VNone
    | Some t \<Rightarrow> andthen time_time (\<lambda>now. andthen (lift (age_s now (fin_ts t))) (\<lambda>a. ret (VInt a))))"

definition gateway_body :: "gateway_cache \<Rightarrow> pyval \<Rightarrow> (string \<rightharpoonup> int) \<Rightarrow> pydict" where
  "gateway_body snap age cs =
     [(''state'', py_or (c_state snap) (VStr ''unknown'')),
      (''detail'', c_detail snap), (''since'', c_since snap), (''snap_age_s'', age),
      (''pending'', VInt (count_get cs ''pending'')),
      (''ok'', VInt (count_get cs COMPLETED_OK)),
      (''err'', VInt (count_get cs COMPLETED_ERROR)),
      (''to'', VInt (count_get cs TIMEOUT))]"

definition handle_gateway_status :: handler where
  "handle_gateway_status r =
     andthen get_gateway_snapshot (\<lambda>snap.
     andthen counts (\<lambda>cs.
     andthen (snap_age snap) (\<lambda>age.
       ret (response_ok r (gateway_body snap age cs)))))"

section \<open>node.last_seen, node.location, node.status\<close>

definition handle_node_last_seen :: handler where
  "handle_node_last_seen r =
     (let target = target_node r
      in andthen (get_last_seen (VStr target)) (\<lambda>seen.
         case seen of
           None \<Rightarrow> ret (response_ok r [(''node'', VStr target), (''ts'', VNone), (''age_s'', VNone)])
         | Some ts \<Rightarrow>
             andthen time_time (\<lambda>now.
             andthen (lift (age_s now (VFloat ts))) (\<lambda>age.
               ret (response_ok r [(''node'', VStr target), (''ts'', VFloat ts), (''age_s'', VInt age)])))))"

definition handle_node_location :: handler where
  "handle_node_location r =
     (let target = target_node r
      in andthen (get_node_location (VStr target)) (\<lambda>found.
         case found of
           None \<Rightarrow> raise (RpcError UNAVAILABLE (''No location for '' @ target))
         | Some loc \<Rightarrow>
             andthen time_time (\<lambda>now.
             andthen (lift (ebind (dat loc ''ts'') (age_s now))) (\<lambda>age.
             andthen (lift (dat loc ''lat'')) (\<lambda>lat.
             andthen (lift (dat loc ''lon'')) (\<lambda>lon.
             andthen (lift (dat loc ''ts'')) (\<lambda>ts.
               ret (response_ok r [(''node'', VStr target), (''lat'', lat), (''lon'', lon),
                 (''ts'', ts), (''age_s'', VInt age)]))))))))"

definition handle_node_status :: handler where
  "handle_node_status r =
     (let target = target_node r
      in andthen (get_node_state (VStr target)) (\<lambda>found.
         case found of
           None \<Rightarrow> raise (RpcError UNAVAILABLE (''No state for '' @ target))
         | Some st \<Rightarrow>
             andthen (lift (dat st ''id'')) (\<lambda>i.
             andthen (lift (dat st ''online'')) (\<lambda>online.
             andthen (lift (dat st ''last_seen_age_s'')) (\<lambda>age.
               ret (response_ok r ([(''id'', i), (''online'', online), (''last_seen_age_s'', age)]
                 @ (if is_none (dget st ''bat_pct'') then [] else [(''bat_pct'', dget st ''bat_pct'')]))))))))"

section \<open>node.location.report\<close>

definition opt_float :: "pyval \<Rightarrow> exn + pyfloat option" where
  "opt_float v = (if is_num v then ebind (as_float v) (\<lambda>f. Inr (Some f)) else Inr None)"

definition opt_int :: "pyval \<Rightarrow> exn + int option" where
  "opt_int v = (if is_int v then ebind (int_of v) (\<lambda>n. Inr (Some n)) else Inr None)"

definition in_range :: "int \<Rightarrow> int \<Rightarrow> pyval \<Rightarrow> bool" where
  "in_range lo hi v \<longleftrightarrow>
     fle (Flt (Fin (of_int lo))) (num_val v) \<and> fle (num_val v) (Flt (Fin (of_int hi)))"

definition report_fix :: "pydict \<Rightarrow> pyval \<Rightarrow> exn + location_fix" where
  "report_fix a ts_value =
     ebind (as_float (dget a ''lat'')) (\<lambda>lat. ebind (as_float (dget a ''lon'')) (\<lambda>lon.
     ebind (float_of ts_value) (\<lambda>ts.
     ebind (opt_float (dget a ''alt'')) (\<lambda>alt. ebind (opt_float (dget a ''acc'')) (\<lambda>acc.
     ebind (opt_int (dget a ''fix'')) (\<lambda>fx.
     ebind (opt_float (dget a ''spd'')) (\<lambda>spd. ebind (opt_float (dget a ''hdg'')) (\<lambda>hdg.
       Inr \<lparr>f_lat = lat, f_lon = lon, f_ts = ts, f_alt = alt, f_acc = acc, f_fix = fx,
            f_spd = spd, f_hdg = hdg\<rparr>))))))))"

text \<open>\<open>a.get("ts") or time.time()\<close>\<close>

definition or_now :: "pyval \<Rightarrow> (world, pyval) prog" where
  "or_now v = (if truthy v then ret v else andthen time_time (\<lambda>now. ret (fin_ts now)))"

definition handle_node_location_report :: handler where
  "handle_node_location_report r =
     (let a = q_args r; lat = dget a ''lat''; lon = dget a ''lon''
      in if \<not> (is_num lat \<and> is_num lon)
           then raise (RpcError BAD_REQUEST ''lat and lon are required floats'')
         else if \<not> (in_range (- 90) 90 lat \<and> in_range (- 180) 180 lon)
           then raise (RpcError BAD_REQUEST ''lat/lon out of range'')
         else andthen (or_now (dget a ''ts'')) (\<lambda>tv.
              andthen (lift (report_fix a tv)) (\<lambda>fx.
              andthen (apply_location (q_from r) fx ''report'' None None) (\<lambda>_.
                ret (response_ok r [(''ack'', VBool True), (''ts'', VFloat (f_ts fx))])))))"

section \<open>base.location\<close>

definition BASE_MAX_AGE_S :: int where "BASE_MAX_AGE_S = 600"

definition handle_base_location :: handler where
  "handle_base_location r =
     andthen get_base_location (\<lambda>found.
       case found of
         None \<Rightarrow> raise (RpcError UNAVAILABLE ''Base has no GPS fix yet'')
       | Some loc \<Rightarrow>
           andthen time_time (\<lambda>now.
           andthen (lift (age_s now (dget_or loc ''ts'' (VInt 0)))) (\<lambda>age.
             if BASE_MAX_AGE_S < age
             then raise (RpcError STALE (''Base fix is '' @ str_int age @ ''s old''))
             else
               andthen (lift (dat loc ''lat'')) (\<lambda>lat.
               andthen (lift (dat loc ''lon'')) (\<lambda>lon.
               andthen (lift (dat loc ''ts'')) (\<lambda>ts.
                 ret (response_ok r [(''lat'', lat), (''lon'', lon), (''ts'', ts),
                   (''age_s'', VInt age), (''fix'', dget loc ''fix'')])))))))"

section \<open>return_to_base\<close>

definition MAX_AGE_S :: int where "MAX_AGE_S = 600"

text \<open>The caller's position: explicit arguments, else the last fix if it is fresh.\<close>

definition caller_position :: "request \<Rightarrow> (world, pyval \<times> pyval \<times> int) prog" where
  "caller_position r =
     (let a = q_args r
      in if is_num (dget a ''lat'') \<and> is_num (dget a ''lon'')
         then andthen (lift (as_float (dget a ''lat''))) (\<lambda>lat.
              andthen (lift (as_float (dget a ''lon''))) (\<lambda>lon.
                ret (VFloat lat, VFloat lon, 0)))
         else andthen (get_node_location (VStr (q_from r))) (\<lambda>found.
           case found of
             None \<Rightarrow> raise (RpcError UNAVAILABLE ''Caller has no reported location'')
           | Some loc \<Rightarrow>
               andthen time_time (\<lambda>now.
               andthen (lift (ebind (dat loc ''ts'') (age_s now))) (\<lambda>age.
                 if MAX_AGE_S < age
                 then raise (RpcError STALE (''Caller's last fix is '' @ str_int age @ ''s old''))
                 else
                   andthen (lift (dat loc ''lat'')) (\<lambda>lat.
                   andthen (lift (dat loc ''lon'')) (\<lambda>lon.
                     ret (lat, lon, age)))))))"

definition rtb_numbers :: "pyval \<Rightarrow> pyval \<Rightarrow> pyval \<Rightarrow> pyval \<Rightarrow> exn + (int \<times> int)" where
  "rtb_numbers from_lat from_lon base_lat base_lon =
     ebind (as_float from_lat) (\<lambda>la. ebind (as_float from_lon) (\<lambda>lo.
     ebind (as_float base_lat) (\<lambda>bla. ebind (as_float base_lon) (\<lambda>blo.
     ebind (initial_bearing_deg la lo bla blo) (\<lambda>bearing.
     ebind (haversine_m la lo bla blo) (\<lambda>dist.
     ebind (py_round bearing) (\<lambda>b. ebind (py_round dist) (\<lambda>d. Inr (b, d)))))))))"

definition position_dict :: "pyval \<Rightarrow> pyval \<Rightarrow> int \<Rightarrow> pyval" where
  "position_dict lat lon age = VDict [(''lat'', lat), (''lon'', lon), (''age_s'', VInt age)]"

definition handle_return_to_base :: handler where
  "handle_return_to_base r =
     andthen (caller_position r) (\<lambda>(from_lat, from_lon, from_age).
     andthen get_base_location (\<lambda>found.
       case found of
         None \<Rightarrow> raise (RpcError UNAVAILABLE ''Base has no fix'')
       | Some base \<Rightarrow>
           andthen time_time (\<lambda>now.
           andthen (lift (ebind (dat base ''ts'') (age_s now))) (\<lambda>base_age.
             if MAX_AGE_S < base_age
             then raise (RpcError STALE (''Base's last fix is '' @ str_int base_age @ ''s old''))
             else
               andthen (lift (dat base ''lat'')) (\<lambda>base_lat.
               andthen (lift (dat base ''lon'')) (\<lambda>base_lon.
               andthen (lift (rtb_numbers from_lat from_lon base_lat base_lon)) (\<lambda>(bearing, dist).
                 ret (response_ok r
                   [(''bearing'', VInt bearing), (''dist_m'', VInt dist),
                    (''base'', position_dict base_lat base_lon base_age),
                    (''from'', position_dict from_lat from_lon from_age)]))))))))"

section \<open>The default handlers (handlers/\_\_init\_\_.py)\<close>

definition DEFAULT_HANDLERS :: "(string \<times> handler) list" where
  "DEFAULT_HANDLERS =
     [(''ping'', handle_ping),
      (''echo'', handle_echo),
      (''time.now'', handle_time_now),
      (''gateway.status'', handle_gateway_status),
      (''node.last_seen'', handle_node_last_seen),
      (''node.location.report'', handle_node_location_report),
      (''base.location'', handle_base_location),
      (''node.location'', handle_node_location),
      (''node.status'', handle_node_status),
      (''return_to_base'', handle_return_to_base)]"

lemma default_types_distinct: "distinct (map fst DEFAULT_HANDLERS)"
  by (simp add: DEFAULT_HANDLERS_def)

lemma default_router: "make_router DEFAULT_HANDLERS = Inr DEFAULT_HANDLERS"
  by (simp add: make_router_iff default_types_distinct)

lemmas handler_defs = handle_ping_def handle_echo_def handle_time_now_def
  handle_gateway_status_def handle_node_last_seen_def handle_node_location_def
  handle_node_status_def handle_node_location_report_def handle_base_location_def
  handle_return_to_base_def

end
