(* ===== verification/Policy.thy ===== *)
theory Policy
  imports Contract
begin

text \<open>
  timeouts/policy.py: how long a request may run. The mapping of per-type defaults is a HOL map.
\<close>

record timeout_policy =
  default_s :: int
  min_s :: int
  max_s :: int
  per_type_default_s :: "string \<rightharpoonup> int"

definition default_policy :: timeout_policy where
  "default_policy = \<lparr>default_s = 30, min_s = 1, max_s = 300, per_type_default_s = Map.empty\<rparr>"

definition resolve_ttl :: "timeout_policy \<Rightarrow> string \<Rightarrow> int option \<Rightarrow> int" where
  "resolve_ttl p request_type requested_ttl =
     (let base = (case requested_ttl of
          Some n \<Rightarrow> n
        | None \<Rightarrow> (case per_type_default_s p request_type of
            Some n \<Rightarrow> n
          | None \<Rightarrow> default_s p))
      in max (min_s p) (min base (max_s p)))"

definition clamp_ttl :: "int option \<Rightarrow> int \<Rightarrow> int \<Rightarrow> int" where
  "clamp_ttl requested dflt mx =
     resolve_ttl (default_policy\<lparr>default_s := dflt, max_s := mx\<rparr>) ''_legacy'' requested"

definition sane_policy :: "timeout_policy \<Rightarrow> bool" where
  "sane_policy p \<longleftrightarrow> 1 \<le> min_s p \<and> min_s p \<le> max_s p"

lemma resolve_ttl_min: "min_s p \<le> resolve_ttl p t r"
  by (simp add: resolve_ttl_def Let_def)

lemma resolve_ttl_max: "min_s p \<le> max_s p \<Longrightarrow> resolve_ttl p t r \<le> max_s p"
  by (simp add: resolve_ttl_def Let_def)

lemma resolve_ttl_requested:
  "min_s p \<le> n \<Longrightarrow> n \<le> max_s p \<Longrightarrow> resolve_ttl p t (Some n) = n"
  by (simp add: resolve_ttl_def)

lemma resolve_ttl_per_type:
  "per_type_default_s p t = Some n \<Longrightarrow> resolve_ttl p t None = max (min_s p) (min n (max_s p))"
  by (simp add: resolve_ttl_def)

lemma resolve_ttl_mono:
  "m \<le> n \<Longrightarrow> resolve_ttl p t (Some m) \<le> resolve_ttl p t (Some n)"
  by (auto simp: resolve_ttl_def)

end
