(* ===== verification/Core.thy ===== *)
theory Core
  imports Handlers Policy
begin

text \<open>
  core.py: the life of one validated request, \<open>process_request\<close>, with its two helpers. The emitter
  (the \<open>emit\<close> callback), the router and the policy are arguments, as in the code. What the
  pipeline needs of the emitter and of the handlers is the locale \<open>pipeline\<close> of the theory
  \<open>CoreLaws\<close>.
\<close>

type_synonym emitter = "string \<Rightarrow> response \<Rightarrow> (world, unit) prog"

definition publish_and_finalize ::
  "emitter \<Rightarrow> request \<Rightarrow> response \<Rightarrow> string \<Rightarrow> string option \<Rightarrow> (world, unit) prog" where
  "publish_and_finalize emit r resp final_state error_code =
     andthen (catch_exception
       (andthen (emit (q_from r) resp) (\<lambda>_.
          record_event (q_id r) (q_from r) RESPONSE_PUBLISHED None))
       (ret ())) (\<lambda>_.
     record_completion (q_id r) (q_from r) final_state (Some resp) error_code)"

definition emit_error_final :: "emitter \<Rightarrow> request \<Rightarrow> string \<Rightarrow> string \<Rightarrow> (world, unit) prog" where
  "emit_error_final emit r code message =
     publish_and_finalize emit r (make_error (q_id r) (q_type r) (q_from r) code message)
       COMPLETED_ERROR (Some code)"

definition timeout_message :: "int \<Rightarrow> string" where
  "timeout_message ttl = ''No response before timeout ('' @ str_int ttl @ ''s)''"

text \<open>The \<open>except\<close> clauses around the handler, and the success path after them.\<close>

definition finish :: "emitter \<Rightarrow> request \<Rightarrow> int \<Rightarrow> exn + response \<Rightarrow> (world, unit) prog" where
  "finish emit r ttl out = (case out of
      Inr resp \<Rightarrow> publish_and_finalize emit r resp COMPLETED_OK None
    | Inl (RpcError code message) \<Rightarrow> emit_error_final emit r code message
    | Inl (PyExn name) \<Rightarrow>
        if PyExn name = TimeoutError
        then andthen (record_event (q_id r) (q_from r) TIMEOUT None) (\<lambda>_.
             emit_error_final emit r TIMEOUT_CODE (timeout_message ttl))
        else emit_error_final emit r INTERNAL name
    | Inl Cancelled \<Rightarrow> raise Cancelled)"

definition run_fresh ::
  "handler router \<Rightarrow> emitter \<Rightarrow> int \<Rightarrow> request \<Rightarrow> (world, unit) prog" where
  "run_fresh router emit ttl r =
     andthen (record_event (q_id r) (q_from r) VALIDATED None) (\<lambda>_.
     andthen time_time (\<lambda>now.
     andthen (mark_node_seen (VStr (q_from r)) (fin_ts now)) (\<lambda>_.
     (case resolve router (q_type r) of
        None \<Rightarrow>
          andthen (record_event (q_id r) (q_from r) REJECTED (Some ''unknown_type'')) (\<lambda>_.
            emit_error_final emit r UNKNOWN_TYPE (''Unknown request type: '' @ q_type r))
      | Some handle \<Rightarrow>
          andthen (record_event (q_id r) (q_from r) HANDLER_STARTED None) (\<lambda>_.
          andthen (attempt (run_with_timeout (handle r) ttl)) (\<lambda>out.
            finish emit r ttl out))))))"

definition process_request ::
  "handler router \<Rightarrow> emitter \<Rightarrow> timeout_policy \<Rightarrow> request \<Rightarrow> (world, unit) prog" where
  "process_request router emit policy r =
     (let ttl = resolve_ttl policy (q_type r) (q_ttl r)
      in andthen (attempt (record_received r ttl)) (\<lambda>out.
         case out of
           Inl e \<Rightarrow>
             if e = Cancelled then raise e
             else emit_error_final emit r INTERNAL ''persistence error''
         | Inr fresh \<Rightarrow>
             if fresh then run_fresh router emit ttl r
             else
               andthen (record_event (q_id r) (q_from r) REJECTED (Some ''duplicate'')) (\<lambda>_.
                 emit_error_final emit r DUPLICATE ''Duplicate request id for this node'')))"

lemmas core_defs = publish_and_finalize_def emit_error_final_def finish_def run_fresh_def
  process_request_def

section \<open>What the pipeline is to do\<close>

text \<open>
  The specification the pipeline is measured against. The outcome of a fresh request is \<open>None\<close>
  when no handler has its type, and otherwise what running the handler under the time limit gave.
\<close>

type_synonym outcome = "(exn + response) option"

definition error_of :: "int \<Rightarrow> request \<Rightarrow> outcome \<Rightarrow> (string \<times> string) option" where
  "error_of ttl r out = (case out of
      None \<Rightarrow> Some (UNKNOWN_TYPE, ''Unknown request type: '' @ q_type r)
    | Some (Inl (RpcError code message)) \<Rightarrow> Some (code, message)
    | Some (Inl (PyExn name)) \<Rightarrow>
        Some (if name = ''TimeoutError'' then (TIMEOUT_CODE, timeout_message ttl)
              else (INTERNAL, name))
    | Some (Inl Cancelled) \<Rightarrow> Some (TIMEOUT_CODE, timeout_message ttl)
    | Some (Inr p) \<Rightarrow> None)"

definition reply_to :: "int \<Rightarrow> request \<Rightarrow> outcome \<Rightarrow> response" where
  "reply_to ttl r out = (case error_of ttl r out of
      Some (code, message) \<Rightarrow> make_error (q_id r) (q_type r) (q_from r) code message
    | None \<Rightarrow> (case out of Some (Inr p) \<Rightarrow> p
        | _ \<Rightarrow> make_error (q_id r) (q_type r) (q_from r) INTERNAL []))"

definition final_of :: "int \<Rightarrow> request \<Rightarrow> outcome \<Rightarrow> string" where
  "final_of ttl r out = (if error_of ttl r out = None then COMPLETED_OK else COMPLETED_ERROR)"

definition trace_of :: "outcome \<Rightarrow> bool \<Rightarrow> string list" where
  "trace_of out published = [RECEIVED, VALIDATED]
     @ (case out of
          None \<Rightarrow> [REJECTED]
        | Some (Inl (PyExn name)) \<Rightarrow>
            if name = ''TimeoutError'' then [HANDLER_STARTED, TIMEOUT] else [HANDLER_STARTED]
        | Some _ \<Rightarrow> [HANDLER_STARTED])
     @ (if published then [RESPONSE_PUBLISHED] else [])"

section \<open>Responses on the wire\<close>

text \<open>\<open>Service._emit\<close> (transport/service.py)\<close>

definition service_emit :: emitter where
  "service_emit node_id p =
     (case response_to_outbound p of (to, payload) \<Rightarrow>
        andthen (lift (rpc_response_topic (if to \<noteq> [] then to else node_id))) (\<lambda>topic.
          bus_publish topic payload False))"

definition response_message :: "response \<Rightarrow> message" where
  "response_message p = \<lparr>msg_topic = RPC_RESPONSE_PREFIX @ ''/'' @ p_to p,
     msg_payload = response_json p, msg_retain = False\<rparr>"

definition is_response :: "message \<Rightarrow> bool" where
  "is_response m \<longleftrightarrow> take 11 (msg_topic m) = ''mc/rpc/resp''"

definition responses :: "world \<Rightarrow> message list" where
  "responses w = filter is_response (w_sent w)"

lemma is_response_message [simp]: "is_response (response_message p)"
  by (simp add: is_response_def response_message_def RPC_RESPONSE_PREFIX_def)

lemma not_response_topics:
  "msg_topic m = node_location_topic n \<Longrightarrow> \<not> is_response m"
  "msg_topic m = node_battery_topic n \<Longrightarrow> \<not> is_response m"
  "msg_topic m = node_state_topic n \<Longrightarrow> \<not> is_response m"
  "msg_topic m = BASE_LOCATION \<Longrightarrow> \<not> is_response m"
  by (simp_all add: is_response_def topic_defs)

end
