(* ===== verification/CoreLaws.thy ===== *)
theory CoreLaws
  imports Core
begin

text \<open>
  What the pipeline relies on and what it guarantees: the contract of the handlers and the emitter
  as a locale, interpreted on the default router and \<open>Service._emit\<close>; the frame of the pipeline on
  any outside; and, on an outside whose database answers, the exact rows, events and messages.
\<close>

section \<open>Nothing but the pipeline speaks on the response topics\<close>

abbreviation quiet :: "(world, 'a) prog \<Rightarrow> bool" where
  "quiet m \<equiv> evolves (same responses) m"

lemma quiet_store_call [evolves_intros]: "quiet (store_call f)"
  by (rule evolves_store_call) (simp_all add: same_def responses_def)

lemma quiet_store_query [evolves_intros]: "quiet (store_query f)"
  by (rule evolves_store_query) (simp add: same_def responses_def)

lemma quiet_time_time [evolves_intros]: "quiet time_time"
  by (rule evolves_time_time) (simp add: same_def responses_def)

lemma quiet_note_radio [evolves_intros]: "quiet (note_radio n r s t)"
  unfolding note_radio_def
  by (rule evolves_modify) (auto simp: same_def responses_def split: pyval.split)

lemma quiet_publish:
  "\<not> is_response \<lparr>msg_topic = t, msg_payload = p, msg_retain = b\<rparr> \<Longrightarrow> quiet (bus_publish t p b)"
  by (rule evolves_bus_publish) (simp_all add: same_def responses_def)

lemma quiet_node_publish [evolves_intros]:
  "quiet (bus_publish (node_state_topic n) p b)" "quiet (bus_publish (node_location_topic n) p b)"
  "quiet (bus_publish (node_battery_topic n) p b)" "quiet (bus_publish BASE_LOCATION p b)"
  by (rule quiet_publish; rule not_response_topics; simp)+

lemma quiet_aggregator [evolves_intros]:
  "quiet (get_node_state n)" "quiet (republish_state n)" "quiet get_base_location"
  "quiet (apply_seen n ts r s)" "quiet (apply_location m fx src r s)"
  "quiet (apply_battery n ts p v so)" "quiet (apply_base_location fx src)"
  unfolding get_node_state_def republish_state_def apply_seen_def apply_location_def
    apply_battery_def apply_base_location_def get_base_location_def store_api_defs
  by (intro evolves_intros)+

section \<open>The handlers\<close>

text \<open>An answer belongs to its request: its id, its type and its sender.\<close>

definition answers :: "request \<Rightarrow> response \<Rightarrow> bool" where
  "answers r p \<longleftrightarrow> response_shape p \<and> p_id p = q_id r \<and> p_type p = q_type r \<and> p_to p = q_from r"

definition handler_ok :: "handler \<Rightarrow> bool" where
  "handler_ok h \<longleftrightarrow> (\<forall>r. aside (h r) \<and> quiet (h r) \<and>
     yields (\<lambda>p. answers r p \<and> p_status p = ''ok'') (h r))"

lemma answers_ok [simp]: "answers r (response_ok r b)"
  by (simp add: answers_def)

lemma answers_error [simp]: "answers r (make_error (q_id r) (q_type r) (q_from r) c m)"
  by (simp add: answers_def)

lemma yields_answer [yields_intros]:
  "yields (\<lambda>p. answers r p \<and> p_status p = ''ok'') (ret (response_ok r b))"
  by (simp add: yields_ret)

lemma aside_base [evolves_intros]: "aside get_base_location"
  unfolding get_base_location_def by (rule evolves_intros)

lemma aside_counts [evolves_intros]: "aside counts"
  unfolding counts_def by (intro evolves_intros)

lemma aside_pieces [evolves_intros]:
  "aside get_gateway_snapshot" "aside (snap_age g)" "aside (or_now v)" "aside (caller_position r)"
  unfolding get_gateway_snapshot_def snap_age_def or_now_def caller_position_def
  by (intro evolves_intros)+

lemma quiet_pieces [evolves_intros]:
  "quiet get_gateway_snapshot" "quiet (snap_age g)" "quiet (or_now v)" "quiet (caller_position r)"
  "quiet counts"
  unfolding get_gateway_snapshot_def snap_age_def or_now_def caller_position_def store_api_defs
  by (intro evolves_intros)+

lemma yields_case_str [yields_intros]:
  "(\<And>s. yields P (f s)) \<Longrightarrow> yields P m \<Longrightarrow> yields P (case v of VStr s \<Rightarrow> f s | _ \<Rightarrow> m)"
  by (simp split: pyval.split)

lemma evolves_case_str [evolves_intros]:
  "(\<And>s. evolves R (f s)) \<Longrightarrow> evolves R m \<Longrightarrow> evolves R (case v of VStr s \<Rightarrow> f s | _ \<Rightarrow> m)"
  by (simp split: pyval.split)

lemma quiet_store_api [evolves_intros]:
  "quiet (get_last_seen n)" "quiet (get_node_location n)" "quiet (get_node_battery n)"
  unfolding store_api_defs by (intro evolves_intros)+

lemma default_handlers_ok:
  "handler_ok handle_ping" "handler_ok handle_echo" "handler_ok handle_time_now"
  "handler_ok handle_gateway_status" "handler_ok handle_node_last_seen"
  "handler_ok handle_node_location_report" "handler_ok handle_base_location"
  "handler_ok handle_node_location" "handler_ok handle_node_status"
  "handler_ok handle_return_to_base"
  unfolding handler_ok_def handler_defs
  by (intro allI conjI evolves_intros yields_intros)+

section \<open>Healthy and live outsides\<close>

text \<open>
  \<open>healthy\<close>: the task is not being cancelled and every database statement goes through.
  \<open>live\<close>: in addition to no cancellation, the broker is connected and takes what is published.
\<close>

definition healthy :: "world \<Rightarrow> bool" where
  "healthy w \<longleftrightarrow> w_budget w = None \<and> (\<forall>t. h_db_ok (w_host w) t)"

definition live :: "world \<Rightarrow> bool" where
  "live w \<longleftrightarrow> w_budget w = None \<and> w_connected w \<and> (\<forall>t. h_mqtt_ok (w_host w) t)"

lemma aside_host: "aside m \<Longrightarrow> m w = (r, w') \<Longrightarrow>
    w_host w' = w_host w \<and> w_connected w' = w_connected w \<and> w_in_flight w' = w_in_flight w \<and>
    t_requests (w_db w') = t_requests (w_db w) \<and> t_events (w_db w') = t_events (w_db w)"
  using evolves_sameD [of outside_aggregator m w r w']
  by (simp add: outside_aggregator_def request_tables_def)

text \<open>
  \<open>logged r ss w w'\<close>: between the two states the request rows and the responses stayed as they
  were, and the event log grew by the states \<open>ss\<close> of request \<open>r\<close>.
\<close>

definition events_of :: "request \<Rightarrow> string list \<Rightarrow> event_row list \<Rightarrow> bool" where
  "events_of r ss es \<longleftrightarrow> map e_state es = ss \<and>
     list_all (\<lambda>e. e_node e = q_from r \<and> e_request e = q_id r) es"

definition logged :: "request \<Rightarrow> string list \<Rightarrow> world \<Rightarrow> world \<Rightarrow> bool" where
  "logged r ss w w' \<longleftrightarrow> t_requests (w_db w') = t_requests (w_db w) \<and>
     (\<exists>es. t_events (w_db w') = t_events (w_db w) @ es \<and> events_of r ss es) \<and>
     responses w' = responses w \<and> healthy w' \<and> (live w \<longrightarrow> live w')"

lemma events_of_append: "events_of r ss es \<Longrightarrow> events_of r ts fs \<Longrightarrow> events_of r (ss @ ts) (es @ fs)"
  by (simp add: events_of_def)

lemma events_of_Nil [simp]: "events_of r [] es \<longleftrightarrow> es = []"
  by (auto simp: events_of_def)

lemma events_of_one [simp]: "events_of r [s] [new_event now (q_id r) (q_from r) s dt]"
  by (simp add: events_of_def new_event_def)

lemma logged_trans: "logged r ss u v \<Longrightarrow> logged r ts v w \<Longrightarrow> logged r (ss @ ts) u w"
  unfolding logged_def by (auto intro!: events_of_append)

lemma store_call_healthy:
  assumes "healthy w" "f (h_sql_text (w_host w)) (h_clock (w_host w) (w_tick w)) (w_db w) = Inr (x, d)"
  shows "store_call f w = (Inr x, w\<lparr>w_tick := Suc (w_tick w), w_db := d\<rparr>)"
  using assms by (simp add: healthy_def store_call_def Let_def)

lemma record_event_healthy:
  assumes "healthy w"
  obtains w' where "record_event (q_id r) (q_from r) s dt w = (Inr (), w')" "logged r [s] w w'"
proof
  show "record_event (q_id r) (q_from r) s dt w = (Inr (), w\<lparr>w_tick := Suc (w_tick w), w_db :=
      (w_db w)\<lparr>t_events := t_events (w_db w) @
        [new_event (h_clock (w_host w) (w_tick w)) (q_id r) (q_from r) s dt]\<rparr>\<rparr>)"
    unfolding record_event_def
    by (rule store_call_healthy [OF assms]) (simp add: sync_record_event_def)
  show "logged r [s] w (w\<lparr>w_tick := Suc (w_tick w), w_db :=
      (w_db w)\<lparr>t_events := t_events (w_db w) @
        [new_event (h_clock (w_host w) (w_tick w)) (q_id r) (q_from r) s dt]\<rparr>\<rparr>)"
    using assms by (auto simp: logged_def responses_def healthy_def live_def)
qed

lemma mark_seen_healthy:
  assumes "healthy w"
  obtains w' where "mark_node_seen (VStr n) (fin_ts t) w = (Inr (), w')" "logged r [] w w'"
proof
  let ?d = "(w_db w)\<lparr>t_nodes := (t_nodes (w_db w))(SText n \<mapsto> (case t_nodes (w_db w) (SText n) of
      None \<Rightarrow> SReal (Fin t) | Some old \<Rightarrow> sql_max old (SReal (Fin t))))\<rparr>"
  show "mark_node_seen (VStr n) (fin_ts t) w = (Inr (), w\<lparr>w_tick := Suc (w_tick w), w_db := ?d\<rparr>)"
    unfolding mark_node_seen_def
    by (rule store_call_healthy [OF assms]) (simp only: mark_seen_Fin)
  show "logged r [] w (w\<lparr>w_tick := Suc (w_tick w), w_db := ?d\<rparr>)"
    using assms by (simp add: logged_def responses_def healthy_def live_def)
qed

lemma record_completion_healthy:
  assumes "healthy w"
  obtains now where "record_completion i n f p e w = (Inr (), w\<lparr>w_tick := Suc (w_tick w),
      w_db := (w_db w)\<lparr>t_requests := completed_requests now i n f p e (t_requests (w_db w))\<rparr>\<rparr>)"
proof
  show "record_completion i n f p e w = (Inr (), w\<lparr>w_tick := Suc (w_tick w),
      w_db := (w_db w)\<lparr>t_requests := completed_requests (h_clock (w_host w) (w_tick w)) i n f p e
        (t_requests (w_db w))\<rparr>\<rparr>)"
    unfolding record_completion_def
    by (rule store_call_healthy [OF assms]) (rule sync_record_completion_eq)
qed

lemma run_with_timeout_healthy:
  assumes "handler_ok h" "healthy w"
  obtains out w' where "run_with_timeout (h r) ttl w = (out, w')" "logged r [] w w'"
    "out \<noteq> Inl Cancelled" "\<And>p. out = Inr p \<Longrightarrow> answers r p"
proof -
  let ?u = "w\<lparr>w_in_flight := w_in_flight w + 1, w_tick := Suc (w_tick w),
      w_budget := h_cut (w_host w) (w_tick w) ttl\<rparr>"
  obtain res v where v: "h r ?u = (res, v)" by (cases "h r ?u")
  have h: "aside (h r)" "quiet (h r)" "yields (\<lambda>p. answers r p \<and> p_status p = ''ok'') (h r)"
    using assms(1) by (simp_all add: handler_ok_def)
  have host: "w_host v = w_host w" "w_connected v = w_connected w"
      "t_requests (w_db v) = t_requests (w_db w)" "t_events (w_db v) = t_events (w_db w)"
    using aside_host [OF h(1) v] by simp_all
  have sent: "responses v = responses w"
    using evolves_sameD [OF h(2) v] by (simp add: responses_def)
  let ?out = "case res of Inl e \<Rightarrow> Inl (if e = Cancelled then TimeoutError else e) | Inr x \<Rightarrow> Inr x"
  let ?w' = "v\<lparr>w_budget := None, w_in_flight := max 0 (w_in_flight v - 1)\<rparr>"
  have "run_with_timeout (h r) ttl w = (?out, ?w')"
    by (simp add: run_with_timeout_def inc_in_flight_def dec_in_flight_def finally_do_def
        wait_for_def v)
  moreover have "logged r [] w ?w'"
    using assms(2) host sent by (simp add: logged_def healthy_def live_def responses_def)
  moreover have "?out \<noteq> Inl Cancelled" by (auto split: sum.split)
  moreover have "answers r p" if "?out = Inr p" for p
    using that yieldsD [OF h(3)] v by (fastforce split: sum.splits)
  ultimately show ?thesis by (rule that)
qed

end
