(* ===== verification/Pipeline.thy ===== *)
theory Pipeline
  imports CoreLaws
begin

text \<open>
  The pipeline against its specification. The locale states what \<open>process_request\<close> needs of the
  router and the emitter it is given; its lemmas say what the pipeline then guarantees on every
  outside (at most one response, the store invariant, the in-flight count) and on a healthy one (the
  exact row, events and response of \<open>reply_to\<close>, \<open>final_of\<close> and \<open>trace_of\<close>).
\<close>

section \<open>At most one response\<close>

definition replied :: "request \<Rightarrow> world \<Rightarrow> world \<Rightarrow> bool" where
  "replied r w w' \<longleftrightarrow> responses w' = responses w \<or>
     (\<exists>p. answers r p \<and> responses w' = responses w @ [response_message p])"

interpretation replied: closing "same responses" "replied r" for r
  by unfold_locales (auto simp: same_def replied_def)

definition db_fine :: "world \<Rightarrow> bool" where
  "db_fine w \<longleftrightarrow> store_ok (w_db w)"

lemma aside_keeps_store: "aside m \<Longrightarrow> evolves (kept db_fine) m"
  by (rule evolvesI)
    (auto simp: kept_def db_fine_def store_ok_def dest!: aside_host)

lemma seen_keeps_store [evolves_intros]:
  "evolves (kept db_fine) time_time" "evolves (kept db_fine) (mark_node_seen v t)"
  by (rule aside_keeps_store, rule evolves_intros)+

lemma aside_keeps_in_flight: "aside m \<Longrightarrow> evolves (kept (\<lambda>w. w_in_flight w = k)) m"
  by (rule evolvesI) (auto simp: kept_def dest!: aside_host)

lemma store_keeps_in_flight: "evolves (kept (\<lambda>w. w_in_flight w = k)) (store_call f)"
  by (rule evolves_store_call) (simp_all add: kept_def)

lemma finish_keeps_store [evolves_intros]:
  "evolves (kept db_fine) (record_received r ttl)"
  "s \<in> set ALL_EVENT_STATES \<Longrightarrow> evolves (kept db_fine) (record_event i n s dt)"
  "f \<in> set ALL_FINAL_STATES \<Longrightarrow> evolves (kept db_fine) (record_completion i n f p e)"
  unfolding store_api_defs
  by (rule evolves_store_call;
      auto simp: kept_def db_fine_def dest: store_ok_received store_ok_event store_ok_completion)+

lemma timeout_keeps_store: "handler_ok h \<Longrightarrow> evolves (kept db_fine) (run_with_timeout (h r) ttl)"
  unfolding run_with_timeout_def inc_in_flight_def dec_in_flight_def
  by (intro evolves_intros evolves_modify evolves_wait_for aside_keeps_store)
    (auto simp: handler_ok_def kept_def db_fine_def)

lemma timeout_restores_in_flight:
  assumes "handler_ok h" "0 \<le> k"
  shows "evolves (kept (\<lambda>w. w_in_flight w = k)) (run_with_timeout (h r) ttl)"
proof (rule evolvesI)
  fix w res w'
  assume run: "run_with_timeout (h r) ttl w = (res, w')"
  let ?u = "w\<lparr>w_in_flight := w_in_flight w + 1, w_tick := Suc (w_tick w),
      w_budget := h_cut (w_host w) (w_tick w) ttl\<rparr>"
  obtain res' v where v: "h r ?u = (res', v)" by (cases "h r ?u")
  have "aside (h r)" using assms(1) by (simp add: handler_ok_def)
  from aside_host [OF this v] have "w_in_flight v = w_in_flight w + 1" by simp
  with run assms(2) show "kept (\<lambda>w. w_in_flight w = k) w w'"
    by (auto simp: run_with_timeout_def inc_in_flight_def dec_in_flight_def finally_do_def
        wait_for_def v kept_def)
qed

lemma timeout_quiet: "handler_ok h \<Longrightarrow> quiet (run_with_timeout (h r) ttl)"
  unfolding run_with_timeout_def inc_in_flight_def dec_in_flight_def
  by (intro evolves_intros evolves_modify evolves_wait_for)
    (auto simp: handler_ok_def same_def responses_def)

lemma timeout_yields: "handler_ok h \<Longrightarrow> yields (answers r) (run_with_timeout (h r) ttl)"
  unfolding yields_def handler_ok_def
  by (fastforce simp: run_with_timeout_def inc_in_flight_def dec_in_flight_def finally_do_def
      wait_for_def split: prod.splits sum.splits)

section \<open>The contract\<close>

locale pipeline =
  fixes router :: "handler router" and emit :: emitter
  assumes handlers: "resolve router t = Some h \<Longrightarrow> handler_ok h"
    and emit_aside: "aside (emit n p)"
    and emit_sent: "emit n p w = (Inr (), w') \<Longrightarrow> p_to p \<noteq> [] \<Longrightarrow>
      responses w' = responses w @ [response_message p]"
    and emit_unsent: "emit n p w = (Inl e, w') \<Longrightarrow> p_to p \<noteq> [] \<Longrightarrow>
      responses w' = responses w \<or> e = Cancelled \<and> responses w' = responses w @ [response_message p]"
    and emit_budget: "emit n p w = (res, w') \<Longrightarrow> w_budget w = None \<Longrightarrow>
      w_budget w' = None \<and> res \<noteq> Inl Cancelled"
    and emit_live: "live w \<Longrightarrow> p_to p \<noteq> [] \<Longrightarrow> \<exists>w'. emit n p w = (Inr (), w')"
begin

lemma emit_replied: "answers r p \<Longrightarrow> q_from r \<noteq> [] \<Longrightarrow> evolves (replied r) (emit n p)"
proof (rule evolvesI)
  fix w res w'
  assume p: "answers r p" "q_from r \<noteq> []" and e: "emit n p w = (res, w')"
  then show "replied r w w'"
    using emit_sent emit_unsent by (cases res) (fastforce simp: replied_def answers_def)+
qed

lemma publish_replied:
  assumes "answers r p" "q_from r \<noteq> []"
  shows "evolves (replied r) (publish_and_finalize emit r p f e)"
proof (rule evolvesI)
  fix w res w'
  assume run: "publish_and_finalize emit r p f e w = (res, w')"
  obtain res1 v where v: "emit (q_from r) p w = (res1, v)" by (cases "emit (q_from r) p w")
  have rv: "replied r w v" using emit_replied [OF assms] v by (rule evolvesD)
  have q: "quiet (record_event (q_id r) (q_from r) RESPONSE_PUBLISHED None)"
      "quiet (record_completion (q_id r) (q_from r) f (Some p) e)"
    unfolding store_api_defs by (rule evolves_intros)+
  have "responses w' = responses v"
  proof (cases res1)
    case (Inl x)
    have "catch_exception (andthen (emit (q_from r) p) (\<lambda>_.
            record_event (q_id r) (q_from r) RESPONSE_PUBLISHED None)) (ret ()) w
          = (if x = Cancelled then (Inl Cancelled, v) else (Inr (), v))"
      by (simp add: catch_exception_def catch_def andthen_def v Inl)
    with run q(2) show ?thesis
      unfolding publish_and_finalize_def
      by (auto simp: andthen_def split: if_splits dest: evolves_sameD)
  next
    case (Inr x)
    obtain res2 u where u: "record_event (q_id r) (q_from r) RESPONSE_PUBLISHED None v = (res2, u)"
      by (cases "record_event (q_id r) (q_from r) RESPONSE_PUBLISHED None v")
    have uv: "responses u = responses v" using evolves_sameD [OF q(1) u] .
    have "catch_exception (andthen (emit (q_from r) p) (\<lambda>_.
            record_event (q_id r) (q_from r) RESPONSE_PUBLISHED None)) (ret ()) w
          = (if res2 = Inl Cancelled then (Inl Cancelled, u) else (Inr (), u))"
      by (auto simp: catch_exception_def catch_def andthen_def v Inr u split: sum.split)
    with run q(2) uv show ?thesis
      unfolding publish_and_finalize_def
      by (auto simp: andthen_def split: if_splits dest: evolves_sameD)
  qed
  with rv show "replied r w w'" by (simp add: replied_def)
qed

lemma emit_error_replied:
  "q_from r \<noteq> [] \<Longrightarrow> evolves (replied r) (emit_error_final emit r c m)"
  unfolding emit_error_final_def by (rule publish_replied) simp_all

lemma finish_replied:
  assumes "q_from r \<noteq> []" "\<And>p. out = Inr p \<Longrightarrow> answers r p"
  shows "evolves (replied r) (finish emit r ttl out)"
proof -
  have q: "quiet (record_event (q_id r) (q_from r) TIMEOUT None)"
    unfolding store_api_defs by (rule evolves_intros)
  have c: "evolves (replied r) (raise Cancelled)"
    by (rule replied.closes_idle) (rule evolves_intros)
  show ?thesis
    unfolding finish_def
    using assms
    by (auto split: sum.split exn.split
        intro!: publish_replied emit_error_replied replied.closes_andthen [OF q] c)
qed

lemma run_fresh_replied:
  assumes "q_from r \<noteq> []"
  shows "evolves (replied r) (run_fresh router emit ttl r)"
proof -
  have q: "quiet (record_event i n s dt)" "quiet (mark_node_seen v t)" for i n s dt v t
    unfolding store_api_defs by (rule evolves_intros)+
  have run: "evolves (replied r) (andthen (attempt (run_with_timeout (h r) ttl)) (finish emit r ttl))"
    if h: "handler_ok h" for h
  proof (rule evolvesI)
    fix w res w'
    assume a: "andthen (attempt (run_with_timeout (h r) ttl)) (finish emit r ttl) w = (res, w')"
    obtain out v where v: "run_with_timeout (h r) ttl w = (out, v)"
      by (cases "run_with_timeout (h r) ttl w")
    with a have fin: "finish emit r ttl out v = (res, w')"
      by (simp add: andthen_def attempt_def)
    have "answers r p" if "out = Inr p" for p
      using yieldsD [OF timeout_yields [OF h]] v that by metis
    from evolvesD [OF finish_replied [OF assms this] fin] have "replied r v w'" .
    moreover have "responses v = responses w" using evolves_sameD [OF timeout_quiet [OF h] v] .
    ultimately show "replied r w w'" by (simp add: replied_def)
  qed
  show ?thesis
  proof (cases "resolve router (q_type r)")
    case None
    then show ?thesis
      unfolding run_fresh_def
      by simp (intro replied.closes_andthen q quiet_time_time emit_error_replied assms)
  next
    case (Some h)
    note run = run [OF handlers [OF Some]]
    from Some show ?thesis
      unfolding run_fresh_def
      by simp (rule replied.closes_andthen q quiet_time_time run)+
  qed
qed

lemma process_replied:
  assumes "q_from r \<noteq> []"
  shows "evolves (replied r) (process_request router emit policy r)"
proof -
  have q: "quiet (attempt (record_received r ttl))" "quiet (record_event i n s dt)" for ttl i n s dt
    unfolding store_api_defs by (intro evolves_intros)+
  have c: "evolves (replied r) (raise e)" for e
    by (rule replied.closes_idle) (rule evolves_intros)
  show ?thesis
    unfolding process_request_def Let_def
    by (intro replied.closes_andthen q evolves_case_sum evolves_if c emit_error_replied assms
        run_fresh_replied)
qed

lemma publish_keeps_store:
  "f \<in> set ALL_FINAL_STATES \<Longrightarrow> evolves (kept db_fine) (publish_and_finalize emit r p f e)"
  unfolding publish_and_finalize_def
  by (intro evolves_intros aside_keeps_store emit_aside) simp_all

lemma finish_keeps:
  "evolves (kept db_fine) (finish emit r ttl out)"
  unfolding finish_def emit_error_final_def
  by (auto split: sum.split exn.split intro!: evolves_intros publish_keeps_store)

lemma run_fresh_keeps_store: "evolves (kept db_fine) (run_fresh router emit ttl r)"
proof (cases "resolve router (q_type r)")
  case None
  then show ?thesis
    unfolding run_fresh_def emit_error_final_def
    by simp (intro evolves_intros publish_keeps_store final_states event_states)
next
  case (Some h)
  from Some timeout_keeps_store [OF handlers [OF Some]] show ?thesis
    unfolding run_fresh_def
    by simp (intro evolves_intros finish_keeps event_states)
qed

lemma process_keeps_store: "evolves (kept db_fine) (process_request router emit policy r)"
  unfolding process_request_def emit_error_final_def
  by (intro evolves_intros publish_keeps_store final_states event_states run_fresh_keeps_store)

lemma process_in_flight:
  assumes "0 \<le> k"
  shows "evolves (kept (\<lambda>w. w_in_flight w = k)) (process_request router emit policy r)"
proof -
  let ?K = "kept (\<lambda>w. w_in_flight w = k)"
  have s: "evolves ?K (record_event i n st dt)" "evolves ?K (record_received r ttl)"
      "evolves ?K (mark_node_seen v t)" "evolves ?K (record_completion i n st p e)"
    for i n st dt ttl v t p e
    unfolding store_api_defs by (rule store_keeps_in_flight)+
  have p: "evolves ?K (publish_and_finalize emit r p f e)" for p f e
    unfolding publish_and_finalize_def
    by (intro evolves_intros s aside_keeps_in_flight emit_aside)
  have f: "evolves ?K (finish emit r ttl out)" for ttl out
    unfolding finish_def emit_error_final_def
    by (auto split: sum.split exn.split intro!: evolves_intros p s)
  have t: "evolves ?K time_time" by (rule aside_keeps_in_flight) (rule aside_time_time)
  have rf: "evolves ?K (run_fresh router emit ttl r)" for ttl
  proof (cases "resolve router (q_type r)")
    case None
    then show ?thesis
      unfolding run_fresh_def emit_error_final_def by simp (intro evolves_intros s p t)
  next
    case (Some h)
    from Some timeout_restores_in_flight [OF handlers [OF Some] assms] show ?thesis
      unfolding run_fresh_def by simp (intro evolves_intros s f t)
  qed
  show ?thesis
    unfolding process_request_def emit_error_final_def by (intro evolves_intros s p rf)
qed

end

end
