(* ===== verification/Refinement.thy ===== *)
theory Refinement
  imports Pipeline
begin

text \<open>
  The functional half of the pipeline: on a healthy outside \<open>process_request\<close> returns, and the
  row, the events and the response it leaves are those of the specification.
\<close>

text \<open>
  \<open>closed r p f e ss pub w w'\<close>: the row of \<open>r\<close> was completed with the final state \<open>f\<close>, the error
  code \<open>e\<close> and the response \<open>p\<close>; the events \<open>ss\<close> were logged, and if \<open>pub\<close> the response
  went out and was logged as published.
\<close>

definition closed ::
  "request \<Rightarrow> response \<Rightarrow> string \<Rightarrow> string option \<Rightarrow> string list \<Rightarrow> bool \<Rightarrow> world \<Rightarrow> world \<Rightarrow> bool" where
  "closed r p f e ss pub w w' \<longleftrightarrow>
     (\<exists>now. t_requests (w_db w') =
        completed_requests now (q_id r) (q_from r) f (Some p) e (t_requests (w_db w))) \<and>
     (\<exists>es. t_events (w_db w') = t_events (w_db w) @ es \<and>
        events_of r (ss @ (if pub then [RESPONSE_PUBLISHED] else [])) es) \<and>
     responses w' = responses w @ (if pub then [response_message p] else []) \<and>
     healthy w' \<and> (live w \<longrightarrow> pub)"

lemma closed_after:
  assumes "logged r ts u v" "closed r p f e ss pub v w"
  shows "closed r p f e (ts @ ss) pub u w"
proof -
  from assms(1) obtain es where es: "t_events (w_db v) = t_events (w_db u) @ es" "events_of r ts es"
    by (auto simp: logged_def)
  from assms(2) obtain fs where fs: "t_events (w_db w) = t_events (w_db v) @ fs"
      "events_of r (ss @ (if pub then [RESPONSE_PUBLISHED] else [])) fs"
    by (auto simp: closed_def)
  have "t_events (w_db w) = t_events (w_db u) @ es @ fs"
    using es(1) fs(1) by simp
  moreover have "events_of r ((ts @ ss) @ (if pub then [RESPONSE_PUBLISHED] else [])) (es @ fs)"
    using events_of_append [OF es(2) fs(2)] by simp
  ultimately show ?thesis
    using assms by (auto simp: closed_def logged_def)
qed

text \<open>
  \<open>carried_out\<close>: a fresh request went through the pipeline as specified. Its row is added already
  completed, its events are exactly those of its outcome, and at most its reply went out.
\<close>

definition carried_out :: "request \<Rightarrow> int \<Rightarrow> outcome \<Rightarrow> bool \<Rightarrow> world \<Rightarrow> world \<Rightarrow> bool" where
  "carried_out r ttl out pub w w' \<longleftrightarrow>
     (\<exists>t0 t1. t_requests (w_db w') = t_requests (w_db w) @
        [complete_row t1 (final_of ttl r out) (map_option fst (error_of ttl r out))
           (Some (response_json (reply_to ttl r out))) (new_row t0 r ttl)]) \<and>
     (\<exists>es. t_events (w_db w') = t_events (w_db w) @ es \<and> events_of r (trace_of out pub) es) \<and>
     responses w' = responses w @ (if pub then [response_message (reply_to ttl r out)] else [])"

text \<open>The outcome is \<open>None\<close> for an unregistered type, else what the handler did in its time.\<close>

definition outcome_of :: "handler router \<Rightarrow> request \<Rightarrow> int \<Rightarrow> outcome \<Rightarrow> bool" where
  "outcome_of router r ttl out \<longleftrightarrow> (case resolve router (q_type r) of
      None \<Rightarrow> out = None
    | Some h \<Rightarrow> (\<exists>v v' o'. out = Some o' \<and> run_with_timeout (h r) ttl v = (o', v')))"

lemma outcome_not_cancelled: "outcome_of router r ttl out \<Longrightarrow> out \<noteq> Some (Inl Cancelled)"
  by (auto simp: outcome_of_def run_with_timeout_def inc_in_flight_def dec_in_flight_def
      finally_do_def wait_for_def split: option.splits prod.splits sum.splits if_splits)

lemma completed_requests_other:
  "(n, i) \<notin> set (map row_key rows) \<Longrightarrow> completed_requests now i n f p e rows = rows"
  by (induction rows) (auto simp: completed_requests_def row_key_def)

lemma completed_requests_fresh:
  "\<not> has_request d (q_from r) (q_id r) \<Longrightarrow>
     completed_requests now (q_id r) (q_from r) f p e (t_requests d @ [new_row t0 r ttl]) =
     t_requests d @ [complete_row now f e (map_option response_json p) (new_row t0 r ttl)]"
  using completed_requests_other [of "q_from r" "q_id r" "t_requests d" now f p e]
  by (simp add: has_request_def) (simp add: completed_requests_def new_row_def)

lemma trace_of_cases:
  "out \<noteq> Some (Inl Cancelled) \<Longrightarrow> trace_of out pub = RECEIVED #
     (case out of None \<Rightarrow> [VALIDATED, REJECTED]
        | Some o' \<Rightarrow> VALIDATED # HANDLER_STARTED # (if o' = Inl TimeoutError then [TIMEOUT] else []))
     @ (if pub then [RESPONSE_PUBLISHED] else [])"
  by (auto simp: trace_of_def split: option.split sum.split exn.split)

context pipeline
begin

lemma emit_healthy:
  assumes "healthy w" "p_to p \<noteq> []"
  obtains (sent) v where "emit n p w = (Inr (), v)" "healthy v" "t_requests (w_db v) = t_requests (w_db w)"
      "t_events (w_db v) = t_events (w_db w)" "responses v = responses w @ [response_message p]"
  | (unsent) e v where "emit n p w = (Inl e, v)" "e \<noteq> Cancelled" "\<not> live w" "healthy v"
      "t_requests (w_db v) = t_requests (w_db w)" "t_events (w_db v) = t_events (w_db w)"
      "responses v = responses w"
proof -
  obtain res v where v: "emit n p w = (res, v)" by (cases "emit n p w")
  have b: "w_budget v = None" "res \<noteq> Inl Cancelled"
    using emit_budget [OF v] assms(1) by (auto simp: healthy_def)
  note h = aside_host [OF emit_aside v]
  have "healthy v" using assms(1) h b by (simp add: healthy_def)
  show thesis
  proof (cases res)
    case (Inr u)
    then have "emit n p w = (Inr (), v)" using v by simp
    with h \<open>healthy v\<close> emit_sent [OF this assms(2)] show ?thesis by (intro sent) simp_all
  next
    case (Inl e)
    then have e: "emit n p w = (Inl e, v)" using v by simp
    have nl: "\<not> live w" using emit_live [OF _ assms(2), of w n] e by auto
    have "responses v = responses w"
      using emit_unsent [OF e assms(2)] emit_budget [OF v] b Inl by auto
    with h nl \<open>healthy v\<close> b Inl show ?thesis by (intro unsent [OF e]) simp_all
  qed
qed

lemma publish_closed:
  assumes "healthy w" "answers r p" "q_from r \<noteq> []"
  shows "\<exists>w' pub. publish_and_finalize emit r p f e w = (Inr (), w') \<and> closed r p f e [] pub w w'"
proof -
  have to: "p_to p \<noteq> []" using assms by (simp add: answers_def)
  from assms(1) to show ?thesis
  proof (cases rule: emit_healthy [where n = "q_from r"])
    case (sent v)
    from sent(2) obtain u where
        u: "record_event (q_id r) (q_from r) RESPONSE_PUBLISHED None v = (Inr (), u)"
        and l: "logged r [RESPONSE_PUBLISHED] v u"
      by (rule record_event_healthy)
    then have "healthy u" by (simp add: logged_def)
    then obtain now where c: "record_completion (q_id r) (q_from r) f (Some p) e u
        = (Inr (), u\<lparr>w_tick := Suc (w_tick u), w_db := (w_db u)\<lparr>t_requests :=
            completed_requests now (q_id r) (q_from r) f (Some p) e (t_requests (w_db u))\<rparr>\<rparr>)"
      by (rule record_completion_healthy)
    show ?thesis
      using sent u c l \<open>healthy u\<close>
      by (auto simp: publish_and_finalize_def andthen_def catch_exception_def catch_def closed_def
          logged_def healthy_def responses_def intro!: exI [of _ True])
  next
    case (unsent x v)
    from unsent(4) obtain now where c: "record_completion (q_id r) (q_from r) f (Some p) e v
        = (Inr (), v\<lparr>w_tick := Suc (w_tick v), w_db := (w_db v)\<lparr>t_requests :=
            completed_requests now (q_id r) (q_from r) f (Some p) e (t_requests (w_db v))\<rparr>\<rparr>)"
      by (rule record_completion_healthy)
    show ?thesis
      using unsent c
      by (auto simp: publish_and_finalize_def andthen_def catch_exception_def catch_def closed_def
          healthy_def responses_def intro!: exI [of _ False])
  qed
qed

lemma emit_error_closed:
  assumes "healthy w" "q_from r \<noteq> []"
  shows "\<exists>w' pub. emit_error_final emit r c m w = (Inr (), w') \<and>
     closed r (make_error (q_id r) (q_type r) (q_from r) c m) COMPLETED_ERROR (Some c) [] pub w w'"
  unfolding emit_error_final_def using assms by (intro publish_closed) simp_all

lemma event_then_error_closed:
  assumes "healthy w" "q_from r \<noteq> []"
  shows "\<exists>w' pub. andthen (record_event (q_id r) (q_from r) s dt) (\<lambda>_. emit_error_final emit r c m) w
       = (Inr (), w') \<and>
     closed r (make_error (q_id r) (q_type r) (q_from r) c m) COMPLETED_ERROR (Some c) [s] pub w w'"
proof -
  from assms(1) obtain u where u: "record_event (q_id r) (q_from r) s dt w = (Inr (), u)"
      and l: "logged r [s] w u"
    by (rule record_event_healthy)
  then have "healthy u" by (simp add: logged_def)
  from emit_error_closed [OF this assms(2)] closed_after [OF l, where ss = "[]"] u
  show ?thesis by (fastforce simp: andthen_Inr)
qed

lemma finish_closed:
  assumes "healthy w" "q_from r \<noteq> []" "out \<noteq> Inl Cancelled" "\<And>p. out = Inr p \<Longrightarrow> answers r p"
  shows "\<exists>w' pub. finish emit r ttl out w = (Inr (), w') \<and>
     closed r (reply_to ttl r (Some out)) (final_of ttl r (Some out))
       (map_option fst (error_of ttl r (Some out)))
       (if out = Inl TimeoutError then [TIMEOUT] else []) pub w w'"
proof (cases out)
  case (Inr p)
  with publish_closed [OF assms(1) assms(4) assms(2)] show ?thesis
    by (simp add: finish_def reply_to_def final_of_def error_of_def)
next
  case (Inl e)
  show ?thesis
  proof (cases e)
    case (RpcError c m)
    with Inl emit_error_closed [OF assms(1,2)] show ?thesis
      by (simp add: finish_def reply_to_def final_of_def error_of_def)
  next
    case (PyExn n)
    with Inl emit_error_closed [OF assms(1,2)] event_then_error_closed [OF assms(1,2)] show ?thesis
      by (simp add: finish_def reply_to_def final_of_def error_of_def)
  next
    case Cancelled
    with Inl assms(3) show ?thesis by simp
  qed
qed

text \<open>
  A fresh request after its reception: validated, its node marked as seen, routed, and either
  rejected or run under the time limit and finished.
\<close>

lemma run_fresh_closed:
  assumes "healthy w" "q_from r \<noteq> []"
  shows "\<exists>w' out pub. run_fresh router emit ttl r w = (Inr (), w') \<and> outcome_of router r ttl out \<and>
     closed r (reply_to ttl r out) (final_of ttl r out) (map_option fst (error_of ttl r out))
       (case out of None \<Rightarrow> [VALIDATED, REJECTED]
          | Some o' \<Rightarrow> VALIDATED # HANDLER_STARTED # (if o' = Inl TimeoutError then [TIMEOUT] else []))
       pub w w'"
proof -
  from assms(1) obtain w1 where w1: "record_event (q_id r) (q_from r) VALIDATED None w = (Inr (), w1)"
      and l1: "logged r [VALIDATED] w w1"
    by (rule record_event_healthy)
  define w2 where "w2 = w1\<lparr>w_tick := Suc (w_tick w1)\<rparr>"
  have w2: "time_time w1 = (Inr (h_clock (w_host w1) (w_tick w1)), w2)"
    by (simp add: time_time_def w2_def)
  have l2: "logged r [] w1 w2"
    using l1 by (auto simp: logged_def w2_def responses_def healthy_def live_def)
  then have "healthy w2" by (simp add: logged_def)
  then obtain w3 where w3: "mark_node_seen (VStr (q_from r)) (fin_ts (h_clock (w_host w1) (w_tick w1))) w2
      = (Inr (), w3)" and l3: "logged r [] w2 w3"
    by (rule mark_seen_healthy)
  have l: "logged r [VALIDATED] w w3"
    using logged_trans [OF logged_trans [OF l1 l2] l3] by simp
  then have h3: "healthy w3" by (simp add: logged_def)
  note run = run_fresh_def andthen_def w1 w2 w3
  show ?thesis
  proof (cases "resolve router (q_type r)")
    case None
    from event_then_error_closed [OF h3 assms(2), of REJECTED "Some ''unknown_type''" UNKNOWN_TYPE
        "''Unknown request type: '' @ q_type r"]
    obtain w' pub where "andthen (record_event (q_id r) (q_from r) REJECTED (Some ''unknown_type''))
          (\<lambda>_. emit_error_final emit r UNKNOWN_TYPE (''Unknown request type: '' @ q_type r)) w3
        = (Inr (), w')"
      and c: "closed r (make_error (q_id r) (q_type r) (q_from r) UNKNOWN_TYPE
          (''Unknown request type: '' @ q_type r)) COMPLETED_ERROR (Some UNKNOWN_TYPE) [REJECTED] pub w3 w'"
      by blast
    then have "run_fresh router emit ttl r w = (Inr (), w')"
      using None by (simp add: run)
    with None closed_after [OF l c] show ?thesis
      by (intro exI [of _ w'] exI [of _ None] exI [of _ pub])
        (simp add: reply_to_def final_of_def error_of_def outcome_of_def)
  next
    case (Some h)
    from h3 obtain w4 where w4: "record_event (q_id r) (q_from r) HANDLER_STARTED None w3 = (Inr (), w4)"
        and l4: "logged r [HANDLER_STARTED] w3 w4"
      by (rule record_event_healthy)
    then have h4: "healthy w4" by (simp add: logged_def)
    from handlers [OF Some] h4 obtain out w5 where w5: "run_with_timeout (h r) ttl w4 = (out, w5)"
        and l5: "logged r [] w4 w5" and out: "out \<noteq> Inl Cancelled" "\<And>p. out = Inr p \<Longrightarrow> answers r p"
      by (rule run_with_timeout_healthy [where r = r and ttl = ttl]) blast
    then have h5: "healthy w5" by (simp add: logged_def)
    from finish_closed [OF h5 assms(2) out, of ttl] obtain w' pub where
        fin: "finish emit r ttl out w5 = (Inr (), w')"
        and c: "closed r (reply_to ttl r (Some out)) (final_of ttl r (Some out))
           (map_option fst (error_of ttl r (Some out)))
           (if out = Inl TimeoutError then [TIMEOUT] else []) pub w5 w'"
      by blast
    have "run_fresh router emit ttl r w = (Inr (), w')"
      using Some by (simp add: run attempt_def w4 w5 fin)
    moreover have "closed r (reply_to ttl r (Some out)) (final_of ttl r (Some out))
           (map_option fst (error_of ttl r (Some out)))
           (VALIDATED # HANDLER_STARTED # (if out = Inl TimeoutError then [TIMEOUT] else [])) pub w w'"
      using closed_after [OF logged_trans [OF logged_trans [OF l l4] l5] c] by simp
    ultimately show ?thesis
      using Some w5 by (intro exI [of _ w'] exI [of _ "Some out"] exI [of _ pub])
        (auto simp: outcome_of_def)
  qed
qed

lemma process_fresh:
  assumes "healthy w" "q_from r \<noteq> []" "fits64 ttl" "\<not> has_request (w_db w) (q_from r) (q_id r)"
    and ttl: "ttl = resolve_ttl policy (q_type r) (q_ttl r)"
  shows "\<exists>w' out pub. process_request router emit policy r w = (Inr (), w') \<and>
     outcome_of router r ttl out \<and> carried_out r ttl out pub w w' \<and> (live w \<longrightarrow> pub)"
proof -
  let ?now = "h_clock (w_host w) (w_tick w)"
  let ?d = "(w_db w)\<lparr>t_requests := t_requests (w_db w) @ [new_row ?now r ttl],
      t_events := t_events (w_db w) @ [new_event ?now (q_id r) (q_from r) RECEIVED None]\<rparr>"
  define w1 where "w1 = w\<lparr>w_tick := Suc (w_tick w), w_db := ?d\<rparr>"
  have rec: "record_received r ttl w = (Inr True, w1)"
    unfolding record_received_def w1_def
    by (rule store_call_healthy [OF assms(1)]) (simp add: sync_record_received_def assms(3,4))
  have h1: "healthy w1" "live w \<Longrightarrow> live w1"
    using assms(1) by (simp_all add: w1_def healthy_def live_def)
  from run_fresh_closed [OF h1(1) assms(2), of ttl] obtain w' out pub where
      run: "run_fresh router emit ttl r w1 = (Inr (), w')" and out: "outcome_of router r ttl out"
      and c: "closed r (reply_to ttl r out) (final_of ttl r out) (map_option fst (error_of ttl r out))
        (case out of None \<Rightarrow> [VALIDATED, REJECTED]
          | Some o' \<Rightarrow> VALIDATED # HANDLER_STARTED # (if o' = Inl TimeoutError then [TIMEOUT] else []))
        pub w1 w'"
    by blast
  have nc: "out \<noteq> Some (Inl Cancelled)"
    using out by (rule outcome_not_cancelled)
  have "process_request router emit policy r w = (Inr (), w')"
    by (simp add: process_request_def attempt_def andthen_def rec run ttl [symmetric])
  moreover have "carried_out r ttl out pub w w'"
    unfolding carried_out_def
  proof (intro conjI)
    from c obtain now where "t_requests (w_db w') = completed_requests now (q_id r) (q_from r)
        (final_of ttl r out) (Some (reply_to ttl r out)) (map_option fst (error_of ttl r out))
        (t_requests (w_db w1))"
      by (auto simp: closed_def)
    then show "\<exists>t0 t1. t_requests (w_db w') = t_requests (w_db w) @
        [complete_row t1 (final_of ttl r out) (map_option fst (error_of ttl r out))
           (Some (response_json (reply_to ttl r out))) (new_row t0 r ttl)]"
      using completed_requests_fresh [OF assms(4)] by (auto simp: w1_def)
  next
    from c obtain es where "t_events (w_db w') = t_events (w_db w1) @ es"
        "events_of r ((case out of None \<Rightarrow> [VALIDATED, REJECTED]
          | Some o' \<Rightarrow> VALIDATED # HANDLER_STARTED # (if o' = Inl TimeoutError then [TIMEOUT] else []))
          @ (if pub then [RESPONSE_PUBLISHED] else [])) es"
      by (auto simp: closed_def)
    with trace_of_cases [OF nc, of pub]
      events_of_append [OF events_of_one [of r RECEIVED ?now None]]
    show "\<exists>es. t_events (w_db w') = t_events (w_db w) @ es \<and> events_of r (trace_of out pub) es"
      by (intro exI [of _ "new_event ?now (q_id r) (q_from r) RECEIVED None # es"])
        (fastforce simp: w1_def)
  next
    show "responses w' = responses w @ (if pub then [response_message (reply_to ttl r out)] else [])"
      using c by (simp add: closed_def w1_def responses_def)
  qed
  moreover have "live w \<longrightarrow> pub" using c h1 by (simp add: closed_def)
  ultimately show ?thesis using out by blast
qed

lemma process_duplicate:
  assumes "healthy w" "q_from r \<noteq> []" "has_request (w_db w) (q_from r) (q_id r)"
    and "fits64 (resolve_ttl policy (q_type r) (q_ttl r))"
  shows "\<exists>w' pub. process_request router emit policy r w = (Inr (), w') \<and>
     closed r (make_error (q_id r) (q_type r) (q_from r) DUPLICATE
         ''Duplicate request id for this node'')
       COMPLETED_ERROR (Some DUPLICATE) [REJECTED] pub w w'"
proof -
  define w1 where "w1 = w\<lparr>w_tick := Suc (w_tick w)\<rparr>"
  have "record_received r ttl w = (Inr False, w\<lparr>w_tick := Suc (w_tick w), w_db := w_db w\<rparr>)"
    if "fits64 ttl" for ttl
    unfolding record_received_def
    by (rule store_call_healthy [OF assms(1)]) (simp add: sync_record_received_def assms that)
  then have rec: "record_received r ttl w = (Inr False, w1)" if "fits64 ttl" for ttl
    using that by (cases w) (simp add: w1_def)
  have h1: "healthy w1" using assms(1) by (simp add: w1_def healthy_def)
  have l: "logged r [] w w1" using h1 by (simp add: logged_def w1_def responses_def live_def)
  from event_then_error_closed [OF h1 assms(2), of REJECTED "Some ''duplicate''" DUPLICATE]
  obtain w' pub where run: "andthen (record_event (q_id r) (q_from r) REJECTED (Some ''duplicate''))
        (\<lambda>_. emit_error_final emit r DUPLICATE ''Duplicate request id for this node'') w1 = (Inr (), w')"
      and c: "closed r (make_error (q_id r) (q_type r) (q_from r) DUPLICATE
         ''Duplicate request id for this node'')
       COMPLETED_ERROR (Some DUPLICATE) [REJECTED] pub w1 w'"
    by blast
  have "process_request router emit policy r w = (Inr (), w')"
    using run by (simp add: process_request_def Let_def attempt_def andthen_def rec assms(4))
  with closed_after [OF l c] show ?thesis by auto
qed

end

end
