(* ===== verification/StoreProps.thy ===== *)
theory StoreProps
  imports StoreLaws
begin

text \<open>
  The properties of the persistence layer: what a history of operations can make of the tables,
  duplicate detection, the counts, the node registry, last-write-wins and the retention sweep.
\<close>

section \<open>Histories\<close>

inductive store_step :: "store \<Rightarrow> store \<Rightarrow> bool" where
  received: "sync_record_received r ttl now d = Inr (b, d') \<Longrightarrow> store_step d d'"
| event: "sync_record_event i n s dt now d = Inr (u, d') \<Longrightarrow> s \<in> set ALL_EVENT_STATES \<Longrightarrow>
    store_step d d'"
| completion: "sync_record_completion i n f p e now d = Inr (u, d') \<Longrightarrow> f \<in> set ALL_FINAL_STATES \<Longrightarrow>
    store_step d d'"
| seen: "sync_mark_node_seen st v ts d = Inr (u, d') \<Longrightarrow> store_step d d'"
| snapshot: "sync_record_gateway_snapshot st s dt sn now d = Inr (u, d') \<Longrightarrow> store_step d d'"
| location: "sync_upsert_node_location st v fx src ri sr d = Inr (u, d') \<Longrightarrow> store_step d d'"
| battery: "sync_upsert_node_battery st v ts p vo so d = Inr (u, d') \<Longrightarrow> store_step d d'"
| base: "sync_upsert_base_state k val now d = Inr (u, d') \<Longrightarrow> store_step d d'"
| purge: "sync_purge_before c d = Inr (n, d') \<Longrightarrow> store_step d d'"

inductive store_reachable :: "store \<Rightarrow> bool" where
  opened: "store_reachable empty_store"
| step: "store_reachable d \<Longrightarrow> store_step d d' \<Longrightarrow> store_reachable d'"

lemma store_step_ok: "store_step d d' \<Longrightarrow> store_ok d \<Longrightarrow> store_ok d'"
  by (induction rule: store_step.induct)
    (auto dest: store_ok_received store_ok_event store_ok_completion store_ok_purge
       request_tables_frames store_ok_request_tables)

lemma store_reachable_ok: "store_reachable d \<Longrightarrow> store_ok d"
  by (induction rule: store_reachable.induct) (auto intro: store_step_ok)

text \<open>A small history, used by the witnesses: one request from a node, received and completed.\<close>

definition sample_request :: request where
  "sample_request = \<lparr>q_v = 1, q_id = ''r1'', q_type = ''ping'', q_from = ''n1'', q_ttl = None,
     q_args = []\<rparr>"

definition sample_received :: store where
  "sample_received = empty_store\<lparr>t_requests := [new_row 10 sample_request 30],
     t_events := [new_event 10 ''r1'' ''n1'' RECEIVED None]\<rparr>"

definition sample_completed :: store where
  "sample_completed = sample_received\<lparr>t_requests :=
     [complete_row 11 COMPLETED_OK None None (new_row 10 sample_request 30)]\<rparr>"

lemma sample_received_op:
  "sync_record_received sample_request 30 10 empty_store = Inr (True, sample_received)"
  by (simp add: sync_record_received_def fits64_def has_request_def empty_store_def
      sample_received_def sample_request_def)

lemma sample_completed_op:
  "sync_record_completion ''r1'' ''n1'' COMPLETED_OK None None 11 sample_received
     = Inr ((), sample_completed)"
  by (simp add: sync_record_completion_def sample_received_def sample_completed_def new_row_def
      sample_request_def)

lemma sample_received_reachable: "store_reachable sample_received"
  by (rule store_reachable.step [OF store_reachable.opened store_step.received [OF sample_received_op]])

lemma sample_completed_reachable: "store_reachable sample_completed"
  by (rule store_reachable.step [OF sample_received_reachable
        store_step.completion [OF sample_completed_op final_states(1)]])

text \<open>
  Whatever sequence of store operations has run, the request table holds at most one row per
  \<open>(node_id, id)\<close>, a row has a completion time exactly when it has a final state, final states
  are the two of lifecycle.py and logged events carry known states.
\<close>

theorem reachable_store_invariant: "store_reachable d \<Longrightarrow> store_ok d"
  by (rule store_reachable_ok)

theorem reachable_store_invariant_witness: "store_ok sample_completed"
  by (rule reachable_store_invariant [OF sample_completed_reachable])

text \<open>
  \<open>record_received\<close> is fresh exactly once per \<open>(node_id, id)\<close>: it reports a duplicate if
  and only if the key is on record and then changes nothing; otherwise it adds one pending row and
  the \<open>received\<close> event, after which the same key is a duplicate.
\<close>

theorem record_received_dedup:
  assumes "fits64 ttl"
  shows "if has_request d (q_from r) (q_id r) then sync_record_received r ttl now d = Inr (False, d)
    else (\<exists>d'. sync_record_received r ttl now d = Inr (True, d') \<and>
        sync_count_pending d' = sync_count_pending d + 1 \<and>
        t_events d' = t_events d @ [new_event now (q_id r) (q_from r) RECEIVED None] \<and>
        (\<forall>now'. sync_record_received r ttl now' d' = Inr (False, d')))"
  using assms
  by (auto simp: sync_record_received_def has_request_def sync_count_pending_def
      row_key_def new_row_def)

theorem record_received_dedup_witness:
  "sync_record_received sample_request 30 20 sample_completed = Inr (False, sample_completed) \<and>
   (\<exists>d'. sync_record_received sample_request 30 20 empty_store = Inr (True, d') \<and>
        (\<forall>now'. sync_record_received sample_request 30 now' d' = Inr (False, d')))"
proof
  have f: "fits64 30" by (simp add: fits64_def)
  have "has_request sample_completed (q_from sample_request) (q_id sample_request)"
    by (simp add: has_request_def sample_completed_def)
  with record_received_dedup [OF f, of sample_completed sample_request 20]
  show "sync_record_received sample_request 30 20 sample_completed = Inr (False, sample_completed)"
    by simp
  have "\<not> has_request empty_store (q_from sample_request) (q_id sample_request)"
    by (simp add: has_request_def empty_store_def)
  with record_received_dedup [OF f, of empty_store sample_request 20]
  show "\<exists>d'. sync_record_received sample_request 30 20 empty_store = Inr (True, d') \<and>
        (\<forall>now'. sync_record_received sample_request 30 now' d' = Inr (False, d'))"
    by auto
qed

text \<open>
  The node registry is a running maximum: after a node has been marked as seen at any
  finite times, in any order, its stored last-seen time is the latest of them and of what was
  stored before; a late message never moves it back.
\<close>

theorem last_seen_is_maximum:
  assumes "t_nodes d (SText n) = Some (SReal (Fin a))"
  shows "\<exists>d'. sees st n ts d = Inr d' \<and>
     sync_get_last_seen st (VStr n) d' = Inr (Some (Flt (Fin (Max (insert a (set ts))))))"
  using sees_from [OF assms, of st ts] by (auto simp: sync_get_last_seen_def fold_max_Max)

theorem last_seen_is_maximum_witness:
  "\<exists>d'. sees (\<lambda>x. []) ''n1'' [5, 9, 7] (empty_store\<lparr>t_nodes := [SText ''n1'' \<mapsto> SReal (Fin 6)]\<rparr>) = Inr d' \<and>
     sync_get_last_seen (\<lambda>x. []) (VStr ''n1'') d' = Inr (Some (Flt (Fin 9)))"
  using last_seen_is_maximum [of "empty_store\<lparr>t_nodes := [SText ''n1'' \<mapsto> SReal (Fin 6)]\<rparr>" "''n1''" 6
      "\<lambda>x. []"
      "[5, 9, 7]"] by simp

text \<open>
  Node locations are last-write-wins per node: after any run of location upserts that the
  table accepts, a node shows the row of its last upsert, and a node without one shows what it
  showed before.
\<close>

theorem location_last_write_wins:
  assumes "run_ops (map (\<lambda>(n, v). put_location st n v) writes) d = Inr d'"
  shows "sync_get_node_location st (VStr n) d' = (case map_of (rev writes) n of
      Some v \<Rightarrow> Inr (Some (shown_location v)) | None \<Rightarrow> sync_get_node_location st (VStr n) d)"
  by (rule loc_tab.fetch_after_run [OF assms])

definition sample_fix :: location_fix where
  "sample_fix = \<lparr>f_lat = Flt (Fin 28), f_lon = Flt (Fin (- 82)), f_ts = Flt (Fin 100), f_alt = None,
     f_acc = Some NaN, f_fix = Some 3, f_spd = None, f_hdg = None\<rparr>"

theorem location_last_write_wins_witness:
  "\<exists>d'. run_ops (map (\<lambda>(n, v). put_location (\<lambda>x. []) n v)
       [(''a'', (sample_fix, None, None, None)), (''b'', (sample_fix, Some ''report'', None, None))])
       empty_store = Inr d' \<and>
     sync_get_node_location (\<lambda>x. []) (VStr ''b'') d' =
       Inr (Some (shown_location (sample_fix, Some ''report'', None, None)))"
proof -
  let ?w = "[(''a'', (sample_fix, None, None, None)), (''b'', (sample_fix, Some ''report'', None, None))]"
  have "list_all (\<lambda>(n, v). admits_location v) ?w"
    by (simp add: admits_location_def sample_fix_def opt_fits64_def fits64_def)
  then obtain d' where d': "run_ops (map (\<lambda>(n, v). put_location (\<lambda>x. []) n v) ?w) empty_store = Inr d'"
    using loc_tab.run_admitted by blast
  show ?thesis using d' location_last_write_wins [OF d', of "''b''"] by auto
qed

section \<open>Retention\<close>

definition live_ids :: "store \<Rightarrow> string list" where
  "live_ids d = map r_id (t_requests d)"

definition untouched_by_purge :: "store \<Rightarrow> store \<Rightarrow> bool" where
  "untouched_by_purge d d' \<longleftrightarrow> t_nodes d' = t_nodes d \<and> t_locations d' = t_locations d \<and>
     t_battery d' = t_battery d \<and> t_base d' = t_base d"

text \<open>
  The retention sweep deletes exactly the requests completed before the cutoff and reports
  how many they were, so a pending request is never deleted, however old. A logged event goes
  exactly when it is older than the cutoff and no surviving request carries its id. Sweeping again
  with the same cutoff deletes nothing, and the registry, location, battery and base tables are
  not touched.
\<close>

theorem purge_exact:
  "case sync_purge_before c d of Inl e \<Rightarrow> False
   | Inr (n, d') \<Rightarrow>
      (\<forall>r. r \<in> set (t_requests d') \<longleftrightarrow>
         r \<in> set (t_requests d) \<and> (case r_completed r of None \<Rightarrow> True | Some t \<Rightarrow> c \<le> t)) \<and>
      n = int (length (t_requests d)) - int (length (t_requests d')) \<and>
      (\<forall>e. e \<in> set (t_events d') \<longleftrightarrow>
         e \<in> set (t_events d) \<and> (c \<le> e_ts e \<or> e_request e \<in> set (live_ids d'))) \<and>
      sync_purge_before c d' = Inr (0, d') \<and> untouched_by_purge d d'"
proof -
  let ?left = "filter (\<lambda>r. \<not> purgeable c r) (t_requests d)"
  have n: "int (length (filter (purgeable c) (t_requests d))) =
      int (length (t_requests d)) - int (length ?left)"
    using length_filter_split [of "purgeable c" "t_requests d"] by linarith
  have p: "purgeable c r \<longleftrightarrow> \<not> (case r_completed r of None \<Rightarrow> True | Some t \<Rightarrow> c \<le> t)" for r
    by (auto simp: purgeable_def split: option.splits)
  show ?thesis
    by (auto simp: sync_purge_before_def Let_def n p live_ids_def untouched_by_purge_def
        filter_empty_conv split: option.splits)
qed

text \<open>
  Sweeps compose: two successive sweeps with growing cutoffs leave the store a single sweep
  with the later cutoff leaves, and delete as many requests together. An hourly sweeper therefore
  keeps the same rows as one that runs once.
\<close>

theorem purge_compose:
  assumes "c \<le> c'"
  shows "case sync_purge_before c d of Inl e \<Rightarrow> False
   | Inr (n, d1) \<Rightarrow> (case sync_purge_before c' d1 of Inl e \<Rightarrow> False
       | Inr (n', d2) \<Rightarrow> sync_purge_before c' d = Inr (n + n', d2))"
proof -
  let ?P = "purgeable c" and ?P' = "purgeable c'" and ?rs = "t_requests d"
  have mono: "?P r \<Longrightarrow> ?P' r" for r
    using assms by (auto simp: purgeable_def split: option.splits)
  have both: "(\<not> ?P r \<and> \<not> ?P' r) = (\<not> ?P' r)" for r using mono by blast
  have n: "length (filter ?P' ?rs) = length (filter ?P ?rs) + length (filter (\<lambda>r. \<not> ?P r \<and> ?P' r) ?rs)"
    by (rule length_filter_refine) (rule mono)
  have ev: "((e_ts e < c \<longrightarrow> e_request e \<in> r_id ` {r \<in> set ?rs. \<not> ?P r}) \<and>
       (e_ts e < c' \<longrightarrow> e_request e \<in> r_id ` {r \<in> set ?rs. \<not> ?P' r})) =
      (e_ts e < c' \<longrightarrow> e_request e \<in> r_id ` {r \<in> set ?rs. \<not> ?P' r})" for e
    using assms mono by fastforce
  have sn: "(\<not> x < c \<and> \<not> x < c') = (\<not> x < c')" for x :: real using assms by linarith
  show ?thesis
    by (simp add: sync_purge_before_def Let_def n both ev sn)
qed

theorem purge_compose_witness:
  "case sync_purge_before 5 sample_completed of Inl e \<Rightarrow> False
   | Inr (n, d1) \<Rightarrow> (case sync_purge_before 12 d1 of Inl e \<Rightarrow> False
       | Inr (n', d2) \<Rightarrow> sync_purge_before 12 sample_completed = Inr (n + n', d2))"
  using purge_compose [of 5 12 sample_completed] by simp

end
