(* ===== verification/PipelineProps.thy ===== *)
theory PipelineProps
  imports Refinement StoreProps
begin

text \<open>
  The pipeline of the service as it is deployed: the default handlers behind \<open>Service._emit\<close>,
  with the default or any other policy. The theorems of \<open>Pipeline\<close> and \<open>Refinement\<close> are read
  off through the interpretation below.
\<close>

section \<open>The interpretation\<close>

lemma resolve_default: "resolve DEFAULT_HANDLERS t = Some h \<Longrightarrow> handler_ok h"
  using resolve_make_router [OF default_router, of t h]
  by (auto simp: DEFAULT_HANDLERS_def default_handlers_ok)

lemma service_emit_eq:
  "p_to p \<noteq> [] \<Longrightarrow> service_emit n p =
     bus_publish (RPC_RESPONSE_PREFIX @ ''/'' @ p_to p) (response_json p) False"
  by (simp add: service_emit_def response_to_outbound_def rpc_response_topic_def)

lemma aside_service_emit: "aside (service_emit n p)"
  unfolding service_emit_def by (intro evolves_intros)

lemma service_emit_cases:
  assumes "service_emit n p w = (res, w')"
  obtains t where "rpc_response_topic (if p_to p \<noteq> [] then p_to p else n) = Inr t"
      "bus_publish t (response_json p) False w = (res, w')"
  | "res = Inl (PyExn ''ValueError'')" "w' = w"
  using assms
  by (auto simp: service_emit_def response_to_outbound_def andthen_def rpc_response_topic_def
      split: if_splits)

interpretation dflt: pipeline DEFAULT_HANDLERS service_emit
proof unfold_locales
  show "handler_ok h" if "resolve DEFAULT_HANDLERS t = Some h" for t h
    using that by (rule resolve_default)
  show "aside (service_emit n p)" for n p by (rule aside_service_emit)
  show "responses w' = responses w @ [response_message p]"
    if "service_emit n p w = (Inr (), w')" "p_to p \<noteq> []" for n p w w'
    using that
    by (cases w) (auto simp: service_emit_eq bus_publish_def awaiting_def Let_def responses_def
        response_message_def is_response_def RPC_RESPONSE_PREFIX_def split: if_splits option.splits)
  show "responses w' = responses w \<or> e = Cancelled \<and> responses w' = responses w @ [response_message p]"
    if "service_emit n p w = (Inl e, w')" "p_to p \<noteq> []" for n p w e w'
    using that
    by (cases w) (auto simp: service_emit_eq bus_publish_def awaiting_def Let_def responses_def
        response_message_def is_response_def RPC_RESPONSE_PREFIX_def split: if_splits option.splits)
  show "w_budget w' = None \<and> res \<noteq> Inl Cancelled"
    if "service_emit n p w = (res, w')" "w_budget w = None" for n p w res w'
    using that(1)
    by (rule service_emit_cases)
      (use that(2) in \<open>auto simp: bus_publish_def Let_def split: if_splits\<close>)
  show "\<exists>w'. service_emit n p w = (Inr (), w')" if "live w" "p_to p \<noteq> []" for w p n
    using that by (auto simp: service_emit_eq bus_publish_def live_def Let_def)
qed

section \<open>A concrete outside for the witnesses\<close>

definition sample_host :: host where
  "sample_host = \<lparr>h_clock = (\<lambda>t. 100 + real t), h_db_ok = (\<lambda>t. True), h_mqtt_ok = (\<lambda>t. True),
     h_cut = (\<lambda>t ttl. None), h_lands = (\<lambda>t. False), h_float_repr = (\<lambda>f. []), h_sql_text = (\<lambda>x. []),
     h_lax_int = (\<lambda>v. case v of VInt n \<Rightarrow> Some n | _ \<Rightarrow> None)\<rparr>"

definition sample_world :: world where
  "sample_world = \<lparr>w_host = sample_host, w_tick = 0, w_budget = None, w_db = empty_store,
     w_radio = Map.empty, w_sent = [], w_connected = True, w_in_flight = 0,
     w_gateway = \<lparr>c_state = VNone, c_detail = VNone, c_since = VNone, c_snapped_at = None\<rparr>\<rparr>"

lemma sample_live [simp]: "live sample_world" and sample_healthy [simp]: "healthy sample_world"
  by (simp_all add: live_def healthy_def sample_world_def sample_host_def)

lemma sample_ttl: "fits64 (resolve_ttl default_policy (q_type r) None)"
  by (simp add: fits64_def resolve_ttl_def default_policy_def)

lemma sample_request_fields [simp]:
  "q_from sample_request = ''n1''" "q_id sample_request = ''r1''" "q_ttl sample_request = None"
  "q_type sample_request = ''ping''"
  by (simp_all add: sample_request_def)

section \<open>Properties\<close>

text \<open>
  C1. A fresh request on a database that answers: \<open>process_request\<close> returns, the request's row is
  there and completed, with the final state, the error code and the response of the specification
  for the outcome (no handler, handler result, RPC error, time-out or crash); the event log grew by
  exactly the trace of that outcome; and what went out is exactly that response, once, or nothing,
  and always once when the broker takes it.
\<close>

theorem fresh_request_carried_out:
  assumes "healthy w" "q_from r \<noteq> []" "\<not> has_request (w_db w) (q_from r) (q_id r)"
    and "fits64 (resolve_ttl policy (q_type r) (q_ttl r))"
  shows "\<exists>w' out pub. process_request DEFAULT_HANDLERS service_emit policy r w = (Inr (), w') \<and>
     outcome_of DEFAULT_HANDLERS r (resolve_ttl policy (q_type r) (q_ttl r)) out \<and>
     carried_out r (resolve_ttl policy (q_type r) (q_ttl r)) out pub w w' \<and> (live w \<longrightarrow> pub)"
  by (rule dflt.process_fresh [OF assms(1,2,4,3) refl])

theorem fresh_request_carried_out_witness:
  "\<exists>w' out pub. process_request DEFAULT_HANDLERS service_emit default_policy sample_request sample_world
       = (Inr (), w') \<and>
     outcome_of DEFAULT_HANDLERS sample_request 30 out \<and>
     carried_out sample_request 30 out pub sample_world w' \<and> pub"
proof -
  have "\<not> has_request (w_db sample_world) (q_from sample_request) (q_id sample_request)"
    by (simp add: has_request_def sample_world_def empty_store_def)
  moreover have "resolve_ttl default_policy (q_type sample_request) (q_ttl sample_request) = 30"
    by (simp add: resolve_ttl_def default_policy_def)
  ultimately show ?thesis
    using fresh_request_carried_out [of sample_world sample_request default_policy] sample_ttl
    by (auto simp: fits64_def)
qed

text \<open>
  C3. Whatever the database and the broker do, a request gets at most one response, on its own
  sender's topic, carrying its own id and type; handlers and aggregator never speak on a response
  topic.
\<close>

theorem at_most_one_response:
  assumes "q_from r \<noteq> []" "process_request DEFAULT_HANDLERS service_emit policy r w = (res, w')"
  shows "responses w' = responses w \<or>
     (\<exists>p. answers r p \<and> responses w' = responses w @ [response_message p])"
  using evolvesD [OF dflt.process_replied [OF assms(1)] assms(2)] by (simp add: replied_def)

theorem at_most_one_response_witness:
  "\<exists>w'. process_request DEFAULT_HANDLERS service_emit default_policy sample_request
        (sample_world\<lparr>w_connected := False\<rparr>) = (Inr (), w') \<and>
     (responses w' = [] \<or> (\<exists>p. answers sample_request p \<and> responses w' = [response_message p]))"
proof -
  let ?w = "sample_world\<lparr>w_connected := False\<rparr>"
  have "healthy ?w" by (simp add: healthy_def sample_world_def sample_host_def)
  moreover have "\<not> has_request (w_db ?w) (q_from sample_request) (q_id sample_request)"
    by (simp add: has_request_def sample_world_def empty_store_def)
  moreover have "q_from sample_request \<noteq> []" "fits64 30"
      "30 = resolve_ttl default_policy (q_type sample_request) (q_ttl sample_request)"
    by (simp_all add: resolve_ttl_def default_policy_def fits64_def)
  ultimately obtain w' where
      run: "process_request DEFAULT_HANDLERS service_emit default_policy sample_request ?w = (Inr (), w')"
    using dflt.process_fresh by blast
  have "responses ?w = []" by (simp add: responses_def sample_world_def)
  with at_most_one_response [OF _ run] have "responses w' = [] \<or>
      (\<exists>p. answers sample_request p \<and> responses w' = [response_message p])" by simp
  with run show ?thesis by blast
qed

text \<open>
  C4. A replayed request id: no handler runs, the reply is the \<open>duplicate\<close> error, only the
  \<open>rejected\<close> event (and the publication) is logged, and no row is added. The row of the first
  request does not survive it: its final state, its error code and its response are overwritten
  with those of the duplicate, whatever they were.
\<close>

theorem duplicate_replay:
  assumes "healthy w" "q_from r \<noteq> []" "has_request (w_db w) (q_from r) (q_id r)"
    and "fits64 (resolve_ttl policy (q_type r) (q_ttl r))"
  shows "\<exists>w' pub es. process_request DEFAULT_HANDLERS service_emit policy r w = (Inr (), w') \<and>
     responses w' = responses w @ (if pub then [response_message (make_error (q_id r) (q_type r)
        (q_from r) DUPLICATE ''Duplicate request id for this node'')] else []) \<and>
     (live w \<longrightarrow> pub) \<and>
     t_events (w_db w') = t_events (w_db w) @ es \<and>
     events_of r (REJECTED # (if pub then [RESPONSE_PUBLISHED] else [])) es \<and>
     map row_key (t_requests (w_db w')) = map row_key (t_requests (w_db w)) \<and>
     (\<forall>row \<in> set (t_requests (w_db w')). row_key row = (q_from r, q_id r) \<longrightarrow>
        r_final row = Some COMPLETED_ERROR \<and> r_error row = Some DUPLICATE)"
proof -
  from dflt.process_duplicate [OF assms] obtain w' pub where
      run: "process_request DEFAULT_HANDLERS service_emit policy r w = (Inr (), w')"
      and c: "closed r (make_error (q_id r) (q_type r) (q_from r) DUPLICATE
         ''Duplicate request id for this node'') COMPLETED_ERROR (Some DUPLICATE) [REJECTED] pub w w'"
    by blast
  from c obtain es where es: "t_events (w_db w') = t_events (w_db w) @ es"
      "events_of r (REJECTED # (if pub then [RESPONSE_PUBLISHED] else [])) es"
    by (auto simp: closed_def)
  from c obtain now where rows: "t_requests (w_db w') = completed_requests now (q_id r) (q_from r)
      COMPLETED_ERROR (Some (make_error (q_id r) (q_type r) (q_from r) DUPLICATE
         ''Duplicate request id for this node'')) (Some DUPLICATE) (t_requests (w_db w))"
    by (auto simp: closed_def)
  then have keys: "map row_key (t_requests (w_db w')) = map row_key (t_requests (w_db w))" by simp
  have "r_final row = Some COMPLETED_ERROR \<and> r_error row = Some DUPLICATE"
    if "row \<in> set (t_requests (w_db w'))" "row_key row = (q_from r, q_id r)" for row
    using that unfolding rows
    by (auto simp: completed_requests_def complete_row_def row_key_def split: if_splits)
  with run es keys c show ?thesis
    by (intro exI [of _ w'] exI [of _ pub] exI [of _ es]) (simp add: closed_def)
qed

definition replayed_world :: world where
  "replayed_world = sample_world\<lparr>w_db := sample_completed\<rparr>"

theorem duplicate_replay_witness:
  "map r_final (t_requests (w_db replayed_world)) = [Some COMPLETED_OK] \<and>
   (\<exists>w'. process_request DEFAULT_HANDLERS service_emit default_policy sample_request replayed_world
        = (Inr (), w') \<and> map r_final (t_requests (w_db w')) = [Some COMPLETED_ERROR])"
proof -
  have h: "healthy replayed_world" and q: "q_from sample_request \<noteq> []"
      and d: "has_request (w_db replayed_world) (q_from sample_request) (q_id sample_request)"
    by (simp_all add: healthy_def replayed_world_def sample_world_def sample_host_def has_request_def
        sample_completed_def)
  have t: "fits64 (resolve_ttl default_policy (q_type sample_request) (q_ttl sample_request))"
    by (simp add: fits64_def resolve_ttl_def default_policy_def)
  have rows: "map row_key (t_requests (w_db replayed_world)) = [(''n1'', ''r1'')]"
    by (simp add: replayed_world_def sample_completed_def)
  from duplicate_replay [OF h q d t] rows obtain w' where
      run: "process_request DEFAULT_HANDLERS service_emit default_policy sample_request replayed_world
        = (Inr (), w')"
      and keys: "map row_key (t_requests (w_db w')) = [(''n1'', ''r1'')]"
      and err: "\<And>row. row \<in> set (t_requests (w_db w')) \<Longrightarrow> row_key row = (''n1'', ''r1'') \<Longrightarrow>
        r_final row = Some COMPLETED_ERROR"
    by auto
  from keys obtain row where "t_requests (w_db w') = [row]" "row_key row = (''n1'', ''r1'')"
    by (auto simp: map_eq_Cons_conv)
  with run err show ?thesis
    by (auto simp: replayed_world_def sample_completed_def complete_row_def)
qed



text \<open>
  C33. The documented "never raises" holds only up to the first store call: when the database takes
  the reception of a fresh request and fails on the next statement, \<open>process_request\<close> raises the
  error to its caller, the request stays pending and no response is sent.
\<close>

theorem store_failure_escapes:
  assumes "w_budget w = None" "h_db_ok (w_host w) (w_tick w)" "\<not> h_db_ok (w_host w) (Suc (w_tick w))"
    and "\<not> has_request (w_db w) (q_from r) (q_id r)"
    and "fits64 (resolve_ttl policy (q_type r) (q_ttl r))"
  shows "\<exists>w' row. process_request DEFAULT_HANDLERS service_emit policy r w
       = (Inl (PyExn ''OperationalError''), w') \<and> responses w' = responses w \<and>
     t_requests (w_db w') = t_requests (w_db w) @ [row] \<and> r_final row = None"
  using assms
  by (simp add: process_request_def run_fresh_def attempt_def andthen_def record_received_def
      record_event_def store_call_def sync_record_received_def Let_def responses_def new_row_def)

theorem store_failure_escapes_witness:
  "\<exists>w' row. process_request DEFAULT_HANDLERS service_emit default_policy sample_request
       (sample_world\<lparr>w_host := sample_host\<lparr>h_db_ok := (\<lambda>t. t = 0)\<rparr>\<rparr>)
       = (Inl (PyExn ''OperationalError''), w') \<and> responses w' = [] \<and>
     t_requests (w_db w') = [row] \<and> r_final row = None"
  using store_failure_escapes [of "sample_world\<lparr>w_host := sample_host\<lparr>h_db_ok := (\<lambda>t. t = 0)\<rparr>\<rparr>"
      sample_request default_policy]
  by (simp add: sample_world_def empty_store_def has_request_def responses_def fits64_def
      resolve_ttl_def default_policy_def)

end
