(* ===== verification/Coroutines.thy ===== *)
theory Coroutines
  imports World
begin

text \<open>
  Coroutines cut where they await. A \<open>prog\<close> runs from its beginning to its end; a \<open>co\<close> hands
  control back after each await, so that other tasks can run in between, and goes on from where it
  stopped with whatever world it then finds. Run without interruption it is the \<open>prog\<close> again.
\<close>

section \<open>The type\<close>

text \<open>\<open>Run f\<close>: one step, up to the end of the next await; what remains is a coroutine again.\<close>

datatype 'a co = Ended "exn + 'a" | Run "world \<Rightarrow> 'a co \<times> world"

definition await :: "(world, 'a) prog \<Rightarrow> 'a co" where
  "await m = Run (\<lambda>w. case m w of (out, w') \<Rightarrow> (Ended out, w'))"

text \<open>\<open>step m k\<close>: one step, and then \<open>k\<close> on its outcome, an exception included.\<close>

definition step :: "(world, 'a) prog \<Rightarrow> (exn + 'a \<Rightarrow> 'b co) \<Rightarrow> 'b co" where
  "step m k = Run (\<lambda>w. case m w of (out, w') \<Rightarrow> (k out, w'))"

primrec co_then :: "'a co \<Rightarrow> (exn + 'a \<Rightarrow> 'b co) \<Rightarrow> 'b co" where
  "co_then (Ended out) k = k out"
| "co_then (Run f) k = Run (map_prod (\<lambda>c. co_then c k) id \<circ> f)"

abbreviation co_ret :: "'a \<Rightarrow> 'a co" where "co_ret x \<equiv> Ended (Inr x)"

abbreviation co_raise :: "exn \<Rightarrow> 'a co" where "co_raise e \<equiv> Ended (Inl e)"

primrec co_bind :: "'a co \<Rightarrow> ('a \<Rightarrow> 'b co) \<Rightarrow> 'b co" where
  "co_bind (Ended out) k = (case out of Inl e \<Rightarrow> Ended (Inl e) | Inr x \<Rightarrow> k x)"
| "co_bind (Run f) k = Run (map_prod (\<lambda>c. co_bind c k) id \<circ> f)"

text \<open>\<open>try: c finally: m\<close>, where \<open>m\<close> is one step.\<close>

primrec co_finally :: "'a co \<Rightarrow> (world, unit) prog \<Rightarrow> 'a co" where
  "co_finally (Ended out) m = Run (\<lambda>w. case m w of (r, w') \<Rightarrow>
     (Ended (case r of Inl e \<Rightarrow> Inl e | Inr _ \<Rightarrow> out), w'))"
| "co_finally (Run f) m = Run (map_prod (\<lambda>c. co_finally c m) id \<circ> f)"

section \<open>The time limit (timeouts/tracker.py)\<close>

text \<open>
  Each task has a time limit of its own: what is left of it is put into the world for the length of
  a step and taken out again.
\<close>

definition timed_out :: "exn + 'a \<Rightarrow> exn + 'a" where
  "timed_out out = (case out of Inl e \<Rightarrow> Inl (if e = Cancelled then TimeoutError else e) | Inr x \<Rightarrow> Inr x)"

primrec limited :: "'a co \<Rightarrow> nat option \<Rightarrow> 'a co" where
  "limited (Ended out) = (\<lambda>b. Ended (timed_out out))"
| "limited (Run f) = (\<lambda>b. Run (\<lambda>w. (\<lambda>(c, w'). (c (w_budget w'), w'\<lparr>w_budget := None\<rparr>))
     ((map_prod limited id \<circ> f) (w\<lparr>w_budget := b\<rparr>))))"

definition co_wait_for :: "'a co \<Rightarrow> int \<Rightarrow> 'a co" where
  "co_wait_for c ttl = Run (\<lambda>w.
     (limited c (h_cut (w_host w) (w_tick w) ttl), w\<lparr>w_tick := Suc (w_tick w), w_budget := None\<rparr>))"

definition co_run_with_timeout :: "'a co \<Rightarrow> int \<Rightarrow> 'a co" where
  "co_run_with_timeout c ttl = co_bind (await inc_in_flight) (\<lambda>_. co_finally (co_wait_for c ttl) dec_in_flight)"

section \<open>Without interruption\<close>

primrec co_run :: "'a co \<Rightarrow> (world, 'a) prog" where
  "co_run (Ended out) = (\<lambda>w. (out, w))"
| "co_run (Run f) = (\<lambda>w. (\<lambda>(c, w'). c w') ((map_prod co_run id \<circ> f) w))"

named_theorems co_run_simps \<open>running a coroutine without interruption\<close>

lemma co_run_await [co_run_simps]: "co_run (await m) = m"
  by (rule ext) (simp add: await_def split: prod.split)

lemma co_run_Ended [co_run_simps]: "co_run (co_ret x) = ret x" "co_run (co_raise e) = raise e"
  by (rule ext, simp)+

lemma co_run_bind [co_run_simps]: "co_run (co_bind c k) = andthen (co_run c) (\<lambda>x. co_run (k x))"
proof (induction c)
  case (Ended out)
  show ?case by (rule ext) (simp add: andthen_def split: sum.split)
next
  case (Run f)
  have "co_run (co_bind (Run f) k) w = andthen (co_run (Run f)) (\<lambda>x. co_run (k x)) w" for w
  proof -
    obtain c v where c: "f w = (c, v)" by (cases "f w")
    then have "c \<in> Basic_BNFs.fsts (f w)" by simp
    with Run.IH [OF rangeI [of f w]] c show ?thesis by (simp add: andthen_def)
  qed
  then show ?case by (rule ext)
qed

lemma co_run_step: "co_run (step m k) w = (case m w of (out, w') \<Rightarrow> co_run (k out) w')"
  by (simp add: step_def split: prod.split)

lemma co_run_then: "co_run (co_then c k) w = (case co_run c w of (out, w') \<Rightarrow> co_run (k out) w')"
proof (induction c arbitrary: w)
  case (Run f)
  obtain c v where c: "f w = (c, v)" by (cases "f w")
  then have "c \<in> Basic_BNFs.fsts (f w)" by simp
  from Run.IH [OF rangeI [of f w] this, of v] c show ?case by simp
qed simp

lemma co_run_finally: "co_run (co_finally c m) = finally_do (co_run c) m"
proof (induction c)
  case (Ended out)
  show ?case by (rule ext) (simp add: finally_do_def split: prod.split sum.split)
next
  case (Run f)
  have "co_run (co_finally (Run f) m) w = finally_do (co_run (Run f)) m w" for w
  proof -
    obtain c v where c: "f w = (c, v)" by (cases "f w")
    then have "c \<in> Basic_BNFs.fsts (f w)" by simp
    with Run.IH [OF rangeI [of f w]] c show ?thesis by (simp add: finally_do_def)
  qed
  then show ?case by (rule ext)
qed

lemma co_run_if [co_run_simps]: "co_run (if b then c else d) = (if b then co_run c else co_run d)"
  by simp

lemma co_run_option [co_run_simps]:
  "co_run (case x of None \<Rightarrow> c | Some y \<Rightarrow> d y) = (case x of None \<Rightarrow> co_run c | Some y \<Rightarrow> co_run (d y))"
  by (simp split: option.split)

lemma co_run_prod [co_run_simps]: "co_run (case p of (x, y) \<Rightarrow> c x y) = (case p of (x, y) \<Rightarrow> co_run (c x y))"
  by (simp split: prod.split)

lemma co_run_limited:
  "w_budget w = None \<Longrightarrow> co_run (limited c b) w =
     (case co_run c (w\<lparr>w_budget := b\<rparr>) of (out, w') \<Rightarrow> (timed_out out, w'\<lparr>w_budget := None\<rparr>))"
proof (induction c arbitrary: b w)
  case (Ended out)
  then show ?case by (cases w) simp
next
  case (Run f)
  obtain c v where c: "f (w\<lparr>w_budget := b\<rparr>) = (c, v)" by (cases "f (w\<lparr>w_budget := b\<rparr>)")
  then have "c \<in> Basic_BNFs.fsts (f (w\<lparr>w_budget := b\<rparr>))" by simp
  from Run.IH [OF rangeI this, of "v\<lparr>w_budget := None\<rparr>" "w_budget v"] c show ?case by simp
qed

lemma co_run_wait_for: "co_run (co_wait_for c ttl) = wait_for (co_run c) ttl"
  by (rule ext) (simp add: co_wait_for_def wait_for_def co_run_limited timed_out_def)

lemma co_run_timeout [co_run_simps]: "co_run (co_run_with_timeout c ttl) = run_with_timeout (co_run c) ttl"
  by (simp add: co_run_with_timeout_def run_with_timeout_def co_run_simps co_run_finally co_run_wait_for)

section \<open>What holds of every step and every result\<close>

inductive co_all :: "(world \<Rightarrow> world \<Rightarrow> bool) \<Rightarrow> (exn + 'a \<Rightarrow> bool) \<Rightarrow> 'a co \<Rightarrow> bool" for R Q where
  all_Ended: "Q out \<Longrightarrow> co_all R Q (Ended out)"
| all_Run: "(\<And>w c w'. f w = (c, w') \<Longrightarrow> R w w' \<and> co_all R Q c) \<Longrightarrow> co_all R Q (Run f)"

inductive_cases co_all_EndedE: "co_all R Q (Ended out)"
inductive_cases co_all_RunE: "co_all R Q (Run f)"

named_theorems co_intros \<open>every step and every result of a coroutine\<close>

lemma co_all_mono: "co_all R Q c \<Longrightarrow> (\<And>w w'. R w w' \<Longrightarrow> R' w w') \<Longrightarrow> (\<And>out. Q out \<Longrightarrow> Q' out) \<Longrightarrow> co_all R' Q' c"
  by (induction rule: co_all.induct) (auto intro: co_all.intros)

lemma all_await: "evolves R m \<Longrightarrow> (\<And>w out w'. m w = (out, w') \<Longrightarrow> Q out) \<Longrightarrow> co_all R Q (await m)"
  unfolding await_def by (rule all_Run) (auto intro: all_Ended dest: evolvesD split: prod.splits)

lemma all_bind:
  "co_all R P c \<Longrightarrow> (\<And>e. P (Inl e) \<Longrightarrow> Q (Inl e)) \<Longrightarrow> (\<And>x. P (Inr x) \<Longrightarrow> co_all R Q (k x)) \<Longrightarrow>
     co_all R Q (co_bind c k)"
proof (induction rule: co_all.induct)
  case (all_Ended out)
  then show ?case by (cases out) (auto intro: co_all.all_Ended)
next
  case (all_Run f)
  show ?case unfolding co_bind.simps
    by (rule co_all.all_Run) (use all_Run in \<open>auto simp: map_prod_def split: prod.splits\<close>)
qed

lemma all_step:
  "evolves R m \<Longrightarrow> (\<And>w out w'. m w = (out, w') \<Longrightarrow> co_all R Q (k out)) \<Longrightarrow> co_all R Q (step m k)"
  unfolding step_def by (rule all_Run) (auto split: prod.splits dest: evolvesD)

lemma all_then: "co_all R P c \<Longrightarrow> (\<And>out. P out \<Longrightarrow> co_all R Q (k out)) \<Longrightarrow> co_all R Q (co_then c k)"
proof (induction rule: co_all.induct)
  case (all_Run f)
  show ?case unfolding co_then.simps
    by (rule co_all.all_Run) (use all_Run in \<open>auto simp: map_prod_def split: prod.splits\<close>)
qed simp

lemma all_finally:
  "co_all R Q c \<Longrightarrow> evolves R m \<Longrightarrow> (\<And>w e w'. m w = (Inl e, w') \<Longrightarrow> Q (Inl e)) \<Longrightarrow> co_all R Q (co_finally c m)"
proof (induction rule: co_all.induct)
  case (all_Ended out)
  show ?case unfolding co_finally.simps
    by (rule co_all.all_Run)
      (use all_Ended in \<open>auto split: prod.splits sum.splits intro!: co_all.all_Ended dest: evolvesD\<close>)
next
  case (all_Run f)
  show ?case unfolding co_finally.simps
    by (rule co_all.all_Run) (use all_Run in \<open>auto simp: map_prod_def split: prod.splits\<close>)
qed

text \<open>A relation that does not see what is left of a time limit.\<close>

definition budget_blind :: "(world \<Rightarrow> world \<Rightarrow> bool) \<Rightarrow> bool" where
  "budget_blind R \<longleftrightarrow> (\<forall>w w' b b'. R w w' \<longrightarrow> R (w\<lparr>w_budget := b\<rparr>) (w'\<lparr>w_budget := b'\<rparr>))"

lemma all_limited:
  assumes "co_all R Q c" "budget_blind R" "\<And>out. Q out \<Longrightarrow> Q' (timed_out out)"
  shows "co_all R Q' (limited c b)"
  using assms(1)
proof (induction arbitrary: b rule: co_all.induct)
  case (all_Ended out)
  with assms(3) show ?case by (auto intro: co_all.all_Ended)
next
  case (all_Run f)
  show ?case unfolding limited.simps
  proof (rule co_all.all_Run)
    fix w c' w'
    assume run: "(\<lambda>(c, w'). (c (w_budget w'), w'\<lparr>w_budget := None\<rparr>)) ((map_prod limited id \<circ> f) (w\<lparr>w_budget := b\<rparr>))
        = (c', w')"
    obtain c v where c: "f (w\<lparr>w_budget := b\<rparr>) = (c, v)" by (cases "f (w\<lparr>w_budget := b\<rparr>)")
    with run have c': "c' = limited c (w_budget v)" "w' = v\<lparr>w_budget := None\<rparr>" by auto
    have "R (w\<lparr>w_budget := b\<rparr>\<lparr>w_budget := w_budget w\<rparr>) (v\<lparr>w_budget := None\<rparr>)"
      using all_Run [OF c] assms(2) unfolding budget_blind_def by blast
    moreover have "w\<lparr>w_budget := b\<rparr>\<lparr>w_budget := w_budget w\<rparr> = w" by (cases w) simp
    ultimately show "R w w' \<and> co_all R Q' c'"
      using all_Run [OF c] unfolding c' by simp
  qed
qed

lemma all_wait_for:
  assumes "co_all R Q c" "budget_blind R" "\<And>out. Q out \<Longrightarrow> Q' (timed_out out)"
    and "\<And>w t b. R w (w\<lparr>w_tick := t, w_budget := b\<rparr>)"
  shows "co_all R Q' (co_wait_for c ttl)"
  unfolding co_wait_for_def
  by (rule all_Run) (use assms(4) in \<open>auto intro: all_limited [OF assms(1,2)] assms(3)\<close>)

section \<open>How many steps a coroutine takes\<close>

inductive co_lasts :: "nat \<Rightarrow> 'a co \<Rightarrow> bool" where
  co_lasts_Ended: "co_lasts n (Ended out)"
| co_lasts_Run: "(\<And>w. co_lasts n (fst (f w))) \<Longrightarrow> co_lasts (Suc n) (Run f)"

inductive_cases co_lasts_RunE: "co_lasts n (Run f)"

lemma co_lasts_mono: "co_lasts n c \<Longrightarrow> n \<le> n' \<Longrightarrow> co_lasts n' c"
proof (induction arbitrary: n' rule: co_lasts.induct)
  case (co_lasts_Run n f)
  then obtain j where "n' = Suc j" "n \<le> j" by (cases n') auto
  with co_lasts_Run.IH show ?case by (auto intro: co_lasts.co_lasts_Run)
qed (rule co_lasts_Ended)

lemma co_lasts_await: "co_lasts (Suc n) (await m)"
  unfolding await_def by (rule co_lasts_Run) (auto split: prod.split intro: co_lasts_Ended)

lemma co_lasts_bind: "co_lasts m c \<Longrightarrow> (\<And>x. co_lasts n (k x)) \<Longrightarrow> co_lasts (m + n) (co_bind c k)"
proof (induction rule: co_lasts.induct)
  case (co_lasts_Ended j out)
  have "co_lasts (j + n) (k x)" for x
    by (rule co_lasts_mono [OF co_lasts_Ended.prems]) simp
  then show ?case by (cases out) (auto intro: co_lasts.co_lasts_Ended)
next
  case (co_lasts_Run j f)
  then show ?case by (auto intro: co_lasts.co_lasts_Run)
qed

lemma co_lasts_bind_await: "(\<And>x. co_lasts n (k x)) \<Longrightarrow> co_lasts (Suc n) (co_bind (await m) k)"
  using co_lasts_bind [OF co_lasts_await [of 0 m], of n k] by simp

lemma co_lasts_step: "(\<And>out. co_lasts n (k out)) \<Longrightarrow> co_lasts (Suc n) (step m k)"
  unfolding step_def by (rule co_lasts_Run) (simp split: prod.split)

lemma co_lasts_then: "co_lasts m c \<Longrightarrow> (\<And>out. co_lasts n (k out)) \<Longrightarrow> co_lasts (m + n) (co_then c k)"
proof (induction rule: co_lasts.induct)
  case (co_lasts_Ended j out)
  have "co_lasts (j + n) (k out)" by (rule co_lasts_mono [OF co_lasts_Ended.prems]) simp
  then show ?case by simp
next
  case (co_lasts_Run j f)
  then show ?case by (auto intro: co_lasts.co_lasts_Run)
qed

lemma co_lasts_finally: "co_lasts n c \<Longrightarrow> co_lasts (Suc n) (co_finally c m)"
proof (induction rule: co_lasts.induct)
  case (co_lasts_Ended n out)
  show ?case by (auto split: prod.split intro!: co_lasts_Run co_lasts.co_lasts_Ended)
next
  case (co_lasts_Run n f)
  then show ?case by (auto intro: co_lasts.co_lasts_Run)
qed

lemma co_lasts_limited: "co_lasts n c \<Longrightarrow> co_lasts n (limited c b)"
proof (induction arbitrary: b rule: co_lasts.induct)
  case (co_lasts_Run n f)
  have "co_lasts n (limited (fst (f v)) d)" for v d by (rule co_lasts_Run.IH)
  then show ?case by (auto intro!: co_lasts.co_lasts_Run simp: map_prod_def split: prod.splits) (metis fst_conv)
qed (simp add: co_lasts_Ended)

lemma co_lasts_timeout: "co_lasts n c \<Longrightarrow> co_lasts (Suc (Suc (Suc n))) (co_run_with_timeout c ttl)"
  unfolding co_run_with_timeout_def co_wait_for_def
  by (intro co_lasts_bind_await co_lasts_finally co_lasts_Run) (simp add: co_lasts_limited)

end
