(* ===== verification/Raises.thy ===== *)
theory Raises
  imports CoreLaws
begin

text \<open>
  Which \<open>RpcError\<close>s a handler can raise: only those it names itself, with three of the codes of
  errors.py. No conversion, lookup or database operation raises one.
\<close>

section \<open>Expressions\<close>

definition plain :: "exn + 'a \<Rightarrow> bool" where
  "plain r \<longleftrightarrow> (\<forall>c m. r \<noteq> Inl (RpcError c m))"

lemma plain_simps [simp]: "plain (Inr x)" "plain (Inl (PyExn n))" "plain (Inl Cancelled)" "\<not> plain (Inl (RpcError c m))"
  by (auto simp: plain_def)

lemma plain_ebind: "plain m \<Longrightarrow> (\<And>x. plain (f x)) \<Longrightarrow> plain (ebind m f)"
  by (cases m) (auto simp: plain_def)

lemma plain_numbers [simp]:
  "plain (float_of_int n)" "plain (int_of_float f)" "plain (py_round f)" "plain (trig g f)" "plain (fsqrt f)"
  "plain (fasin f)"
  by (simp add: float_of_int_def, cases f rule: int_of_float.cases, simp_all, cases f rule: py_round.cases,
      simp_all, cases f rule: pyfloat.exhaust, simp_all, rename_tac x, case_tac x, simp_all,
      cases f rule: fsqrt.cases, simp_all, cases f rule: fasin.cases, simp_all)

lemma plain_values [simp]:
  "plain (as_float v)" "plain (int_of v)" "plain (float_of_str s)" "plain (dat d k)" "plain (fromtimestamp t)"
proof -
  show "plain (as_float v)" by (cases v) simp_all
  show "plain (int_of v)" by (cases v) simp_all
  show "plain (float_of_str s)" by (simp add: float_of_str_def Let_def split: prod.split option.split)
  show "plain (dat d k)" by (simp add: dat_def split: option.split)
  show "plain (fromtimestamp t)" by (simp add: fromtimestamp_def Let_def)
qed

lemma plain_float_of [simp]: "plain (float_of v)"
  by (cases v) simp_all

lemma plain_optional [simp]: "plain (opt_float v)" "plain (opt_int v)" "plain (age_s now v)"
  unfolding opt_float_def opt_int_def age_s_def by (auto intro!: plain_ebind)

lemma plain_report_fix [simp]: "plain (report_fix a v)"
  unfolding report_fix_def by (intro plain_ebind) simp_all

lemma plain_geo [simp]: "plain (haversine_m a b c d)" "plain (initial_bearing_deg a b c d)"
  unfolding haversine_m_def initial_bearing_deg_def Let_def by (intro plain_ebind; simp)+

lemma plain_rtb [simp]: "plain (rtb_numbers a b c d)"
  unfolding rtb_numbers_def by (intro plain_ebind) simp_all

lemma plain_bind [simp]: "plain (bind_val v)" "plain (bind_key st v)" "plain (float_of_sql x)"
proof -
  show b: "plain (bind_val v)" for v by (cases v rule: bind_val.cases) simp_all
  show "plain (bind_key st v)" using b [of v] by (auto simp: bind_key_def plain_def split: sum.splits)
  show "plain (float_of_sql x)" by (cases x) simp_all
qed

lemma plain_case_sum [intro!]:
  "plain r \<Longrightarrow> (\<And>x. plain (g x)) \<Longrightarrow> plain (case r of Inl e \<Rightarrow> Inl e | Inr x \<Rightarrow> g x)"
  by (cases r) (auto simp: plain_def)

lemma plain_store [simp]:
  "plain (sync_mark_node_seen st n ts d)" "plain (sync_get_last_seen st n d)"
  "plain (sync_get_node_location st n d)" "plain (sync_get_node_battery st n d)"
  "plain (sync_upsert_node_location st n fx src rssi snr d)" "plain (sync_get_base_state k d)"
  unfolding sync_get_base_state_def sync_mark_node_seen_def sync_get_last_seen_def sync_get_node_location_def
    sync_get_node_battery_def sync_upsert_node_location_def Let_def
  by (auto split: option.split)

section \<open>Programs\<close>

definition raises_in :: "string list \<Rightarrow> (world, 'a) prog \<Rightarrow> bool" where
  "raises_in cs m \<longleftrightarrow> (\<forall>w c msg w'. m w = (Inl (RpcError c msg), w') \<longrightarrow> c \<in> set cs)"

named_theorems raises_intros

lemma raises_ret [raises_intros]: "raises_in cs (ret x)"
  by (simp add: raises_in_def)

lemma raises_rpc [raises_intros]: "c \<in> set cs \<Longrightarrow> raises_in cs (raise (RpcError c m))"
  by (simp add: raises_in_def)

lemma raises_lift [raises_intros]: "plain r \<Longrightarrow> raises_in cs (lift r)"
  by (auto simp: raises_in_def)

lemma raises_gets [raises_intros]: "raises_in cs (gets f)"
  by (simp add: raises_in_def)

lemma raises_modify [raises_intros]: "raises_in cs (modify f)"
  by (simp add: raises_in_def)

lemma raises_time [raises_intros]: "raises_in cs time_time"
  by (simp add: raises_in_def time_time_def)

lemma raises_andthen [raises_intros]:
  "raises_in cs m \<Longrightarrow> (\<And>x. raises_in cs (f x)) \<Longrightarrow> raises_in cs (andthen m f)"
  unfolding raises_in_def by (blast elim: andthenE)

lemma raises_if [raises_intros]: "raises_in cs m \<Longrightarrow> raises_in cs n \<Longrightarrow> raises_in cs (if b then m else n)"
  by simp

lemma raises_Let [raises_intros]: "(\<And>x. raises_in cs (f x)) \<Longrightarrow> raises_in cs (let x = v in f x)"
  by simp

lemma raises_case_option [raises_intros]:
  "raises_in cs m \<Longrightarrow> (\<And>x. raises_in cs (f x)) \<Longrightarrow> raises_in cs (case x of None \<Rightarrow> m | Some y \<Rightarrow> f y)"
  by (simp split: option.split)

lemma raises_case_prod [raises_intros]: "(\<And>x y. raises_in cs (f x y)) \<Longrightarrow> raises_in cs (case p of (x, y) \<Rightarrow> f x y)"
  by (simp split: prod.split)

lemma raises_case_str [raises_intros]:
  "(\<And>s. raises_in cs (f s)) \<Longrightarrow> raises_in cs m \<Longrightarrow> raises_in cs (case v of VStr s \<Rightarrow> f s | _ \<Rightarrow> m)"
  by (simp split: pyval.split)

lemma raises_store_call: "(\<And>st now d. plain (f st now d)) \<Longrightarrow> raises_in cs (store_call f)"
  unfolding raises_in_def store_call_def awaiting_def Let_def plain_def
  by (auto split: option.splits if_splits sum.splits)

lemma raises_store_query: "(\<And>st d. plain (f st d)) \<Longrightarrow> raises_in cs (store_query f)"
  unfolding store_query_def by (rule raises_store_call) (auto simp: plain_def split: sum.split)

lemma raises_publish [raises_intros]: "raises_in cs (bus_publish t p b)"
  by (auto simp: raises_in_def bus_publish_def awaiting_def Let_def split: option.splits if_splits)

lemma raises_store_api [raises_intros]:
  "raises_in cs (mark_node_seen v t)" "raises_in cs (get_last_seen v)" "raises_in cs (get_node_location v)"
  "raises_in cs (get_node_battery v)" "raises_in cs (upsert_node_location v fx src ri sr)"
  "raises_in cs (get_base_state k)"
  unfolding store_api_defs by (intro raises_store_call raises_store_query; simp)+

lemma raises_counts [raises_intros]: "raises_in cs counts"
  unfolding counts_def by (intro raises_intros raises_store_query plain_simps)

lemma raises_aggregator [raises_intros]:
  "raises_in cs (get_node_state v)" "raises_in cs (republish_state v)" "raises_in cs (apply_location m fx src ri sr)"
  "raises_in cs get_base_location" "raises_in cs (snap_age g)" "raises_in cs get_gateway_snapshot"
  "raises_in cs (or_now v)"
  unfolding get_node_state_def republish_state_def apply_location_def get_base_location_def snap_age_def
    get_gateway_snapshot_def or_now_def note_radio_def
  by (intro raises_intros; simp)+

definition HANDLER_CODES :: "string list" where
  "HANDLER_CODES = [BAD_REQUEST, STALE, UNAVAILABLE]"

lemma handler_codes [simp]:
  "BAD_REQUEST \<in> set HANDLER_CODES" "STALE \<in> set HANDLER_CODES" "UNAVAILABLE \<in> set HANDLER_CODES"
  by (simp_all add: HANDLER_CODES_def)

lemma handlers_raise:
  "raises_in HANDLER_CODES (handle_ping r)" "raises_in HANDLER_CODES (handle_echo r)"
  "raises_in HANDLER_CODES (handle_time_now r)" "raises_in HANDLER_CODES (handle_gateway_status r)"
  "raises_in HANDLER_CODES (handle_node_last_seen r)" "raises_in HANDLER_CODES (handle_node_location_report r)"
  "raises_in HANDLER_CODES (handle_base_location r)" "raises_in HANDLER_CODES (handle_node_location r)"
  "raises_in HANDLER_CODES (handle_node_status r)" "raises_in HANDLER_CODES (handle_return_to_base r)"
  unfolding handler_defs caller_position_def
  by (intro raises_intros plain_ebind; simp)+

end
