(* ===== verification/CutHandlers.thy ===== *)
theory CutHandlers
  imports Coroutines Raises
begin

text \<open>
  The aggregator (state.py) and the handlers (handlers/) as coroutines: they hand control back at
  each \<open>await\<close>, so that two reports interleave inside \<open>apply_location\<close>. What stands between two
  awaits is one step with the await that follows it, or a step of its own at the end. Handlers that
  await nothing are one step. Run without interruption each of them is the program of Handlers.
\<close>

declare co_run.simps(1) [simp del]

section \<open>The aggregator\<close>

definition co_get_node_state :: "pyval \<Rightarrow> pydict option co" where
  "co_get_node_state node =
     co_bind (await (get_last_seen node)) (\<lambda>seen.
       case seen of
         None \<Rightarrow> co_ret None
       | Some last_seen \<Rightarrow>
           co_bind (await (get_node_location node)) (\<lambda>loc.
           co_bind (await (get_node_battery node)) (\<lambda>bat.
             await (andthen (gets (\<lambda>w. radio_of (w_radio w) node)) (\<lambda>radio.
               andthen time_time (\<lambda>now.
               andthen (lift (age_s now (VFloat last_seen))) (\<lambda>age.
                 ret (Some (node_state_dict node last_seen age now loc bat radio)))))))))"

definition co_republish_state :: "pyval \<Rightarrow> unit co" where
  "co_republish_state node =
     co_bind (co_get_node_state node) (\<lambda>st.
       case st of
         None \<Rightarrow> co_ret ()
       | Some d \<Rightarrow>
           await (andthen (gets (\<lambda>w. py_str (h_float_repr (w_host w)) node)) (\<lambda>name.
             bus_publish (node_state_topic name) (compact_json d) True)))"

definition co_apply_seen :: "pyval \<Rightarrow> pyval \<Rightarrow> int option \<Rightarrow> pyfloat option \<Rightarrow> unit co" where
  "co_apply_seen node ts rssi snr =
     co_bind (await (mark_node_seen node ts)) (\<lambda>_.
     co_bind (await (note_radio node rssi snr ts)) (\<lambda>_.
       co_republish_state node))"

definition co_apply_location ::
  "string \<Rightarrow> location_fix \<Rightarrow> string \<Rightarrow> int option \<Rightarrow> pyfloat option \<Rightarrow> unit co" where
  "co_apply_location node fx source rssi snr =
     co_bind (await (upsert_node_location (VStr node) fx (Some source) rssi snr)) (\<lambda>_.
     co_bind (await (mark_node_seen (VStr node) (VFloat (f_ts fx)))) (\<lambda>_.
     co_bind (await (andthen (note_radio (VStr node) rssi snr (VFloat (f_ts fx))) (\<lambda>_.
       bus_publish (node_location_topic node) (compact_json (location_body node fx source rssi snr)) True))) (\<lambda>_.
       co_republish_state (VStr node))))"

definition co_apply_battery :: "pyval \<Rightarrow> pyval \<Rightarrow> pyval \<Rightarrow> pyval \<Rightarrow> string \<Rightarrow> unit co" where
  "co_apply_battery node ts pct voltage source =
     co_bind (await (upsert_node_battery node ts pct voltage source)) (\<lambda>_.
     co_bind (await (mark_node_seen node ts)) (\<lambda>_.
     co_bind (await (andthen (gets (\<lambda>w. py_str (h_float_repr (w_host w)) node)) (\<lambda>name.
       bus_publish (node_battery_topic name) (compact_json (battery_body node ts pct voltage source)) True))) (\<lambda>_.
       co_republish_state node)))"

definition co_apply_base_location :: "location_fix \<Rightarrow> string \<Rightarrow> unit co" where
  "co_apply_base_location fx source =
     co_bind (await (upsert_base_state ''location'' (base_body fx source))) (\<lambda>_.
       await (bus_publish BASE_LOCATION (compact_json (base_body fx source)) True))"

lemma co_run_aggregator [co_run_simps]:
  "co_run (co_get_node_state node) = get_node_state node"
  "co_run (co_republish_state node) = republish_state node"
  "co_run (co_apply_seen node ts rssi snr) = apply_seen node ts rssi snr"
  "co_run (co_apply_location m fx src rssi snr) = apply_location m fx src rssi snr"
  "co_run (co_apply_battery node ts p v src) = apply_battery node ts p v src"
  "co_run (co_apply_base_location fx src) = apply_base_location fx src"
proof -
  show s: "co_run (co_get_node_state node) = get_node_state node" for node
    by (simp add: co_get_node_state_def get_node_state_def co_run_simps cong: option.case_cong)
  show r: "co_run (co_republish_state node) = republish_state node" for node
    by (simp add: co_republish_state_def republish_state_def co_run_simps s cong: option.case_cong)
  show "co_run (co_apply_seen node ts rssi snr) = apply_seen node ts rssi snr"
    "co_run (co_apply_location m fx src rssi snr) = apply_location m fx src rssi snr"
    "co_run (co_apply_battery node ts p v src) = apply_battery node ts p v src"
    "co_run (co_apply_base_location fx src) = apply_base_location fx src"
    by (simp_all add: co_apply_seen_def apply_seen_def co_apply_location_def apply_location_def
        co_apply_battery_def apply_battery_def co_apply_base_location_def apply_base_location_def co_run_simps r andthen_assoc)
qed

section \<open>The handlers\<close>

type_synonym cut_handler = "request \<Rightarrow> response co"

definition co_counts :: "(string \<rightharpoonup> int) co" where
  "co_counts =
     co_bind (await (store_query (\<lambda>st d. Inr (sync_count_by_final_state d)))) (\<lambda>by_state.
     co_bind (await (store_query (\<lambda>st d. Inr (sync_count_pending d)))) (\<lambda>pending.
       co_ret (by_state(''pending'' \<mapsto> pending))))"

definition co_gateway_status :: cut_handler where
  "co_gateway_status r =
     co_bind (await get_gateway_snapshot) (\<lambda>snap.
     co_bind co_counts (\<lambda>cs.
       await (andthen (snap_age snap) (\<lambda>age. ret (response_ok r (gateway_body snap age cs))))))"

definition co_node_last_seen :: cut_handler where
  "co_node_last_seen r =
     (let target = target_node r
      in co_bind (await (get_last_seen (VStr target))) (\<lambda>seen.
         case seen of
           None \<Rightarrow> co_ret (response_ok r [(''node'', VStr target), (''ts'', VNone), (''age_s'', VNone)])
         | Some ts \<Rightarrow>
             await (andthen time_time (\<lambda>now.
               andthen (lift (age_s now (VFloat ts))) (\<lambda>age.
                 ret (response_ok r [(''node'', VStr target), (''ts'', VFloat ts), (''age_s'', VInt age)]))))))"

definition co_node_location :: cut_handler where
  "co_node_location r =
     (let target = target_node r
      in co_bind (await (get_node_location (VStr target))) (\<lambda>found.
         case found of
           None \<Rightarrow> co_raise (RpcError UNAVAILABLE (''No location for '' @ target))
         | Some loc \<Rightarrow>
             await (andthen time_time (\<lambda>now.
               andthen (lift (ebind (dat loc ''ts'') (age_s now))) (\<lambda>age.
               andthen (lift (dat loc ''lat'')) (\<lambda>lat.
               andthen (lift (dat loc ''lon'')) (\<lambda>lon.
               andthen (lift (dat loc ''ts'')) (\<lambda>ts.
                 ret (response_ok r [(''node'', VStr target), (''lat'', lat), (''lon'', lon),
                   (''ts'', ts), (''age_s'', VInt age)])))))))))"

definition co_node_status :: cut_handler where
  "co_node_status r =
     (let target = target_node r
      in co_bind (co_get_node_state (VStr target)) (\<lambda>found.
         case found of
           None \<Rightarrow> co_raise (RpcError UNAVAILABLE (''No state for '' @ target))
         | Some st \<Rightarrow>
             await (andthen (lift (dat st ''id'')) (\<lambda>i.
               andthen (lift (dat st ''online'')) (\<lambda>online.
               andthen (lift (dat st ''last_seen_age_s'')) (\<lambda>age.
                 ret (response_ok r ([(''id'', i), (''online'', online), (''last_seen_age_s'', age)]
                   @ (if is_none (dget st ''bat_pct'') then [] else [(''bat_pct'', dget st ''bat_pct'')])))))))))"

definition co_node_location_report :: cut_handler where
  "co_node_location_report r =
     (let a = q_args r; lat = dget a ''lat''; lon = dget a ''lon''
      in if \<not> (is_num lat \<and> is_num lon)
           then co_raise (RpcError BAD_REQUEST ''lat and lon are required floats'')
         else if \<not> (in_range (- 90) 90 lat \<and> in_range (- 180) 180 lon)
           then co_raise (RpcError BAD_REQUEST ''lat/lon out of range'')
         else co_bind (await (andthen (or_now (dget a ''ts'')) (\<lambda>tv. lift (report_fix a tv)))) (\<lambda>fx.
              co_bind (co_apply_location (q_from r) fx ''report'' None None) (\<lambda>_.
                co_ret (response_ok r [(''ack'', VBool True), (''ts'', VFloat (f_ts fx))]))))"

definition co_base_location :: cut_handler where
  "co_base_location r =
     co_bind (await get_base_location) (\<lambda>found.
       case found of
         None \<Rightarrow> co_raise (RpcError UNAVAILABLE ''Base has no GPS fix yet'')
       | Some loc \<Rightarrow>
           await (andthen time_time (\<lambda>now.
             andthen (lift (age_s now (dget_or loc ''ts'' (VInt 0)))) (\<lambda>age.
               if BASE_MAX_AGE_S < age
               then raise (RpcError STALE (''Base fix is '' @ str_int age @ ''s old''))
               else
                 andthen (lift (dat loc ''lat'')) (\<lambda>lat.
                 andthen (lift (dat loc ''lon'')) (\<lambda>lon.
                 andthen (lift (dat loc ''ts'')) (\<lambda>ts.
                   ret (response_ok r [(''lat'', lat), (''lon'', lon), (''ts'', ts),
                     (''age_s'', VInt age), (''fix'', dget loc ''fix'')]))))))))"

definition co_caller_position :: "request \<Rightarrow> (pyval \<times> pyval \<times> int) co" where
  "co_caller_position r =
     (let a = q_args r
      in if is_num (dget a ''lat'') \<and> is_num (dget a ''lon'')
         then await (andthen (lift (as_float (dget a ''lat''))) (\<lambda>lat.
              andthen (lift (as_float (dget a ''lon''))) (\<lambda>lon.
                ret (VFloat lat, VFloat lon, 0))))
         else co_bind (await (get_node_location (VStr (q_from r)))) (\<lambda>found.
           case found of
             None \<Rightarrow> co_raise (RpcError UNAVAILABLE ''Caller has no reported location'')
           | Some loc \<Rightarrow>
               await (andthen time_time (\<lambda>now.
                 andthen (lift (ebind (dat loc ''ts'') (age_s now))) (\<lambda>age.
                   if MAX_AGE_S < age
                   then raise (RpcError STALE (''Caller's last fix is '' @ str_int age @ ''s old''))
                   else
                     andthen (lift (dat loc ''lat'')) (\<lambda>lat.
                     andthen (lift (dat loc ''lon'')) (\<lambda>lon.
                       ret (lat, lon, age))))))))"

definition co_return_to_base :: cut_handler where
  "co_return_to_base r =
     co_bind (co_caller_position r) (\<lambda>(from_lat, from_lon, from_age).
     co_bind (await get_base_location) (\<lambda>found.
       case found of
         None \<Rightarrow> co_raise (RpcError UNAVAILABLE ''Base has no fix'')
       | Some base \<Rightarrow>
           await (andthen time_time (\<lambda>now.
             andthen (lift (ebind (dat base ''ts'') (age_s now))) (\<lambda>base_age.
               if MAX_AGE_S < base_age
               then raise (RpcError STALE (''Base's last fix is '' @ str_int base_age @ ''s old''))
               else
                 andthen (lift (dat base ''lat'')) (\<lambda>base_lat.
                 andthen (lift (dat base ''lon'')) (\<lambda>base_lon.
                 andthen (lift (rtb_numbers from_lat from_lon base_lat base_lon)) (\<lambda>(bearing, dist).
                   ret (response_ok r
                     [(''bearing'', VInt bearing), (''dist_m'', VInt dist),
                      (''base'', position_dict base_lat base_lon base_age),
                      (''from'', position_dict from_lat from_lon from_age)])))))))))"

definition CUT_HANDLERS :: "(string \<times> cut_handler) list" where
  "CUT_HANDLERS =
     [(''ping'', \<lambda>r. await (handle_ping r)),
      (''echo'', \<lambda>r. await (handle_echo r)),
      (''time.now'', \<lambda>r. await (handle_time_now r)),
      (''gateway.status'', co_gateway_status),
      (''node.last_seen'', co_node_last_seen),
      (''node.location.report'', co_node_location_report),
      (''base.location'', co_base_location),
      (''node.location'', co_node_location),
      (''node.status'', co_node_status),
      (''return_to_base'', co_return_to_base)]"

section \<open>The same handlers\<close>

definition uncut :: "cut_handler \<Rightarrow> handler" where
  "uncut h = (\<lambda>r. co_run (h r))"

definition uncut_all :: "(string \<times> cut_handler) list \<Rightarrow> (string \<times> handler) list" where
  "uncut_all = map (map_prod id uncut)"

lemma co_run_handlers:
  "uncut co_gateway_status = handle_gateway_status" "uncut co_node_last_seen = handle_node_last_seen"
  "uncut co_node_location = handle_node_location" "uncut co_node_status = handle_node_status"
  "uncut co_node_location_report = handle_node_location_report" "uncut co_base_location = handle_base_location"
  "uncut co_return_to_base = handle_return_to_base"
proof -
  have c: "co_run co_counts = counts" by (simp add: co_counts_def counts_def co_run_simps)
  have p: "co_run (co_caller_position r) = caller_position r" for r
    by (simp add: co_caller_position_def caller_position_def co_run_simps Let_def cong: option.case_cong)
  show "uncut co_gateway_status = handle_gateway_status" "uncut co_node_last_seen = handle_node_last_seen"
    "uncut co_node_location = handle_node_location" "uncut co_node_status = handle_node_status"
    by (rule ext, simp add: uncut_def co_gateway_status_def handle_gateway_status_def co_node_last_seen_def
        handle_node_last_seen_def co_node_location_def handle_node_location_def co_node_status_def
        handle_node_status_def co_run_simps c Let_def cong: option.case_cong)+
  show "uncut co_node_location_report = handle_node_location_report"
    by (rule ext) (simp add: uncut_def co_node_location_report_def handle_node_location_report_def co_run_simps
        Let_def andthen_assoc)
  show "uncut co_base_location = handle_base_location" "uncut co_return_to_base = handle_return_to_base"
    by (rule ext, simp add: uncut_def co_base_location_def handle_base_location_def co_return_to_base_def
        handle_return_to_base_def co_run_simps p Let_def cong: option.case_cong)+
qed

lemma uncut_all_handlers: "uncut_all CUT_HANDLERS = DEFAULT_HANDLERS"
proof -
  have one: "uncut (\<lambda>r. await (h r)) = h" for h by (simp add: uncut_def co_run_simps)
  show ?thesis by (simp add: uncut_all_def CUT_HANDLERS_def DEFAULT_HANDLERS_def co_run_handlers one)
qed

declare co_run.simps(1) [simp]

lemma resolve_uncut: "resolve (uncut_all router) t = map_option uncut (resolve router t)"
  by (simp add: resolve_def uncut_all_def map_prod_def map_of_map)

end
