(* ===== verification/CutLaws.thy ===== *)
theory CutLaws
  imports CutHandlers
begin

text \<open>
  What every step of a handler leaves alone, how a handler can end, and in how many steps.
\<close>

section \<open>Calm coroutines\<close>

definition surroundings ::
  "world \<Rightarrow> ((request_row list \<times> event_row list) \<times> host \<times> bool \<times> int \<times> gateway_cache) \<times> message list" where
  "surroundings w = (outside_aggregator w, responses w)"

lemma evolves_surroundings: "aside m \<Longrightarrow> quiet m \<Longrightarrow> evolves (same surroundings) m"
  by (simp add: evolves_def same_def surroundings_def)

text \<open>A handler ends with one of three codes, with another exception, or with a value.\<close>

definition fine :: "('a \<Rightarrow> bool) \<Rightarrow> exn + 'a \<Rightarrow> bool" where
  "fine Q out \<longleftrightarrow> (case out of
      Inl (RpcError c m) \<Rightarrow> c \<in> set HANDLER_CODES
    | Inl _ \<Rightarrow> True
    | Inr x \<Rightarrow> Q x)"

abbreviation serene :: "('a \<Rightarrow> bool) \<Rightarrow> 'a co \<Rightarrow> bool" where
  "serene Q \<equiv> co_all (same surroundings) (fine Q)"

lemma fine_Inr [simp]: "fine Q (Inr x) \<longleftrightarrow> Q x"
  by (simp add: fine_def)

lemma serene_await:
  "aside m \<Longrightarrow> quiet m \<Longrightarrow> raises_in HANDLER_CODES m \<Longrightarrow> yields Q m \<Longrightarrow> serene Q (await m)"
  by (rule all_await [OF evolves_surroundings])
    (auto simp: fine_def raises_in_def dest: yieldsD split: sum.split exn.split)

lemma serene_bind: "serene (\<lambda>_. True) c \<Longrightarrow> (\<And>x. serene Q (k x)) \<Longrightarrow> serene Q (co_bind c k)"
  by (erule all_bind) (auto simp: fine_def split: exn.splits)

lemma serene_ret: "Q x \<Longrightarrow> serene Q (co_ret x)"
  by (rule all_Ended) simp

lemma serene_raise: "c \<in> set HANDLER_CODES \<Longrightarrow> serene Q (co_raise (RpcError c m))"
  by (rule all_Ended) (simp add: fine_def)

lemma serene_if: "serene Q c \<Longrightarrow> serene Q d \<Longrightarrow> serene Q (if b then c else d)"
  by simp

lemma serene_option: "serene Q c \<Longrightarrow> (\<And>x. serene Q (d x)) \<Longrightarrow> serene Q (case x of None \<Rightarrow> c | Some y \<Rightarrow> d y)"
  by (simp split: option.split)

lemma serene_prod: "(\<And>x y. serene Q (c x y)) \<Longrightarrow> serene Q (case p of (x, y) \<Rightarrow> c x y)"
  by (simp split: prod.split)

lemmas serene_rules = serene_bind serene_ret serene_raise serene_if serene_option serene_prod

lemma yields_True [yields_intros]: "yields (\<lambda>_. True) m"
  by (simp add: yields_def)

lemma serene_plain: "aside m \<Longrightarrow> quiet m \<Longrightarrow> raises_in HANDLER_CODES m \<Longrightarrow> serene (\<lambda>_. True) (await m)"
  by (intro serene_await yields_True)

section \<open>The handlers\<close>

text \<open>No handler takes more than nine steps.\<close>

definition HANDLER_STEPS :: nat where "HANDLER_STEPS = 9"

definition cut_ok :: "cut_handler \<Rightarrow> bool" where
  "cut_ok h \<longleftrightarrow> (\<forall>r. serene (\<lambda>p. answers r p \<and> p_status p = ''ok'') (h r) \<and> co_lasts HANDLER_STEPS (h r))"

lemma cut_of_ok: "handler_ok h \<Longrightarrow> (\<And>r. raises_in HANDLER_CODES (h r)) \<Longrightarrow> cut_ok (\<lambda>r. await (h r))"
  by (auto simp: cut_ok_def handler_ok_def HANDLER_STEPS_def eval_nat_numeral intro!: serene_await co_lasts_await)

lemma quiet_writes [evolves_intros]:
  "quiet (mark_node_seen v t)" "quiet (upsert_node_location v fx src rssi snr)" "quiet get_base_location"
  unfolding store_api_defs get_base_location_def by (rule evolves_intros)+

lemma raises_note_radio [raises_intros]: "raises_in cs (note_radio n r s t)"
  unfolding note_radio_def by (rule raises_intros)

lemma serene_aggregator:
  "serene (\<lambda>_. True) (co_get_node_state v)" "serene (\<lambda>_. True) (co_republish_state v)"
  "serene (\<lambda>_. True) (co_apply_location n fx src rssi snr)"
proof -
  show s: "serene (\<lambda>_. True) (co_get_node_state v)" for v
    unfolding co_get_node_state_def by (intro serene_rules serene_plain evolves_intros raises_intros; simp)
  show r: "serene (\<lambda>_. True) (co_republish_state v)" for v
    unfolding co_republish_state_def by (intro serene_rules serene_plain evolves_intros raises_intros s; simp)
  show "serene (\<lambda>_. True) (co_apply_location n fx src rssi snr)"
    unfolding co_apply_location_def by (intro serene_rules serene_plain evolves_intros raises_intros r)
qed

lemma lasts_aggregator:
  "co_lasts (Suc (Suc (Suc (Suc 0)))) (co_get_node_state v)"
  "co_lasts (Suc (Suc (Suc (Suc (Suc 0))))) (co_republish_state v)"
proof -
  show s: "co_lasts (Suc (Suc (Suc (Suc 0)))) (co_get_node_state v)"
    unfolding co_get_node_state_def
    by (auto split: option.split intro!: co_lasts_bind_await co_lasts_await co_lasts_Ended)
  have "co_lasts (Suc 0) (case st of None \<Rightarrow> co_ret () | Some d \<Rightarrow>
      await (andthen (gets (\<lambda>w. py_str (h_float_repr (w_host w)) v)) (\<lambda>name.
        bus_publish (node_state_topic name) (compact_json d) True)))" for st
    by (auto split: option.split intro!: co_lasts_await co_lasts_Ended)
  from co_lasts_bind [OF s this]
  show "co_lasts (Suc (Suc (Suc (Suc (Suc 0))))) (co_republish_state v)"
    unfolding co_republish_state_def by simp
qed

lemma serene_answer: "serene (\<lambda>p. answers r p \<and> p_status p = ''ok'') (co_ret (response_ok r b))"
  by (rule serene_ret) simp

lemma serene_last:
  "aside m \<Longrightarrow> quiet m \<Longrightarrow> raises_in HANDLER_CODES m \<Longrightarrow>
     yields (\<lambda>p. answers r p \<and> p_status p = ''ok'') m \<Longrightarrow>
     serene (\<lambda>p. answers r p \<and> p_status p = ''ok'') (await m)"
  by (rule serene_await)

lemma serene_pieces: "serene (\<lambda>_. True) co_counts" "serene (\<lambda>_. True) (co_caller_position r)"
  unfolding co_counts_def co_caller_position_def Let_def
  by (intro serene_rules serene_plain evolves_intros raises_intros raises_store_query plain_ebind; simp)+

lemma handlers_calm:
  "serene (\<lambda>p. answers r p \<and> p_status p = ''ok'') (co_gateway_status r)"
  "serene (\<lambda>p. answers r p \<and> p_status p = ''ok'') (co_node_last_seen r)"
  "serene (\<lambda>p. answers r p \<and> p_status p = ''ok'') (co_node_location r)"
  "serene (\<lambda>p. answers r p \<and> p_status p = ''ok'') (co_node_status r)"
  "serene (\<lambda>p. answers r p \<and> p_status p = ''ok'') (co_node_location_report r)"
  "serene (\<lambda>p. answers r p \<and> p_status p = ''ok'') (co_base_location r)"
  "serene (\<lambda>p. answers r p \<and> p_status p = ''ok'') (co_return_to_base r)"
  unfolding co_gateway_status_def co_node_last_seen_def co_node_location_def co_node_status_def
    co_node_location_report_def co_base_location_def co_return_to_base_def Let_def
  by (intro serene_bind serene_raise serene_if serene_option serene_prod serene_answer serene_aggregator serene_pieces serene_last serene_plain
      evolves_intros raises_intros yields_intros plain_ebind; simp)+

lemmas counting = co_lasts_bind_await co_lasts_await co_lasts_Ended

lemma lasts_pieces: "co_lasts (Suc (Suc 0)) co_counts" "co_lasts (Suc (Suc 0)) (co_caller_position r)"
  unfolding co_counts_def co_caller_position_def Let_def
  by (auto split: option.split intro!: counting)

lemma handlers_last:
  "co_lasts 9 (co_gateway_status r)" "co_lasts 9 (co_node_last_seen r)" "co_lasts 9 (co_node_location r)"
  "co_lasts 9 (co_node_status r)" "co_lasts 9 (co_node_location_report r)" "co_lasts 9 (co_base_location r)"
  "co_lasts 9 (co_return_to_base r)"
proof -
  have tail: "co_lasts n c \<Longrightarrow> n \<le> 9 \<Longrightarrow> co_lasts 9 c" for n and c :: "response co"
    by (rule co_lasts_mono)
  have "co_lasts (Suc (Suc (Suc 0) + Suc 0)) (co_gateway_status r)"
    unfolding co_gateway_status_def by (intro co_lasts_bind_await co_lasts_bind lasts_pieces co_lasts_await)
  then show "co_lasts 9 (co_gateway_status r)" by (rule tail) simp
  have "co_lasts (Suc (Suc 0)) (co_node_last_seen r)" "co_lasts (Suc (Suc 0)) (co_node_location r)"
    "co_lasts (Suc (Suc 0)) (co_base_location r)"
    unfolding co_node_last_seen_def co_node_location_def co_base_location_def Let_def
    by (auto split: option.split intro!: counting)
  then show "co_lasts 9 (co_node_last_seen r)" "co_lasts 9 (co_node_location r)" "co_lasts 9 (co_base_location r)"
    by (auto intro: tail)
  have "co_lasts (Suc (Suc (Suc (Suc 0))) + Suc 0) (co_node_status r)"
    unfolding co_node_status_def Let_def
    by (intro co_lasts_bind lasts_aggregator) (auto split: option.split intro!: counting)
  then show "co_lasts 9 (co_node_status r)" by (rule tail) simp
  have "co_lasts (Suc (Suc 0) + Suc (Suc 0)) (co_return_to_base r)"
    unfolding co_return_to_base_def
    by (intro co_lasts_bind lasts_pieces) (auto split: option.split prod.split intro!: counting)
  then show "co_lasts 9 (co_return_to_base r)" by (rule tail) simp
  have loc: "co_lasts (Suc (Suc (Suc (Suc (Suc (Suc (Suc (Suc 0)))))))) (co_apply_location n fx src ri sn)" for n fx src ri sn
    unfolding co_apply_location_def by (intro co_lasts_bind_await lasts_aggregator)
  have "co_lasts (Suc (Suc (Suc (Suc (Suc (Suc (Suc (Suc (Suc 0)))))))))
      (co_bind (await m) (\<lambda>fx. co_bind (co_apply_location n fx src ri sn) (\<lambda>_. co_ret (k fx :: response))))" for m n src ri sn k
    using co_lasts_bind [OF loc co_lasts_Ended [of 0]] by (intro co_lasts_bind_await) simp
  then show "co_lasts 9 (co_node_location_report r)"
    unfolding co_node_location_report_def Let_def by (auto simp: eval_nat_numeral intro: co_lasts_Ended)
qed

lemma cut_handlers_ok: "resolve CUT_HANDLERS t = Some h \<Longrightarrow> cut_ok h"
proof -
  assume "resolve CUT_HANDLERS t = Some h"
  then have "(t, h) \<in> set CUT_HANDLERS" by (simp add: resolve_def map_of_SomeD)
  moreover have "cut_ok g" if "(u, g) \<in> set CUT_HANDLERS" for u g
    using that handlers_calm handlers_last cut_of_ok [OF default_handlers_ok(1) handlers_raise(1)]
      cut_of_ok [OF default_handlers_ok(2) handlers_raise(2)] cut_of_ok [OF default_handlers_ok(3) handlers_raise(3)]
    by (auto simp: CUT_HANDLERS_def cut_ok_def HANDLER_STEPS_def)
  ultimately show ?thesis by blast
qed

section \<open>Under the time limit\<close>

lemma same_surroundings_blind: "budget_blind (same surroundings)"
  by (auto simp: budget_blind_def same_def surroundings_def outside_aggregator_def responses_def)

lemma fine_timed_out: "fine Q out \<Longrightarrow> fine Q (timed_out out)"
  by (auto simp: fine_def timed_out_def split: sum.splits exn.splits)

lemma serene_wait_for: "serene Q c \<Longrightarrow> serene Q (co_wait_for c ttl)"
  by (erule all_wait_for [OF _ same_surroundings_blind])
    (auto simp: fine_timed_out same_def surroundings_def outside_aggregator_def responses_def)

text \<open>
  A relation that the in-flight counter's two updates respect holds of every step of a handler under
  its time limit.
\<close>

lemma timeout_all:
  assumes "serene Q c" "\<And>w w'. same surroundings w w' \<Longrightarrow> R w w'" "evolves R inc_in_flight" "evolves R dec_in_flight"
  shows "co_all R (fine Q) (co_run_with_timeout c ttl)"
  unfolding co_run_with_timeout_def
proof (rule all_bind [where P = "\<lambda>out. \<exists>u. out = Inr u"])
  show "co_all R (\<lambda>out. \<exists>u. out = Inr u) (await inc_in_flight)"
    by (rule all_await [OF assms(3)]) (auto simp: inc_in_flight_def)
  show "co_all R (fine Q) (co_finally (co_wait_for c ttl) dec_in_flight)" for u :: unit
    by (rule all_finally [OF co_all_mono [OF serene_wait_for [OF assms(1)] assms(2)] assms(4)])
      (auto simp: dec_in_flight_def)
qed simp

end
