(* ===== verification/Tasks.thy ===== *)
theory Tasks
  imports PipelineProps CutLaws
begin

text \<open>
  Requests side by side. transport/service.py starts a task per request and goes on consuming; the
  tasks take turns where they await. Here a request is a chain of steps, each of which runs from
  one await of \<open>process_request\<close> (core.py) to the next: a store operation, the publishing, and the
  awaits of the handler under its time limit. A lone task does what \<open>process_request\<close> does; a system
  of tasks runs under any schedule, with requests arriving at any time.
\<close>

section \<open>Tasks\<close>

type_synonym task = "unit co"

abbreviation run_task :: "task \<Rightarrow> (world, unit) prog" where "run_task \<equiv> co_run"

text \<open>After an await that raised, the task ends with the exception.\<close>

definition ok_then :: "('a \<Rightarrow> task) \<Rightarrow> exn + 'a \<Rightarrow> task" where
  "ok_then k out = (case out of Inl e \<Rightarrow> Ended (Inl e) | Inr x \<Rightarrow> k x)"

definition publish_task ::
  "emitter \<Rightarrow> request \<Rightarrow> response \<Rightarrow> string \<Rightarrow> string option \<Rightarrow> task" where
  "publish_task emit r resp final_state error_code =
     (let completion = step (record_completion (q_id r) (q_from r) final_state (Some resp) error_code) Ended;
          go_on = (\<lambda>out. if out = Inl Cancelled then Ended (Inl Cancelled) else completion)
      in step (emit (q_from r) resp) (\<lambda>out. case out of
           Inl e \<Rightarrow> go_on (Inl e)
         | Inr _ \<Rightarrow> step (record_event (q_id r) (q_from r) RESPONSE_PUBLISHED None) go_on))"

definition error_task :: "emitter \<Rightarrow> request \<Rightarrow> string \<Rightarrow> string \<Rightarrow> task" where
  "error_task emit r code message =
     publish_task emit r (make_error (q_id r) (q_type r) (q_from r) code message)
       COMPLETED_ERROR (Some code)"

definition finish_task :: "emitter \<Rightarrow> request \<Rightarrow> int \<Rightarrow> exn + response \<Rightarrow> task" where
  "finish_task emit r ttl out = (case out of
      Inr resp \<Rightarrow> publish_task emit r resp COMPLETED_OK None
    | Inl (RpcError code message) \<Rightarrow> error_task emit r code message
    | Inl (PyExn name) \<Rightarrow>
        if PyExn name = TimeoutError
        then step (record_event (q_id r) (q_from r) TIMEOUT None) (ok_then (\<lambda>_.
               error_task emit r TIMEOUT_CODE (timeout_message ttl)))
        else error_task emit r INTERNAL name
    | Inl Cancelled \<Rightarrow> Ended (Inl Cancelled))"

definition fresh_task :: "cut_handler router \<Rightarrow> emitter \<Rightarrow> int \<Rightarrow> request \<Rightarrow> task" where
  "fresh_task router emit ttl r =
     step (record_event (q_id r) (q_from r) VALIDATED None) (ok_then (\<lambda>_.
     step (andthen time_time (\<lambda>now. mark_node_seen (VStr (q_from r)) (fin_ts now))) (ok_then (\<lambda>_.
     (case resolve router (q_type r) of
        None \<Rightarrow>
          step (record_event (q_id r) (q_from r) REJECTED (Some ''unknown_type'')) (ok_then (\<lambda>_.
            error_task emit r UNKNOWN_TYPE (''Unknown request type: '' @ q_type r)))
      | Some handle \<Rightarrow>
          step (record_event (q_id r) (q_from r) HANDLER_STARTED None) (ok_then (\<lambda>_.
          co_then (co_run_with_timeout (handle r) ttl) (finish_task emit r ttl))))))))"

definition received_task ::
  "cut_handler router \<Rightarrow> emitter \<Rightarrow> int \<Rightarrow> request \<Rightarrow> exn + bool \<Rightarrow> task" where
  "received_task router emit ttl r out = (case out of
      Inl e \<Rightarrow>
        if e = Cancelled then Ended (Inl e) else error_task emit r INTERNAL ''persistence error''
    | Inr fresh \<Rightarrow>
        if fresh then fresh_task router emit ttl r
        else step (record_event (q_id r) (q_from r) REJECTED (Some ''duplicate'')) (ok_then (\<lambda>_.
               error_task emit r DUPLICATE ''Duplicate request id for this node'')))"

definition request_task ::
  "cut_handler router \<Rightarrow> emitter \<Rightarrow> timeout_policy \<Rightarrow> request \<Rightarrow> task" where
  "request_task router emit policy r =
     (let ttl = resolve_ttl policy (q_type r) (q_ttl r)
      in step (record_received r ttl) (received_task router emit ttl r))"

section \<open>A lone task\<close>

lemmas run_task_step = co_run_step

lemma run_task_ok_then:
  "run_task (step m (ok_then k)) = andthen m (\<lambda>x. run_task (k x))"
  by (rule ext) (simp add: run_task_step ok_then_def andthen_def split: prod.split sum.split)

lemma run_task_Ended: "run_task (step m Ended) = m"
  by (rule ext) (simp add: run_task_step split: prod.split)

lemma run_publish_task: "run_task (publish_task emit r p f e) = publish_and_finalize emit r p f e"
  by (rule ext)
    (simp add: publish_task_def publish_and_finalize_def Let_def run_task_step run_task_Ended andthen_def
      catch_exception_def catch_def split: prod.split sum.split)

lemma run_error_task: "run_task (error_task emit r c m) = emit_error_final emit r c m"
  by (simp add: error_task_def emit_error_final_def run_publish_task)

lemma run_finish_task: "run_task (finish_task emit r ttl out) = finish emit r ttl out"
  by (simp add: finish_task_def finish_def run_task_ok_then run_publish_task run_error_task raise_def
      split: sum.split exn.split)

lemma run_handler_step:
  "run_task (co_then c (finish_task emit r ttl)) = andthen (attempt (co_run c)) (finish emit r ttl)"
  by (rule ext) (simp add: co_run_then run_finish_task andthen_def attempt_def split: prod.split)

lemma run_fresh_task: "run_task (fresh_task router emit ttl r) = run_fresh (uncut_all router) emit ttl r"
  unfolding fresh_task_def run_fresh_def resolve_uncut
  by (cases "resolve router (q_type r)")
    (simp_all add: run_task_ok_then run_handler_step run_error_task andthen_assoc co_run_timeout uncut_def)

lemma run_received_task:
  "run_task (step m (received_task router emit ttl r)) = andthen (attempt m) (\<lambda>out. case out of
      Inl e \<Rightarrow> if e = Cancelled then raise e else emit_error_final emit r INTERNAL ''persistence error''
    | Inr fresh \<Rightarrow>
        if fresh then run_fresh (uncut_all router) emit ttl r
        else andthen (record_event (q_id r) (q_from r) REJECTED (Some ''duplicate'')) (\<lambda>_.
               emit_error_final emit r DUPLICATE ''Duplicate request id for this node''))"
  by (rule ext)
    (simp add: run_task_step received_task_def run_fresh_task run_error_task run_task_ok_then andthen_def
      attempt_def raise_def split: prod.split sum.split)

lemma run_request_task:
  "run_task (request_task router emit policy r) = process_request (uncut_all router) emit policy r"
  by (simp add: request_task_def process_request_def Let_def run_received_task)

lemma run_default_task:
  "run_task (request_task CUT_HANDLERS emit policy r) = process_request DEFAULT_HANDLERS emit policy r"
  by (simp only: run_request_task uncut_all_handlers)

section \<open>Tasks taking turns\<close>

text \<open>
  A system is the list of tasks started so far and the world they share. A request arrives, or one
  task makes its next step.
\<close>

inductive sys_step ::
  "(request \<Rightarrow> task) \<Rightarrow> task list \<times> world \<Rightarrow> task list \<times> world \<Rightarrow> bool" for start where
  arrive: "q_from r \<noteq> [] \<Longrightarrow> sys_step start (ts, w) (ts @ [start r], w)"
| move: "i < length ts \<Longrightarrow> ts ! i = Run f \<Longrightarrow> f w = (t', w') \<Longrightarrow> sys_step start (ts, w) (ts[i := t'], w')"

inductive_cases sys_stepE: "sys_step start (ts, w) (ts', w')"

inductive sys_reach ::
  "(request \<Rightarrow> task) \<Rightarrow> world \<Rightarrow> task list \<times> world \<Rightarrow> bool" for start w0 where
  idle: "sys_reach start w0 ([], w0)"
| next_step: "sys_reach start w0 s \<Longrightarrow> sys_step start s s' \<Longrightarrow> sys_reach start w0 s'"

section \<open>Budgets\<close>

text \<open>
  \<open>spends mu F n t\<close>: whatever the other tasks do between its steps, \<open>t\<close> adds at most \<open>n\<close> to the
  measure \<open>mu\<close> and leaves the observation \<open>F\<close> alone.
\<close>

inductive spends :: "(world \<Rightarrow> nat) \<Rightarrow> (world \<Rightarrow> bool) \<Rightarrow> nat \<Rightarrow> task \<Rightarrow> bool" for mu F where
  spends_Ended: "spends mu F n (Ended out)"
| spends_Run: "(\<And>w t' w'. f w = (t', w') \<Longrightarrow>
      \<exists>d m. mu w' \<le> mu w + d \<and> d + m \<le> n \<and> F w' = F w \<and> spends mu F m t') \<Longrightarrow> spends mu F n (Run f)"

inductive_cases spends_RunE: "spends mu F n (Run f)"

lemma spends_step:
  assumes "\<And>w out w'. m w = (out, w') \<Longrightarrow>
     \<exists>d j. mu w' \<le> mu w + d \<and> d + j \<le> n \<and> F w' = F w \<and> spends mu F j (k out)"
  shows "spends mu F n (step m k)"
  unfolding step_def by (rule spends_Run) (use assms in \<open>auto split: prod.splits\<close>)

lemma spends_free:
  assumes "evolves (same mu) m" "evolves (same F) m" "\<And>out. spends mu F n (k out)"
  shows "spends mu F n (step m k)"
proof (rule spends_step)
  fix w out w'
  assume "m w = (out, w')"
  then have "mu w' = mu w" "F w' = F w" using evolves_sameD assms(1,2) by metis+
  with assms(3) [of out] show "\<exists>d j. mu w' \<le> mu w + d \<and> d + j \<le> n \<and> F w' = F w \<and> spends mu F j (k out)"
    by (intro exI [of _ 0] exI [of _ n]) simp
qed

lemma spends_then:
  "co_all (same (\<lambda>w. (mu w, F w))) P c \<Longrightarrow> (\<And>out. P out \<Longrightarrow> spends mu F n (k out)) \<Longrightarrow> spends mu F n (co_then c k)"
proof (induction rule: co_all.induct)
  case (all_Run f)
  show ?case unfolding co_then.simps
  proof (rule spends_Run)
    fix w t' w'
    assume "(map_prod (\<lambda>c. co_then c k) id \<circ> f) w = (t', w')"
    then obtain c where c: "f w = (c, w')" "t' = co_then c k" by (cases "f w") auto
    with all_Run.IH all_Run.prems show
      "\<exists>d m. mu w' \<le> mu w + d \<and> d + m \<le> n \<and> F w' = F w \<and> spends mu F m t'"
      by (intro exI [of _ 0] exI [of _ n]) (auto simp: same_def)
  qed
qed simp

lemma spends_ok_then: "(\<And>x. spends mu F n (k x)) \<Longrightarrow> spends mu F n (ok_then k out)"
  by (cases out) (auto simp: ok_then_def intro: spends_Ended)

text \<open>What the tasks of a system have spent together with what they may still spend.\<close>

definition within_budget ::
  "(world \<Rightarrow> nat) \<Rightarrow> (world \<Rightarrow> bool) \<Rightarrow> (task \<Rightarrow> bool) \<Rightarrow> nat \<Rightarrow> task list \<times> world \<Rightarrow> bool" where
  "within_budget mu F new most s \<longleftrightarrow>
     (\<exists>ns. list_all2 (\<lambda>n t. spends mu F n t \<or> (n = 0 \<and> new t)) ns (fst s) \<and> mu (snd s) + sum_list ns \<le> most)"

lemma sum_list_update_le:
  "i < length ns \<Longrightarrow> d + m \<le> (ns ! i :: nat) \<Longrightarrow> d + sum_list (ns[i := m]) \<le> sum_list ns"
proof (induction ns arbitrary: i)
  case (Cons a ns)
  then show ?case by (cases i) (auto simp: less_Suc_eq_0_disj)
qed simp

lemma budget_move:
  assumes "within_budget mu F new most (ts, w)" "i < length ts" "ts ! i = Run f" "f w = (t', w')"
    "\<not> new (Run f)"
  shows "within_budget mu F new most (ts[i := t'], w') \<and> F w' = F w"
proof -
  obtain ns where ns: "list_all2 (\<lambda>n t. spends mu F n t \<or> (n = 0 \<and> new t)) ns ts" "mu w + sum_list ns \<le> most"
    using assms(1) by (auto simp: within_budget_def)
  then have len: "length ns = length ts" by (simp add: list_all2_lengthD)
  have "spends mu F (ns ! i) (Run f)"
    using list_all2_nthD2 [OF ns(1) assms(2)] assms(3,5) by auto
  then obtain d m where dm: "mu w' \<le> mu w + d" "d + m \<le> ns ! i" "F w' = F w" "spends mu F m t'"
    using assms(4) by (elim spends_RunE) blast
  have "list_all2 (\<lambda>n t. spends mu F n t \<or> (n = 0 \<and> new t)) (ns[i := m]) (ts[i := t'])"
    using ns(1) dm(4) by (intro list_all2_update_cong) simp_all
  moreover have "mu w' + sum_list (ns[i := m]) \<le> most"
    using sum_list_update_le [of i ns d m] dm(1,2) ns(2) assms(2) len by linarith
  ultimately show ?thesis using dm(3) by (auto simp: within_budget_def)
qed

lemma within_budget_mono: "within_budget mu F new most s \<Longrightarrow> most \<le> most' \<Longrightarrow> within_budget mu F new most' s"
  by (auto simp: within_budget_def)

section \<open>Responses under any schedule\<close>

abbreviation service_task :: "timeout_policy \<Rightarrow> request \<Rightarrow> task" where
  "service_task \<equiv> request_task CUT_HANDLERS service_emit"

abbreviation answered :: "world \<Rightarrow> nat" where
  "answered w \<equiv> length (responses w)"

abbreviation anything :: "world \<Rightarrow> bool" where
  "anything w \<equiv> True"

lemma same_anything [evolves_intros]: "evolves (same anything) m"
  by (simp add: evolves_def same_def)

lemma quiet_answered: "quiet m \<Longrightarrow> evolves (same answered) m"
  by (simp add: evolves_def same_def)

lemma quiet_rows:
  "quiet (record_event i n s dt)" "quiet (record_completion i n f p e)" "quiet (record_received r ttl)"
  "quiet (mark_node_seen v t)"
  unfolding store_api_defs by (rule evolves_intros)+

lemma spends_quiet: "quiet m \<Longrightarrow> (\<And>out. spends answered anything n (k out)) \<Longrightarrow> spends answered anything n (step m k)"
  by (rule spends_free) (auto intro: quiet_answered same_anything)

lemma publish_speaks_once:
  assumes "answers r p" "q_from r \<noteq> []"
  shows "spends answered anything (Suc 0) (publish_task service_emit r p f e)"
  unfolding publish_task_def Let_def
proof (rule spends_step)
  fix w out w'
  let ?completion = "step (record_completion (q_id r) (q_from r) f (Some p) e) Ended"
  let ?go_on = "\<lambda>out :: exn + unit. if out = Inl Cancelled then Ended (Inl Cancelled) else ?completion"
  assume "service_emit (q_from r) p w = (out, w')"
  then have "replied r w w'" using evolvesD [OF dflt.emit_replied [OF assms]] by blast
  then have "answered w' \<le> answered w + 1" by (auto simp: replied_def)
  moreover have go: "spends answered anything 0 (?go_on out)" for out
    by (auto intro!: spends_Ended spends_quiet quiet_rows)
  then have "spends answered anything 0 (case out of Inl e \<Rightarrow> ?go_on (Inl e)
      | Inr _ \<Rightarrow> step (record_event (q_id r) (q_from r) RESPONSE_PUBLISHED None) ?go_on)"
    by (cases out) (auto intro!: spends_quiet quiet_rows spends_Ended)
  ultimately show "\<exists>d j. answered w' \<le> answered w + d \<and> d + j \<le> Suc 0 \<and> True = True \<and>
      spends answered anything j (case out of Inl e \<Rightarrow> ?go_on (Inl e)
        | Inr _ \<Rightarrow> step (record_event (q_id r) (q_from r) RESPONSE_PUBLISHED None) ?go_on)"
    by (intro exI [of _ 1] exI [of _ 0]) simp
qed

lemma error_speaks_once:
  "q_from r \<noteq> [] \<Longrightarrow> spends answered anything (Suc 0) (error_task service_emit r c m)"
  unfolding error_task_def by (rule publish_speaks_once) simp_all

lemma finish_speaks_once:
  assumes "q_from r \<noteq> []" "\<And>p. out = Inr p \<Longrightarrow> answers r p"
  shows "spends answered anything (Suc 0) (finish_task service_emit r ttl out)"
  using assms unfolding finish_task_def
  by (auto split: sum.split exn.split
      intro!: spends_Ended publish_speaks_once error_speaks_once spends_quiet quiet_rows spends_ok_then)

lemma fresh_speaks_once:
  assumes "q_from r \<noteq> []"
  shows "spends answered anything (Suc 0) (fresh_task CUT_HANDLERS service_emit ttl r)"
proof -
  have run: "spends answered anything (Suc 0)
      (co_then (co_run_with_timeout (h r) ttl) (finish_task service_emit r ttl))"
    if h: "cut_ok h" for h
  proof (rule spends_then)
    show "co_all (same (\<lambda>w. (answered w, anything w))) (fine (\<lambda>p. answers r p \<and> p_status p = ''ok''))
        (co_run_with_timeout (h r) ttl)"
    proof (rule timeout_all)
      show "serene (\<lambda>p. answers r p \<and> p_status p = ''ok'') (h r)" using h by (simp add: cut_ok_def)
    qed (auto simp: same_def surroundings_def inc_in_flight_def dec_in_flight_def responses_def intro!: evolves_modify)
  qed (auto intro!: finish_speaks_once [OF assms])
  have seen: "quiet (andthen time_time (\<lambda>now. mark_node_seen v (fin_ts now)))" for v
    by (intro evolves_intros quiet_rows)
  show ?thesis
    unfolding fresh_task_def
    using assms cut_handlers_ok [of "q_type r"]
    by (auto split: option.split intro!: spends_quiet spends_ok_then quiet_rows seen error_speaks_once run)
qed

lemma request_speaks_once:
  assumes "q_from r \<noteq> []"
  shows "spends answered anything (Suc 0) (service_task policy r)"
  unfolding request_task_def Let_def received_task_def
  using assms
  by (auto split: sum.split intro!: spends_quiet spends_ok_then quiet_rows spends_Ended error_speaks_once fresh_speaks_once)

lemma budget_arrive:
  assumes "within_budget mu F new most (ts, w)" "spends mu F n t \<or> (n = 0 \<and> new t)"
  shows "within_budget mu F new (most + n) (ts @ [t], w)"
proof -
  obtain ns where "list_all2 (\<lambda>n t. spends mu F n t \<or> (n = 0 \<and> new t)) ns ts" "mu w + sum_list ns \<le> most"
    using assms(1) by (auto simp: within_budget_def)
  with assms(2) show ?thesis
    unfolding within_budget_def by (intro exI [of _ "ns @ [n]"]) (simp add: list_all2_appendI)
qed

lemma system_speaks:
  assumes "sys_reach (service_task policy) w0 s"
  shows "within_budget answered anything (\<lambda>t. False) (answered w0 + length (fst s)) s"
  using assms
proof (induction rule: sys_reach.induct)
  case idle
  show ?case by (simp add: within_budget_def)
next
  case (next_step s s')
  obtain ts w where s: "s = (ts, w)" by (cases s)
  from next_step.hyps(2) [unfolded s] show ?case
  proof (cases rule: sys_step.cases)
    case (arrive r)
    with budget_arrive [OF next_step.IH [unfolded s], of "Suc 0"] request_speaks_once [of r policy]
    show ?thesis by simp
  next
    case (move i f t' w')
    with budget_move [OF next_step.IH [unfolded s], of i f t' w'] show ?thesis by simp
  qed
qed

section \<open>Handlers under any schedule\<close>

text \<open>How often a handler was started for a request, by the event log, and whether it has a row.\<close>

definition started :: "string \<times> string \<Rightarrow> world \<Rightarrow> nat" where
  "started k w = length (filter (\<lambda>e. e_state e = HANDLER_STARTED \<and> e_node e = fst k \<and> e_request e = snd k)
     (t_events (w_db w)))"

definition on_record :: "string \<times> string \<Rightarrow> world \<Rightarrow> bool" where
  "on_record k w \<longleftrightarrow> has_request (w_db w) (fst k) (snd k)"

definition tables :: "world \<Rightarrow> request_row list \<times> event_row list" where
  "tables w = (t_requests (w_db w), t_events (w_db w))"

lemma same_tables:
  "evolves (same tables) m \<Longrightarrow> evolves (same (started k)) m" "evolves (same tables) m \<Longrightarrow> evolves (same (on_record k)) m"
  by (auto simp: evolves_def same_def tables_def started_def on_record_def has_request_def)

lemma aside_tables: "aside m \<Longrightarrow> evolves (same tables) m"
  by (rule evolvesI) (auto simp: same_def tables_def dest!: aside_host)

lemma event_other:
  assumes "s \<noteq> HANDLER_STARTED \<or> (n, i) \<noteq> k"
  shows "evolves (same (started k)) (record_event i n s dt)"
  unfolding record_event_def
  by (rule evolves_store_call)
    (use assms in \<open>auto simp: same_def started_def sync_record_event_def new_event_def\<close>)

lemma event_keeps: "evolves (same (on_record k)) (record_event i n s dt)"
  unfolding record_event_def
  by (rule evolves_store_call) (auto simp: same_def on_record_def has_request_def sync_record_event_def)

lemma event_one:
  "record_event i n s dt w = (out, w') \<Longrightarrow> started k w' \<le> started k w + 1"
  by (auto simp: record_event_def store_call_def awaiting_def Let_def sync_record_event_def started_def
      split: option.splits if_splits)

lemma completed_keys:
  "map row_key (map (\<lambda>r. if P r then complete_row now f e p r else r) rs) = map row_key rs"
  by (induction rs) (simp_all add: row_key_def complete_row_def)

lemma completion_rows:
  "evolves (same (started k)) (record_completion i n f p e)" "evolves (same (on_record k)) (record_completion i n f p e)"
  unfolding record_completion_def
  by (rule evolves_store_call;
      auto simp: same_def started_def on_record_def has_request_def sync_record_completion_def completed_keys
        simp del: map_map set_map list.map_comp)+

section \<open>A handler runs at most once per request id\<close>

abbreviation starts_within :: "string \<times> string \<Rightarrow> nat \<Rightarrow> task \<Rightarrow> bool" where
  "starts_within k \<equiv> spends (started k) (on_record k)"

lemma spends_tables:
  "evolves (same tables) m \<Longrightarrow> (\<And>out. starts_within k n (j out)) \<Longrightarrow> starts_within k n (step m j)"
  by (rule spends_free) (auto intro: same_tables)

lemma spends_event:
  "s \<noteq> HANDLER_STARTED \<or> (m, i) \<noteq> k \<Longrightarrow> (\<And>out. starts_within k n (j out)) \<Longrightarrow>
     starts_within k n (step (record_event i m s dt) j)"
  by (rule spends_free) (auto intro: event_other event_keeps)

lemma spends_completion:
  "(\<And>out. starts_within k n (j out)) \<Longrightarrow> starts_within k n (step (record_completion i m f p e) j)"
  by (rule spends_free) (auto intro: completion_rows)

lemma other_states [simp]:
  "RESPONSE_PUBLISHED \<noteq> HANDLER_STARTED" "TIMEOUT \<noteq> HANDLER_STARTED" "REJECTED \<noteq> HANDLER_STARTED"
  "VALIDATED \<noteq> HANDLER_STARTED"
  by (simp_all add: RESPONSE_PUBLISHED_def TIMEOUT_def REJECTED_def VALIDATED_def HANDLER_STARTED_def)

lemma publish_starts_none: "starts_within k 0 (publish_task service_emit r p f e)"
  unfolding publish_task_def Let_def
  by (auto split: sum.split
      intro!: spends_tables spends_event spends_completion spends_Ended aside_tables aside_service_emit)

lemma error_starts_none: "starts_within k 0 (error_task service_emit r c m)"
  unfolding error_task_def by (rule publish_starts_none)

lemma finish_starts_none: "starts_within k 0 (finish_task service_emit r ttl out)"
  unfolding finish_task_def
  by (auto split: sum.split exn.split
      intro!: spends_Ended publish_starts_none error_starts_none spends_event spends_ok_then)

lemma fresh_starts:
  "starts_within k (if (q_from r, q_id r) = k then 1 else 0) (fresh_task CUT_HANDLERS service_emit ttl r)"
proof -
  let ?n = "if (q_from r, q_id r) = k then 1 else 0 :: nat"
  have weak: "starts_within k n t \<Longrightarrow> n \<le> n' \<Longrightarrow> starts_within k n' t" for n n' t
    by (erule spends.cases) (auto intro!: spends.intros, meson le_trans)
  have run: "starts_within k 0 (co_then (co_run_with_timeout (h r) ttl) (finish_task service_emit r ttl))"
    if h: "cut_ok h" for h
  proof (rule spends_then)
    show "co_all (same (\<lambda>w. (started k w, on_record k w))) (fine (\<lambda>p. answers r p \<and> p_status p = ''ok''))
        (co_run_with_timeout (h r) ttl)"
    proof (rule timeout_all)
      show "serene (\<lambda>p. answers r p \<and> p_status p = ''ok'') (h r)" using h by (simp add: cut_ok_def)
      show "same (\<lambda>w. (started k w, on_record k w)) w w'" if "same surroundings w w'" for w w'
        using that by (auto simp: same_def surroundings_def outside_aggregator_def request_tables_def
            started_def on_record_def has_request_def)
    qed (auto simp: same_def started_def on_record_def inc_in_flight_def dec_in_flight_def intro!: evolves_modify)
  qed (rule finish_starts_none)
  have go: "starts_within k ?n (step (record_event (q_id r) (q_from r) HANDLER_STARTED None) (ok_then (\<lambda>_.
      co_then (co_run_with_timeout (h r) ttl) (finish_task service_emit r ttl))))" if h: "cut_ok h" for h
  proof (cases "(q_from r, q_id r) = k")
    case True
    show ?thesis
    proof (rule spends_step)
      fix w out w'
      assume ev: "record_event (q_id r) (q_from r) HANDLER_STARTED None w = (out, w')"
      have "starts_within k 0 (ok_then (\<lambda>_. co_then (co_run_with_timeout (h r) ttl) (finish_task service_emit r ttl)) out)"
        by (intro spends_ok_then run [OF h])
      with event_one [OF ev, of k] evolves_sameD [OF event_keeps ev, of k] True
      show "\<exists>d j. started k w' \<le> started k w + d \<and> d + j \<le> ?n \<and> on_record k w' = on_record k w \<and>
          starts_within k j (ok_then (\<lambda>_. co_then (co_run_with_timeout (h r) ttl) (finish_task service_emit r ttl)) out)"
        by (intro exI [of _ 1] exI [of _ 0]) simp
    qed
  next
    case False
    then show ?thesis by (auto intro!: spends_event spends_ok_then run [OF h])
  qed
  have seen: "evolves (same tables) (andthen time_time (\<lambda>now. mark_node_seen v (fin_ts now)))" for v
    by (rule aside_tables) (intro evolves_intros)
  have err: "starts_within k ?n (error_task service_emit r c m)" for c m
    by (rule weak [OF error_starts_none]) simp
  show ?thesis
    unfolding fresh_task_def
    using cut_handlers_ok [of "q_type r"]
    by (cases "resolve CUT_HANDLERS (q_type r)")
      (simp_all only: option.case,
        (rule spends_event spends_ok_then spends_tables seen err go other_states disjI1 | simp)+)
qed

lemma received_outcome:
  assumes "record_received r ttl w = (out, w')"
  shows "started k w' = started k w \<and>
     (if out = Inr True \<and> (q_from r, q_id r) = k then \<not> on_record k w \<and> on_record k w'
      else on_record k w \<longrightarrow> on_record k w')"
  using assms
  by (auto simp: record_received_def store_call_def awaiting_def Let_def sync_record_received_def
      started_def on_record_def has_request_def new_event_def RECEIVED_def HANDLER_STARTED_def
      new_row_def row_key_def split: option.splits if_splits sum.splits prod.splits)

lemma received_starts:
  "starts_within k (if out = Inr True \<and> (q_from r, q_id r) = k then 1 else 0)
     (received_task CUT_HANDLERS service_emit ttl r out)"
proof (cases "out = Inr True")
  case True
  with fresh_starts [of k r ttl] show ?thesis by (simp add: received_task_def)
next
  case False
  then show ?thesis
    by (auto simp: received_task_def split: sum.split
        intro!: spends_Ended error_starts_none spends_event spends_ok_then)
qed

lemma budget_replace:
  assumes "within_budget mu F new most (ts, w)" "i < length ts" "spends mu F m t'" "mu w' \<le> mu w"
  shows "within_budget mu F new (most + m) (ts[i := t'], w')"
proof -
  obtain ns where ns: "list_all2 (\<lambda>n t. spends mu F n t \<or> (n = 0 \<and> new t)) ns ts" "mu w + sum_list ns \<le> most"
    using assms(1) by (auto simp: within_budget_def)
  then have "i < length ns" using assms(2) by (simp add: list_all2_lengthD)
  then have "0 + sum_list (ns[i := 0]) \<le> sum_list ns" by (intro sum_list_update_le) simp_all
  moreover have "sum_list (ns[i := m]) = sum_list (ns[i := 0]) + m"
    using \<open>i < length ns\<close> by (induction ns arbitrary: i) (auto simp: less_Suc_eq_0_disj)
  ultimately have "mu w' + sum_list (ns[i := m]) \<le> most + m" using ns(2) assms(4) by linarith
  moreover have "list_all2 (\<lambda>n t. spends mu F n t \<or> (n = 0 \<and> new t)) (ns[i := m]) (ts[i := t'])"
    using ns(1) assms(3) by (intro list_all2_update_cong) simp_all
  ultimately show ?thesis by (auto simp: within_budget_def)
qed

definition starts_once :: "timeout_policy \<Rightarrow> string \<times> string \<Rightarrow> task list \<times> world \<Rightarrow> bool" where
  "starts_once policy k s \<longleftrightarrow> within_budget (started k) (on_record k) (\<lambda>t. \<exists>r. t = service_task policy r)
     (of_bool (on_record k (snd s))) s"

lemma starts_once_first_move:
  assumes "starts_once policy k (ts, w)" "i < length ts" "ts ! i = Run f" "f w = (t', w')"
    and "Run f = service_task policy r"
  shows "starts_once policy k (ts[i := t'], w')"
proof -
  let ?ttl = "resolve_ttl policy (q_type r) (q_ttl r)"
  obtain out where out: "record_received r ?ttl w = (out, w')"
    and t': "t' = received_task CUT_HANDLERS service_emit ?ttl r out"
    using assms(4,5) by (auto simp: request_task_def step_def Let_def split: prod.splits)
  let ?m = "if out = Inr True \<and> (q_from r, q_id r) = k then 1 else 0 :: nat"
  have spend: "starts_within k ?m t'" unfolding t' by (rule received_starts)
  note eff = received_outcome [OF out, of k]
  have "of_bool (on_record k w) + ?m \<le> (of_bool (on_record k w') :: nat)"
    using eff by (auto split: if_splits)
  with budget_replace [OF assms(1) [unfolded starts_once_def] assms(2) spend, of w'] eff
  show ?thesis unfolding starts_once_def by (simp add: within_budget_mono)
qed

lemma system_starts_once:
  assumes "sys_reach (service_task policy) w0 s" "started k w0 \<le> of_bool (on_record k w0)"
  shows "starts_once policy k s"
  using assms(1)
proof (induction rule: sys_reach.induct)
  case idle
  with assms(2) show ?case by (simp add: starts_once_def within_budget_def)
next
  case (next_step s s')
  obtain ts w where s: "s = (ts, w)" by (cases s)
  note inv = next_step.IH [unfolded s]
  from next_step.hyps(2) [unfolded s] show ?case
  proof (cases rule: sys_step.cases)
    case (arrive r)
    have "starts_within k 0 (service_task policy r) \<or>
        ((0 :: nat) = 0 \<and> (\<exists>r'. service_task policy r = service_task policy r'))" by blast
    from budget_arrive [OF inv [unfolded starts_once_def] this] arrive show ?thesis
      by (simp add: starts_once_def)
  next
    case (move i f t' w')
    show ?thesis
    proof (cases "\<exists>r. Run f = service_task policy r")
      case True
      with starts_once_first_move [OF inv] move show ?thesis by blast
    next
      case False
      with budget_move [OF inv [unfolded starts_once_def] move(2-4)] move show ?thesis
        by (simp add: starts_once_def)
    qed
  qed
qed

lemma within_budget_bound: "within_budget mu F new most s \<Longrightarrow> mu (snd s) \<le> most"
  by (auto simp: within_budget_def)

end
