(* ===== verification/Service.thy ===== *)
theory Service
  imports Core
begin

text \<open>
  transport/bus.py (the gateway cache), transport/service.py (event routing, the request task, the
  base location, health messages, the consume loop) and retention.py.

  A message is its topic and its payload, the latter as an \<open>Adapter.payload\<close>: what \<open>json.loads\<close>
  makes of the decoded text. A request is handled in a task of its own; here the task runs to its
  end before the next message is taken, and an exception of the task ends in the task.
\<close>

record inbound =
  in_topic :: string
  in_empty :: bool
  in_json :: payload

definition starts_with :: "string \<Rightarrow> string \<Rightarrow> bool" where
  "starts_with p s \<longleftrightarrow> take (length p) s = p"

section \<open>The gateway cache (transport/bus.py)\<close>

text \<open>
  \<open>_maybe_cache\<close>. Only \<open>JSONDecodeError\<close> is caught around the parsing, so a payload that is
  JSON but no object makes \<open>parsed.get\<close> raise \<open>AttributeError\<close>.
\<close>

definition gateway_fields :: "inbound \<Rightarrow> exn + (pyval \<times> pyval \<times> pyval)" where
  "gateway_fields m =
     ebind (if in_empty m then Inr (VDict []) else in_json m) (\<lambda>parsed.
       case parsed of
         VDict d \<Rightarrow> Inr (dget_or d ''state'' (VStr ''unknown''), dget d ''detail'', dget d ''since'')
       | _ \<Rightarrow> Inl (PyExn ''AttributeError''))"

definition maybe_cache :: "inbound \<Rightarrow> (world, unit) prog" where
  "maybe_cache m =
     (if in_topic m \<noteq> GATEWAY_STATUS then ret ()
      else case gateway_fields m of
          Inl e \<Rightarrow> if e = JSONDecodeError then ret () else raise e
        | Inr (state, detail, since) \<Rightarrow>
            andthen time_time (\<lambda>now.
            andthen (modify (\<lambda>w. w\<lparr>w_gateway := \<lparr>c_state = state, c_detail = detail, c_since = since,
                                    c_snapped_at = Some now\<rparr>\<rparr>)) (\<lambda>_.
              catch_exception (record_gateway_snapshot state detail since) (ret ()))))"

section \<open>Gateway events (transport/service.py)\<close>

text \<open>\<open>_safe_json\<close>; \<open>None\<close> is the JSON null and the answer to undecodable text alike.\<close>

definition safe_json :: "payload \<Rightarrow> exn + pyval" where
  "safe_json p = (case p of
      Inr v \<Rightarrow> Inr v
    | Inl e \<Rightarrow> if e = JSONDecodeError \<or> e = PyExn ''ValueError'' then Inr VNone else Inl e)"

definition either_key :: "pydict \<Rightarrow> string \<Rightarrow> string \<Rightarrow> pyval" where
  "either_key d k k' = (if has_key d k then dget d k else dget d k')"

definition extract_radio_metadata :: "payload \<Rightarrow> exn + (int option \<times> pyfloat option)" where
  "extract_radio_metadata p = ebind (safe_json p) (\<lambda>data.
     case data of
       VDict d \<Rightarrow>
         (let inner = (case dget d ''payload'' of VDict i \<Rightarrow> i | _ \<Rightarrow> d);
              rssi_raw = either_key inner ''RSSI'' ''rssi'';
              snr_raw = either_key inner ''SNR'' ''snr''
          in ebind (if is_num rssi_raw then ebind (int_of rssi_raw) (\<lambda>n. Inr (Some n)) else Inr None)
               (\<lambda>rssi. ebind (opt_float snr_raw) (\<lambda>snr. Inr (rssi, snr))))
     | _ \<Rightarrow> Inr (None, None))"

text \<open>\<open>data.get("pubkey") or data.get("node_id")\<close>\<close>

definition event_node :: "pydict \<Rightarrow> pyval" where
  "event_node d = py_or (dget d ''pubkey'') (dget d ''node_id'')"

definition handle_battery_event :: "pyval \<Rightarrow> (world, unit) prog" where
  "handle_battery_event data = (case data of
      VDict d \<Rightarrow>
        if \<not> truthy (event_node d) then ret ()
        else andthen (or_now (dget d ''ts'')) (\<lambda>ts.
          apply_battery (event_node d) ts (py_or (dget d ''pct'') (dget d ''battery_pct''))
            (dget d ''voltage'') ''telemetry'')
    | _ \<Rightarrow> raise (PyExn ''AttributeError''))"

definition handle_telemetry_event :: "pyval \<Rightarrow> (world, unit) prog" where
  "handle_telemetry_event data = (case data of
      VDict d \<Rightarrow>
        if \<not> truthy (event_node d) then ret ()
        else andthen (or_now (dget d ''ts'')) (\<lambda>ts. apply_seen (event_node d) ts None None)
    | _ \<Rightarrow> raise (PyExn ''AttributeError''))"

definition direct_prefix :: string where
  "direct_prefix = GATEWAY_NATIVE_PREFIX @ ''/message/direct/''"

definition battery_topic :: string where
  "battery_topic = gateway_native_battery GATEWAY_NATIVE_PREFIX"

definition telemetry_topic :: string where
  "telemetry_topic = gateway_native_telemetry GATEWAY_NATIVE_PREFIX"

definition route_event :: "string \<Rightarrow> payload \<Rightarrow> (world, unit) prog" where
  "route_event topic p =
     (if starts_with direct_prefix topic
      then andthen (lift (extract_radio_metadata p)) (\<lambda>(rssi, snr).
           andthen time_time (\<lambda>now.
             apply_seen (VStr (drop (length direct_prefix) topic)) (fin_ts now) rssi snr))
      else if topic = battery_topic
      then andthen (lift (safe_json p)) (\<lambda>data.
             if truthy data then handle_battery_event data else ret ())
      else if topic = telemetry_topic
      then andthen (lift (safe_json p)) (\<lambda>data.
             if truthy data then handle_telemetry_event data else ret ())
      else ret ())"

section \<open>Requests\<close>

definition handle_one :: "timeout_policy \<Rightarrow> string \<Rightarrow> payload \<Rightarrow> (world, unit) prog" where
  "handle_one policy topic p =
     andthen (gets w_host) (\<lambda>h.
     andthen (lift (inbound_to_request (h_lax_int h) (h_float_repr h) topic p)) (\<lambda>env.
       case env_request env of
         None \<Rightarrow> (case env_error env of
             None \<Rightarrow> ret ()
           | Some err \<Rightarrow> catch_exception (service_emit (p_to err) err) (ret ()))
       | Some r \<Rightarrow> process_request DEFAULT_HANDLERS service_emit policy r))"

section \<open>The consume loop\<close>

text \<open>A task: what it raises, cancellation apart, is not seen by the one who created it.\<close>

definition spawn :: "(world, unit) prog \<Rightarrow> (world, unit) prog" where
  "spawn m = catch_exception m (ret ())"

definition consume :: "timeout_policy \<Rightarrow> inbound \<Rightarrow> (world, unit) prog" where
  "consume policy m =
     andthen (maybe_cache m) (\<lambda>_.
       if in_topic m = RPC_REQUEST then spawn (handle_one policy (in_topic m) (in_json m))
       else if starts_with direct_prefix (in_topic m) \<or> in_topic m = battery_topic
            \<or> in_topic m = telemetry_topic
       then catch_exception (route_event (in_topic m) (in_json m)) (ret ())
       else ret ())"

fun consume_loop :: "timeout_policy \<Rightarrow> inbound list \<Rightarrow> (world, unit) prog" where
  "consume_loop policy [] = ret ()"
| "consume_loop policy (m # ms) = andthen (consume policy m) (\<lambda>_. consume_loop policy ms)"

section \<open>Health, base location, the life of the service\<close>

text \<open>\<open>_vcgencmd_power_ok\<close>, from the stripped output of the command (none off a Pi).\<close>

definition power_ok :: "string option \<Rightarrow> bool option" where
  "power_ok out = (case out of
      None \<Rightarrow> None
    | Some s \<Rightarrow> if starts_with ''throttled='' s then Some (s = ''throttled=0x0'') else None)"

definition publish_health :: "string option \<Rightarrow> string \<Rightarrow> (world, unit) prog" where
  "publish_health out state =
     andthen time_time (\<lambda>now.
       bus_publish SVC_HEALTH (VDict ([(''state'', VStr state), (''ts'', fin_ts now)]
         @ (case power_ok out of None \<Rightarrow> [] | Some b \<Rightarrow> [(''power_ok'', VBool b)]))) True)"

definition init_static_base :: "pyfloat option \<Rightarrow> pyfloat option \<Rightarrow> (world, unit) prog" where
  "init_static_base static_lat static_lon = (case (static_lat, static_lon) of
      (Some lat, Some lon) \<Rightarrow>
        andthen time_time (\<lambda>now.
          apply_base_location \<lparr>f_lat = lat, f_lon = lon, f_ts = Flt (Fin now), f_alt = None,
            f_acc = None, f_fix = Some 3, f_spd = None, f_hdg = None\<rparr> ''static'')
    | _ \<Rightarrow> ret ())"

text \<open>
  The \<open>on_fix\<close> callback of \<open>_init_gpsd_base\<close>: a fix is passed on when it moved by more than
  4.5e-5 degrees or when the quiet period is over. The two cells of the closure are the state it is
  given and returns; an exception leaves them as they were.
\<close>

record gps_throttle =
  th_last_publish :: real
  th_last_pos :: "(pyfloat \<times> pyfloat) option"

definition fabs :: "pyfloat \<Rightarrow> pyfloat" where
  "fabs f = (if flt f (Flt (Fin 0)) then fneg f else f)"

definition moved_enough :: "pyfloat \<Rightarrow> pyfloat \<Rightarrow> bool" where
  "moved_enough a b \<longleftrightarrow> flt (Flt (Fin (45 / 1000000))) (fabs (fsub a b))"

definition fix_moved :: "gps_throttle \<Rightarrow> location_fix \<Rightarrow> bool" where
  "fix_moved th fx = (case th_last_pos th of
      None \<Rightarrow> True
    | Some (lat, lon) \<Rightarrow> moved_enough (f_lat fx) lat \<or> moved_enough (f_lon fx) lon)"

definition on_fix :: "pyfloat \<Rightarrow> gps_throttle \<Rightarrow> location_fix \<Rightarrow> (world, gps_throttle) prog" where
  "on_fix publish_interval th fx =
     andthen time_time (\<lambda>now.
       if \<not> fix_moved th fx \<and> \<not> fle publish_interval (Flt (Fin (now - th_last_publish th)))
       then ret th
       else andthen (apply_base_location fx ''gpsd'') (\<lambda>_.
         ret \<lparr>th_last_publish = now, th_last_pos = Some (f_lat fx, f_lon fx)\<rparr>))"

text \<open>\<open>Service.run\<close> from the connection on, for a base location of source \<open>static\<close>.\<close>

definition run_service ::
  "timeout_policy \<Rightarrow> pyfloat option \<Rightarrow> pyfloat option \<Rightarrow> string option \<Rightarrow> inbound list \<Rightarrow> (world, unit) prog" where
  "run_service policy lat lon vcgencmd msgs =
     andthen (modify (\<lambda>w. w\<lparr>w_connected := True\<rparr>)) (\<lambda>_.
     finally_do
       (andthen (publish_health vcgencmd ''running'') (\<lambda>_.
        andthen (init_static_base lat lon) (\<lambda>_.
          finally_do (consume_loop policy msgs)
            (catch_exception (publish_health vcgencmd ''stopped'') (ret ())))))
       (modify (\<lambda>w. w\<lparr>w_connected := False\<rparr>)))"

section \<open>Retention (retention.py)\<close>

definition SECONDS_PER_DAY :: real where "SECONDS_PER_DAY = 86400"

record sweeper =
  sw_days :: int
  sw_interval_s :: pyfloat

definition make_sweeper :: "int \<Rightarrow> pyfloat \<Rightarrow> exn + sweeper" where
  "make_sweeper days interval_s =
     (if days < 1 then Inl (PyExn ''ValueError'')
      else if flt interval_s (Flt (Fin 1)) then Inl (PyExn ''ValueError'')
      else Inr \<lparr>sw_days = days, sw_interval_s = interval_s\<rparr>)"

definition run_once :: "sweeper \<Rightarrow> (world, int) prog" where
  "run_once s =
     andthen time_time (\<lambda>now.
       catch_exception (purge_before (now - of_int (sw_days s) * SECONDS_PER_DAY)) (ret 0))"

text \<open>\<open>_run\<close>, for a number of ticks.\<close>

fun sweep :: "sweeper \<Rightarrow> nat \<Rightarrow> (world, int) prog" where
  "sweep s 0 = run_once s"
| "sweep s (Suc n) = andthen (run_once s) (\<lambda>d. andthen (sweep s n) (\<lambda>e. ret (d + e)))"

end
