(* ===== verification/HandlerProps.thy ===== *)
theory HandlerProps
  imports PipelineProps
begin

text \<open>
  What the handlers promise their callers: which of them touch anything, what a location report
  stores and what a later query gives back, when a base fix is too old, when a node counts as
  online, and the ranges of the numbers in an answer.
\<close>

section \<open>Read-only handlers\<close>

definition persistent :: "world \<Rightarrow> store \<times> message list \<times> (string \<rightharpoonup> radio_meta)" where
  "persistent w = (w_db w, w_sent w, w_radio w)"

lemma reads_query [evolves_intros]: "evolves (same persistent) (store_query f)"
  by (rule evolves_store_query) (simp add: same_def persistent_def)

lemma reads_time [evolves_intros]: "evolves (same persistent) time_time"
  by (rule evolves_time_time) (simp add: same_def persistent_def)

lemma reads_pieces [evolves_intros]:
  "evolves (same persistent) (get_last_seen n)" "evolves (same persistent) (get_node_location n)"
  "evolves (same persistent) (get_node_battery n)" "evolves (same persistent) (get_base_state k)"
  "evolves (same persistent) counts"
  unfolding store_api_defs by (intro evolves_intros)+

lemma reads_more [evolves_intros]:
  "evolves (same persistent) get_base_location" "evolves (same persistent) (get_node_state n)"
  "evolves (same persistent) get_gateway_snapshot" "evolves (same persistent) (snap_age g)"
  "evolves (same persistent) (caller_position r)"
  unfolding get_base_location_def get_node_state_def get_gateway_snapshot_def snap_age_def
    caller_position_def
  by (intro evolves_intros)+

lemma reading_handlers:
  "evolves (same persistent) (handle_ping r)" "evolves (same persistent) (handle_echo r)"
  "evolves (same persistent) (handle_time_now r)" "evolves (same persistent) (handle_gateway_status r)"
  "evolves (same persistent) (handle_node_last_seen r)" "evolves (same persistent) (handle_base_location r)"
  "evolves (same persistent) (handle_node_location r)" "evolves (same persistent) (handle_node_status r)"
  "evolves (same persistent) (handle_return_to_base r)"
  unfolding handler_defs by (intro evolves_intros)+

text \<open>
  Every default handler but \<open>node.location.report\<close> only reads: whatever it returns or
  raises, the tables, the published messages and the radio metadata are as before.
\<close>

theorem only_report_writes:
  assumes "(t, h) \<in> set DEFAULT_HANDLERS" "t \<noteq> ''node.location.report''" "h r w = (res, w')"
  shows "w_db w' = w_db w \<and> w_sent w' = w_sent w \<and> w_radio w' = w_radio w"
proof -
  have "evolves (same persistent) (h r)"
    using assms(1,2) by (auto simp: DEFAULT_HANDLERS_def reading_handlers)
  from evolves_sameD [OF this assms(3)] show ?thesis by (simp add: persistent_def)
qed

theorem only_report_writes_witness:
  "w_db (snd (handle_ping sample_request sample_world)) = empty_store"
  using only_report_writes [of "''ping''" handle_ping, OF _ _ prod.collapse [symmetric], of sample_request
      sample_world]
  by (simp add: DEFAULT_HANDLERS_def sample_world_def)

section \<open>Location reports\<close>

definition acceptable_position :: "pydict \<Rightarrow> bool" where
  "acceptable_position a \<longleftrightarrow> is_num (dget a ''lat'') \<and> is_num (dget a ''lon'') \<and>
     in_range (- 90) 90 (dget a ''lat'') \<and> in_range (- 180) 180 (dget a ''lon'')"

lemma in_range_Fin:
  assumes "is_num v" "in_range lo hi v" "\<bar>lo\<bar> \<le> 1000" "\<bar>hi\<bar> \<le> 1000"
  obtains x where "as_float v = Inr (Flt (Fin x))" "of_int lo \<le> x" "x \<le> of_int hi"
proof (cases v)
  case (VInt n)
  with assms have n: "lo \<le> n" "n \<le> hi" by (simp_all add: in_range_def)
  have "(1000::int) < 2 ^ 1024 - 2 ^ 970" by simp
  with n assms(3,4) have "\<bar>n\<bar> < 2 ^ 1024 - 2 ^ 970" by linarith
  with VInt n that show ?thesis by (simp add: float_of_int_def)
next
  case (VFloat f)
  with assms that show ?thesis
    by (cases f) (auto simp: in_range_def elim: xreal.exhaust, metis less_eq_xreal.simps xreal.exhaust)
qed (use assms that in \<open>auto simp: in_range_def\<close>)

lemma store_call_Inr:
  "store_call f w = (Inr x, w') \<Longrightarrow> \<exists>st now. f st now (w_db w) = Inr (x, w_db w') \<and> w_radio w' = w_radio w"
  by (auto simp: store_call_def awaiting_def Let_def split: option.splits if_splits sum.splits; blast)

definition places :: "world \<Rightarrow> (sqlval \<rightharpoonup> location_row) \<times> (string \<rightharpoonup> base_row)" where
  "places w = (t_locations (w_db w), t_base (w_db w))"

lemma places_seen [evolves_intros]: "evolves (same places) (mark_node_seen v t)"
  unfolding mark_node_seen_def
  by (rule evolves_store_call)
    (auto simp: same_def places_def sync_mark_node_seen_def Let_def split: sum.splits if_splits)

lemma places_publish [evolves_intros]: "evolves (same places) (bus_publish t p b)"
  by (rule evolves_bus_publish) (simp_all add: same_def places_def)

lemma places_radio [evolves_intros]: "evolves (same places) (note_radio n r s t)"
  unfolding note_radio_def
  by (rule evolves_modify) (auto simp: same_def places_def split: pyval.split)

lemma persistent_places: "evolves (same persistent) m \<Longrightarrow> evolves (same places) m"
  by (simp add: evolves_def same_def persistent_def places_def)

lemma places_republish [evolves_intros]: "evolves (same places) (republish_state n)"
  unfolding republish_state_def by (intro evolves_intros persistent_places)

text \<open>What follows the writing of the row.\<close>

definition after_upsert ::
  "string \<Rightarrow> location_fix \<Rightarrow> string \<Rightarrow> int option \<Rightarrow> pyfloat option \<Rightarrow> (world, unit) prog" where
  "after_upsert n fx src rssi snr =
     andthen (mark_node_seen (VStr n) (VFloat (f_ts fx))) (\<lambda>_.
     andthen (note_radio (VStr n) rssi snr (VFloat (f_ts fx))) (\<lambda>_.
     andthen (bus_publish (node_location_topic n)
                (compact_json (location_body n fx src rssi snr)) True) (\<lambda>_.
       republish_state (VStr n))))"

lemma apply_location_split:
  "apply_location n fx src rssi snr =
     andthen (upsert_node_location (VStr n) fx (Some src) rssi snr) (\<lambda>_. after_upsert n fx src rssi snr)"
  by (simp add: apply_location_def after_upsert_def)

lemma after_upsert_keeps: "evolves (same places) (after_upsert n fx src rssi snr)"
  unfolding after_upsert_def by (intro evolves_intros)

lemma apply_location_stores:
  assumes "apply_location n fx src rssi snr w = (Inr u, w')"
  shows "admits_location (fx, Some src, rssi, snr) \<and>
     t_locations (w_db w') = (t_locations (w_db w))(SText n \<mapsto>
       the (location_of_fix fx (Some src) rssi snr))"
proof -
  from assms obtain v where v: "upsert_node_location (VStr n) fx (Some src) rssi snr w = (Inr (), v)"
      and rest: "after_upsert n fx src rssi snr v = (Inr u, w')"
    unfolding apply_location_split by (cases rule: andthenE) auto
  from evolves_sameD [OF after_upsert_keeps rest] have "t_locations (w_db w') = t_locations (w_db v)"
    by (simp add: places_def)
  with store_call_Inr [OF v [unfolded upsert_node_location_def]] show ?thesis
    by (auto simp: upsert_node_location_Inr)
qed

text \<open>
  A report that is acknowledged: the position is a number in range and the sender's row holds it.
\<close>

lemma report_acknowledged_run:
  assumes "handle_node_location_report r w = (Inr p, w')"
  obtains tv v fx where "acceptable_position (q_args r)" "or_now (dget (q_args r) ''ts'') w = (Inr tv, v)"
    "report_fix (q_args r) tv = Inr fx" "apply_location (q_from r) fx ''report'' None None v = (Inr (), w')"
    "p = response_ok r [(''ack'', VBool True), (''ts'', VFloat (f_ts fx))]"
proof -
  let ?a = "q_args r"
  have ok: "acceptable_position ?a"
    using assms by (auto simp: handle_node_location_report_def acceptable_position_def Let_def
        split: if_splits)
  with assms have run: "andthen (or_now (dget ?a ''ts'')) (\<lambda>tv.
              andthen (lift (report_fix ?a tv)) (\<lambda>fx.
              andthen (apply_location (q_from r) fx ''report'' None None) (\<lambda>_.
                ret (response_ok r [(''ack'', VBool True), (''ts'', VFloat (f_ts fx))])))) w = (Inr p, w')"
    by (simp add: handle_node_location_report_def acceptable_position_def Let_def)
  then obtain tv v where tv: "or_now (dget ?a ''ts'') w = (Inr tv, v)"
      and run2: "andthen (lift (report_fix ?a tv)) (\<lambda>fx.
              andthen (apply_location (q_from r) fx ''report'' None None) (\<lambda>_.
                ret (response_ok r [(''ack'', VBool True), (''ts'', VFloat (f_ts fx))]))) v = (Inr p, w')"
    by (cases rule: andthenE) auto
  from run2 obtain fx where fx: "report_fix ?a tv = Inr fx"
      and run3: "andthen (apply_location (q_from r) fx ''report'' None None) (\<lambda>_.
                ret (response_ok r [(''ack'', VBool True), (''ts'', VFloat (f_ts fx))])) v = (Inr p, w')"
    by (cases rule: andthenE) auto
  from run3 have "apply_location (q_from r) fx ''report'' None None v = (Inr (), w')"
      "p = response_ok r [(''ack'', VBool True), (''ts'', VFloat (f_ts fx))]"
    by (cases rule: andthenE; simp)+
  with ok tv fx show ?thesis by (rule that)
qed

lemma report_acknowledged:
  assumes "handle_node_location_report r w = (Inr p, w')"
  shows "\<exists>fx. acceptable_position (q_args r) \<and>
     as_float (dget (q_args r) ''lat'') = Inr (f_lat fx) \<and>
     as_float (dget (q_args r) ''lon'') = Inr (f_lon fx) \<and>
     p = response_ok r [(''ack'', VBool True), (''ts'', VFloat (f_ts fx))] \<and>
     admits_location (fx, Some ''report'', None, None) \<and>
     t_locations (w_db w') = (t_locations (w_db w))(SText (q_from r) \<mapsto>
       the (location_of_fix fx (Some ''report'') None None))"
proof -
  let ?a = "q_args r"
  from assms obtain tv v fx where ok: "acceptable_position ?a" and tv: "or_now (dget ?a ''ts'') w = (Inr tv, v)"
      and fx: "report_fix ?a tv = Inr fx" and ap: "apply_location (q_from r) fx ''report'' None None v = (Inr (), w')"
      and p: "p = response_ok r [(''ack'', VBool True), (''ts'', VFloat (f_ts fx))]"
    by (rule report_acknowledged_run)
  have "evolves (same persistent) (or_now (dget ?a ''ts''))"
    unfolding or_now_def by (intro evolves_intros)
  from evolves_sameD [OF this tv] have "w_db v = w_db w" by (simp add: persistent_def)
  with apply_location_stores [OF ap] have "admits_location (fx, Some ''report'', None, None)"
      "t_locations (w_db w') = (t_locations (w_db w))(SText (q_from r) \<mapsto>
       the (location_of_fix fx (Some ''report'') None None))"
    by simp_all
  moreover have "as_float (dget ?a ''lat'') = Inr (f_lat fx)" "as_float (dget ?a ''lon'') = Inr (f_lon fx)"
    using fx by (auto simp: report_fix_def ebind_Inr_iff)
  ultimately show ?thesis using ok p by blast
qed

text \<open>
  A report whose position is missing, not a number, NaN or out of range is refused with
  \<open>bad_request\<close>, and nothing at all happens besides.
\<close>

theorem bad_report_refused:
  assumes "\<not> acceptable_position (q_args r)"
  shows "\<exists>m. handle_node_location_report r w = (Inl (RpcError BAD_REQUEST m), w)"
  using assms by (auto simp: handle_node_location_report_def acceptable_position_def Let_def)

theorem bad_report_refused_witness:
  "\<exists>m. handle_node_location_report (sample_request\<lparr>q_args := [(''lat'', VInt 91), (''lon'', VFloat NaN)]\<rparr>)
     sample_world = (Inl (RpcError BAD_REQUEST m), sample_world)"
  by (rule bad_report_refused) (simp add: acceptable_position_def in_range_def)

lemma acceptable_finite:
  assumes "acceptable_position a" "as_float (dget a ''lat'') = Inr la" "as_float (dget a ''lon'') = Inr lo"
  obtains x y where "la = Flt (Fin x)" "lo = Flt (Fin y)" "\<bar>x\<bar> \<le> 90" "\<bar>y\<bar> \<le> 180"
proof -
  from assms(1) have n: "is_num (dget a ''lat'')" "in_range (- 90) 90 (dget a ''lat'')"
      "is_num (dget a ''lon'')" "in_range (- 180) 180 (dget a ''lon'')"
    by (simp_all add: acceptable_position_def)
  from n(1,2) obtain x where x: "as_float (dget a ''lat'') = Inr (Flt (Fin x))" "- 90 \<le> x" "x \<le> 90"
    by (rule in_range_Fin) simp_all
  from n(3,4) obtain y where y: "as_float (dget a ''lon'') = Inr (Flt (Fin y))" "- 180 \<le> y" "y \<le> 180"
    by (rule in_range_Fin) simp_all
  from x y assms that show ?thesis by (simp add: abs_le_iff)
qed

text \<open>
  C19. What was reported is what is found: after an acknowledged report with a finite time stamp
  (a stored one is never NaN, but it may be infinite), \<open>node.location\<close> for that node answers with
  exactly the reported position and the acknowledged time stamp, and with the age of the fix, never
  negative; the position is within the ranges the contract names.
\<close>

theorem reported_location_is_found:
  assumes "handle_node_location_report r w = (Inr p, w')"
    and "p_body p = Some [(''ack'', VBool True), (''ts'', VFloat (Flt (Fin t)))]"
    and "healthy v" "t_locations (w_db v) = t_locations (w_db w')" "target_node q = q_from r"
  shows "\<exists>x y v'. as_float (dget (q_args r) ''lat'') = Inr (Flt (Fin x)) \<and> \<bar>x\<bar> \<le> 90 \<and>
     as_float (dget (q_args r) ''lon'') = Inr (Flt (Fin y)) \<and> \<bar>y\<bar> \<le> 180 \<and>
     handle_node_location q v = (Inr (response_ok q
       [(''node'', VStr (q_from r)), (''lat'', VFloat (Flt (Fin x))), (''lon'', VFloat (Flt (Fin y))),
        (''ts'', VFloat (Flt (Fin t))),
        (''age_s'', VInt (max 0 (trunc (h_clock (w_host v) (Suc (w_tick v)) - t))))]), v')"
proof -
  from report_acknowledged [OF assms(1)] obtain fx where
      ok: "acceptable_position (q_args r)" "as_float (dget (q_args r) ''lat'') = Inr (f_lat fx)"
        "as_float (dget (q_args r) ''lon'') = Inr (f_lon fx)"
      and p: "p = response_ok r [(''ack'', VBool True), (''ts'', VFloat (f_ts fx))]"
      and loc: "t_locations (w_db w') = (t_locations (w_db w))(SText (q_from r) \<mapsto>
         the (location_of_fix fx (Some ''report'') None None))"
    by blast
  from ok obtain x y where xy: "f_lat fx = Flt (Fin x)" "f_lon fx = Flt (Fin y)" "\<bar>x\<bar> \<le> 90" "\<bar>y\<bar> \<le> 180"
    by (rule acceptable_finite)
  have ts: "f_ts fx = Flt (Fin t)" using p assms(2) by simp
  define row where "row = the (location_of_fix fx (Some ''report'') None None)"
  have row: "l_lat row = Fin x" "l_lon row = Fin y" "l_ts row = Fin t"
    by (simp_all add: row_def location_of_fix_def xy ts)
  define v1 where "v1 = v\<lparr>w_tick := Suc (w_tick v), w_db := w_db v\<rparr>"
  have get: "get_node_location (VStr (q_from r)) v = (Inr (Some (location_dict row)), v1)"
    unfolding get_node_location_def store_query_def v1_def
    by (rule store_call_healthy [OF assms(3)])
      (simp add: sync_get_node_location_def assms(4) loc row_def)
  have "handle_node_location q v = (Inr (response_ok q
       [(''node'', VStr (q_from r)), (''lat'', VFloat (Flt (Fin x))), (''lon'', VFloat (Flt (Fin y))),
        (''ts'', VFloat (Flt (Fin t))),
        (''age_s'', VInt (max 0 (trunc (h_clock (w_host v) (Suc (w_tick v)) - t))))]), v1\<lparr>w_tick := Suc (w_tick v1)\<rparr>)"
    by (simp add: handle_node_location_def assms(5) andthen_def get time_time_def location_dict_def
        row age_s_Fin Let_def v1_def)
  with ok xy show ?thesis by auto
qed

definition sample_report :: request where
  "sample_report = sample_request\<lparr>q_type := ''node.location.report'',
     q_args := [(''lat'', VInt 28), (''lon'', VFloat (Flt (Fin (- 82)))), (''ts'', VInt 90)]\<rparr>"

lemma sample_report_fix: "report_fix (q_args sample_report) (VInt 90) = Inr
    \<lparr>f_lat = Flt (Fin 28), f_lon = Flt (Fin (- 82)), f_ts = Flt (Fin 90), f_alt = None, f_acc = None,
     f_fix = None, f_spd = None, f_hdg = None\<rparr>"
  by (simp add: report_fix_def sample_report_def float_of_int_def opt_float_def opt_int_def)

lemma healthy_tick [simp]: "healthy (w\<lparr>w_tick := t, w_db := d\<rparr>) = healthy w"
  by (simp add: healthy_def)

text \<open>On a healthy and live outside a storable fix with a finite time goes through to the end.\<close>

definition finite_seen :: "world \<Rightarrow> string \<Rightarrow> bool" where
  "finite_seen w n \<longleftrightarrow> (case t_nodes (w_db w) (SText n) of
      None \<Rightarrow> True | Some v \<Rightarrow> (\<exists>a. v = SReal (Fin a)))"

lemma query_runs:
  assumes "healthy w" "f (h_sql_text (w_host w)) (w_db w) = Inr x"
  shows "store_query f w = (Inr x, w\<lparr>w_tick := Suc (w_tick w)\<rparr>)"
proof -
  have "store_query f w = (Inr x, w\<lparr>w_tick := Suc (w_tick w), w_db := w_db w\<rparr>)"
    unfolding store_query_def by (rule store_call_healthy [OF assms(1)]) (simp add: assms(2))
  then show ?thesis by (cases w) simp
qed

lemma healthy_tick_only [simp]: "healthy (w\<lparr>w_tick := t\<rparr>) = healthy w" "live (w\<lparr>w_tick := t\<rparr>) = live w"
  by (simp_all add: healthy_def live_def)

lemma live_tick [simp]: "live (w\<lparr>w_tick := t, w_db := d\<rparr>) = live w"
  by (simp add: live_def)

lemma bus_publish_live:
  "live w \<Longrightarrow> bus_publish t p b w = (Inr (), w\<lparr>w_tick := Suc (w_tick w),
     w_sent := w_sent w @ [\<lparr>msg_topic = t, msg_payload = p, msg_retain = b\<rparr>]\<rparr>)"
  by (simp add: bus_publish_def live_def Let_def)

lemma get_node_state_runs:
  assumes "healthy w" "t_nodes (w_db w) (SText n) = Some (SReal (Fin a))"
  obtains d where "get_node_state (VStr n) w = (Inr (Some d), w\<lparr>w_tick := w_tick w + 4\<rparr>)"
    "d = node_state_dict (VStr n) (Flt (Fin a)) (max 0 (trunc (h_clock (w_host w) (w_tick w + 3) - a)))
       (h_clock (w_host w) (w_tick w + 3))
       (map_option location_dict (t_locations (w_db w) (SText n)))
       (map_option battery_dict (t_battery (w_db w) (SText n))) (w_radio w n)"
proof
  have q1: "get_last_seen (VStr n) w = (Inr (Some (Flt (Fin a))), w\<lparr>w_tick := Suc (w_tick w)\<rparr>)"
    unfolding get_last_seen_def
    by (rule query_runs [OF assms(1)]) (simp add: sync_get_last_seen_def assms(2))
  have q2: "get_node_location (VStr n) v = (Inr (map_option location_dict (t_locations (w_db v) (SText n))),
      v\<lparr>w_tick := Suc (w_tick v)\<rparr>)" if "healthy v" for v
    unfolding get_node_location_def by (rule query_runs [OF that]) (simp add: sync_get_node_location_def)
  have q3: "get_node_battery (VStr n) v = (Inr (map_option battery_dict (t_battery (w_db v) (SText n))),
      v\<lparr>w_tick := Suc (w_tick v)\<rparr>)" if "healthy v" for v
    unfolding get_node_battery_def by (rule query_runs [OF that]) (simp add: sync_get_node_battery_def)
  show "get_node_state (VStr n) w = (Inr (Some
      (node_state_dict (VStr n) (Flt (Fin a)) (max 0 (trunc (h_clock (w_host w) (w_tick w + 3) - a)))
       (h_clock (w_host w) (w_tick w + 3))
       (map_option location_dict (t_locations (w_db w) (SText n)))
       (map_option battery_dict (t_battery (w_db w) (SText n))) (w_radio w n))), w\<lparr>w_tick := w_tick w + 4\<rparr>)"
    by (simp add: get_node_state_def andthen_def q1 q2 q3 assms(1) time_time_def age_s_Fin radio_of_def
        numeral_eq_Suc)
qed simp

lemma republish_runs:
  assumes "healthy w" "live w" "t_nodes (w_db w) (SText n) = Some (SReal (Fin a))"
  obtains w' where "republish_state (VStr n) w = (Inr (), w')" "healthy w'" "live w'" "w_db w' = w_db w"
proof -
  from assms(1,3) obtain d where d: "get_node_state (VStr n) w = (Inr (Some d), w\<lparr>w_tick := w_tick w + 4\<rparr>)"
    by (rule get_node_state_runs)
  have "live (w\<lparr>w_tick := w_tick w + 4\<rparr>)" using assms(2) by simp
  then have "republish_state (VStr n) w = (Inr (), w\<lparr>w_tick := Suc (w_tick w + 4), w_sent := w_sent w @
      [\<lparr>msg_topic = node_state_topic n, msg_payload = compact_json d, msg_retain = True\<rparr>]\<rparr>)"
    using d by (simp add: republish_state_def andthen_def bus_publish_live)
  then show ?thesis by (rule that) (use assms(1,2) in \<open>simp_all add: healthy_def live_def\<close>)
qed

lemma after_upsert_runs:
  assumes "healthy w" "live w" "finite_seen w n" "f_ts fx = Flt (Fin t)"
  obtains w' where "after_upsert n fx src None None w = (Inr (), w')" "healthy w'" "live w'" "finite_seen w' n"
proof -
  define a where "a = (case t_nodes (w_db w) (SText n) of Some (SReal (Fin b)) \<Rightarrow> max b t | _ \<Rightarrow> t)"
  define w2 where "w2 = w\<lparr>w_tick := Suc (w_tick w),
      w_db := (w_db w)\<lparr>t_nodes := (t_nodes (w_db w))(SText n \<mapsto> SReal (Fin a))\<rparr>\<rparr>"
  have s2: "mark_node_seen (VStr n) (VFloat (f_ts fx)) w = (Inr (), w2)"
    unfolding mark_node_seen_def w2_def
    by (rule store_call_healthy [OF assms(1)])
      (use assms(3) in \<open>auto simp: assms(4) mark_seen_Fin a_def finite_seen_def split: option.splits\<close>)
  have h2: "healthy w2" "live w2" using assms(1,2) by (simp_all add: w2_def)
  define w3 where "w3 = w2\<lparr>w_tick := Suc (w_tick w2), w_sent := w_sent w2 @
      [\<lparr>msg_topic = node_location_topic n,
        msg_payload = compact_json (location_body n fx src None None), msg_retain = True\<rparr>]\<rparr>"
  have s3: "bus_publish (node_location_topic n) (compact_json (location_body n fx src None None)) True w2
      = (Inr (), w3)"
    unfolding w3_def by (rule bus_publish_live [OF h2(2)])
  have h3: "healthy w3" "live w3" "t_nodes (w_db w3) (SText n) = Some (SReal (Fin a))"
    using h2 by (simp_all add: w3_def w2_def healthy_def live_def)
  then obtain w4 where w4: "republish_state (VStr n) w3 = (Inr (), w4)" "healthy w4" "live w4" "w_db w4 = w_db w3"
    by (rule republish_runs)
  with s2 s3 have "after_upsert n fx src None None w = (Inr (), w4)"
    by (simp add: after_upsert_def andthen_def note_radio_def)
  moreover have "finite_seen w4 n" using w4(4) h3(3) by (simp add: finite_seen_def)
  ultimately show ?thesis using w4(2,3) that by blast
qed

lemma upsert_runs:
  assumes "healthy w" "live w" "finite_seen w n" "admits_location (fx, Some src, None, None)"
  obtains w' where "upsert_node_location (VStr n) fx (Some src) None None w = (Inr (), w')"
    "healthy w'" "live w'" "finite_seen w' n"
proof
  let ?w' = "w\<lparr>w_tick := Suc (w_tick w), w_db := (w_db w)\<lparr>t_locations := (t_locations (w_db w))(SText n \<mapsto>
       the (location_of_fix fx (Some src) None None))\<rparr>\<rparr>"
  show "upsert_node_location (VStr n) fx (Some src) None None w = (Inr (), ?w')"
    unfolding upsert_node_location_def
    by (rule store_call_healthy [OF assms(1)]) (simp add: upsert_node_location_Inr assms(4))
  show "healthy ?w'" "live ?w'" "finite_seen ?w' n" using assms(1-3) by (simp_all add: finite_seen_def)
qed

lemma apply_location_runs:
  assumes "healthy w" "live w" "finite_seen w n" "f_ts fx = Flt (Fin t)"
    and "admits_location (fx, Some src, None, None)"
  obtains w' where "apply_location n fx src None None w = (Inr (), w')" "healthy w'" "live w'" "finite_seen w' n"
proof -
  from assms(1-3,5) obtain v where v: "upsert_node_location (VStr n) fx (Some src) None None w = (Inr (), v)"
      "healthy v" "live v" "finite_seen v n"
    by (rule upsert_runs)
  from v(2-4) assms(4) obtain w' where "after_upsert n fx src None None v = (Inr (), w')"
      "healthy w'" "live w'" "finite_seen w' n"
    by (rule after_upsert_runs)
  with v(1) that show ?thesis by (simp add: apply_location_split andthen_def)
qed

lemma report_runs:
  assumes "healthy w" "live w" "finite_seen w (q_from r)" "acceptable_position (q_args r)"
    and "truthy (dget (q_args r) ''ts'')" "report_fix (q_args r) (dget (q_args r) ''ts'') = Inr fx"
    and "f_ts fx = Flt (Fin t)" "admits_location (fx, Some ''report'', None, None)"
  obtains w' where "handle_node_location_report r w =
     (Inr (response_ok r [(''ack'', VBool True), (''ts'', VFloat (Flt (Fin t)))]), w')"
    "healthy w'" "live w'" "finite_seen w' (q_from r)"
proof -
  from assms(1,2,3,7,8) obtain w' where "apply_location (q_from r) fx ''report'' None None w = (Inr (), w')"
      "healthy w'" "live w'" "finite_seen w' (q_from r)"
    by (rule apply_location_runs)
  with assms that show ?thesis
    by (simp add: handle_node_location_report_def acceptable_position_def andthen_def or_now_def Let_def)
qed

lemma sample_report_run:
  obtains w' where "handle_node_location_report sample_report sample_world =
     (Inr (response_ok sample_report [(''ack'', VBool True), (''ts'', VFloat (Flt (Fin 90)))]), w')"
    "healthy w'"
proof (rule report_runs [OF sample_healthy sample_live])
  show "finite_seen sample_world (q_from sample_report)"
    by (simp add: finite_seen_def sample_world_def empty_store_def)
  show "acceptable_position (q_args sample_report)" "truthy (dget (q_args sample_report) ''ts'')"
    by (simp_all add: acceptable_position_def in_range_def sample_report_def)
  show "report_fix (q_args sample_report) (dget (q_args sample_report) ''ts'') = Inr
    \<lparr>f_lat = Flt (Fin 28), f_lon = Flt (Fin (- 82)), f_ts = Flt (Fin 90), f_alt = None, f_acc = None,
     f_fix = None, f_spd = None, f_hdg = None\<rparr>"
    using sample_report_fix by (simp add: sample_report_def)
qed (simp_all add: admits_location_def opt_fits64_def, rule that)

theorem reported_location_is_found_witness:
  "\<exists>w' v'. handle_node_location (sample_request\<lparr>q_args := [(''node'', VStr ''n1'')]\<rparr>) w' =
     (Inr (response_ok (sample_request\<lparr>q_args := [(''node'', VStr ''n1'')]\<rparr>)
       [(''node'', VStr ''n1''), (''lat'', VFloat (Flt (Fin 28))), (''lon'', VFloat (Flt (Fin (- 82)))),
        (''ts'', VFloat (Flt (Fin 90))),
        (''age_s'', VInt (max 0 (trunc (h_clock (w_host w') (Suc (w_tick w')) - 90))))]), v')"
proof -
  let ?q = "sample_request\<lparr>q_args := [(''node'', VStr ''n1'')]\<rparr>"
  obtain w' where run: "handle_node_location_report sample_report sample_world =
     (Inr (response_ok sample_report [(''ack'', VBool True), (''ts'', VFloat (Flt (Fin 90)))]), w')"
    and h: "healthy w'"
    by (rule sample_report_run)
  have "target_node ?q = q_from sample_report" "q_from sample_report = ''n1''"
      "as_float (dget (q_args sample_report) ''lat'') = Inr (Flt (Fin 28))"
      "as_float (dget (q_args sample_report) ''lon'') = Inr (Flt (Fin (- 82)))"
    by (simp_all add: target_node_def sample_report_def float_of_int_def)
  with reported_location_is_found [OF run _ h refl, of 90 ?q] show ?thesis by (simp, blast)
qed

definition rows_of_others ::
  "string \<Rightarrow> world \<Rightarrow> (sqlval \<rightharpoonup> location_row) \<times> (sqlval \<rightharpoonup> sqlval) \<times> (sqlval \<rightharpoonup> battery_row) \<times>
     (string \<rightharpoonup> base_row) \<times> request_row list \<times> event_row list" where
  "rows_of_others n w = (let k = SText n; d = w_db w in
     ((t_locations d)(k := None), (t_nodes d)(k := None), t_battery d, t_base d, t_requests d,
      t_events d))"

lemma others_upsert: "evolves (same (rows_of_others n)) (upsert_node_location (VStr n) fx src r s)"
  unfolding upsert_node_location_def
  by (rule evolves_store_call)
    (auto simp: same_def rows_of_others_def upsert_node_location_Inr Let_def)

lemma others_seen: "evolves (same (rows_of_others n)) (mark_node_seen (VStr n) t)"
  unfolding mark_node_seen_def
  by (rule evolves_store_call)
    (auto simp: same_def rows_of_others_def sync_mark_node_seen_def Let_def
       split: sum.splits if_splits)

lemma others_publish: "evolves (same (rows_of_others n)) (bus_publish t p b)"
  by (rule evolves_bus_publish) (simp_all add: same_def rows_of_others_def)

lemma others_radio: "evolves (same (rows_of_others n)) (note_radio v r s t)"
  unfolding note_radio_def
  by (rule evolves_modify) (auto simp: same_def rows_of_others_def split: pyval.split)

lemma persistent_others: "evolves (same persistent) m \<Longrightarrow> evolves (same (rows_of_others n)) m"
  by (simp add: evolves_def same_def persistent_def rows_of_others_def)

lemma others_reads:
  "evolves (same (rows_of_others n)) (get_node_state v)" "evolves (same (rows_of_others n)) (or_now t)"
  unfolding or_now_def by (rule persistent_others, intro evolves_intros)+

lemma others_report: "evolves (same (rows_of_others (q_from r))) (handle_node_location_report r)"
  unfolding handle_node_location_report_def apply_location_def republish_state_def
  by (intro evolves_intros others_upsert others_seen others_publish others_radio others_reads)

text \<open>
  A node can only report for itself: whatever \<open>node.location.report\<close> returns or raises, the
  location, battery and last-seen rows of every other node, the base rows and the request tables
  are as before.
\<close>

theorem report_touches_own_rows:
  assumes "handle_node_location_report r w = (res, w')"
  shows "rows_of_others (q_from r) w' = rows_of_others (q_from r) w"
  by (rule evolves_sameD [OF others_report assms])

theorem report_touches_own_rows_witness:
  "t_locations (w_db (snd (handle_node_location_report sample_report sample_world))) (SText ''n2'') = None"
proof -
  let ?w' = "snd (handle_node_location_report sample_report sample_world)"
  have "rows_of_others ''n1'' ?w' = rows_of_others ''n1'' sample_world"
    using report_touches_own_rows [OF prod.collapse [symmetric], of sample_report sample_world]
    by (simp add: sample_report_def)
  then have "(t_locations (w_db ?w'))(SText ''n1'' := None) = Map.empty"
    by (simp add: rows_of_others_def Let_def sample_world_def empty_store_def)
  then have "((t_locations (w_db ?w'))(SText ''n1'' := None)) (SText ''n2'') = None" by simp
  then show ?thesis by simp
qed

end
