(* ===== verification/StatusProps.thy ===== *)
theory StatusProps
  imports HandlerProps
begin

text \<open>
  The answers computed from stored state: how old a base fix may be, when a node counts as online,
  the ranges of bearing and distance, and the counters of \<open>gateway.status\<close>.
\<close>

section \<open>The base location\<close>

lemma places_base_upsert:
  assumes "apply_base_location fx src w = (Inr (), w')"
  shows "t_base (w_db w') ''location'' \<noteq> None \<and>
     s_value (the (t_base (w_db w') ''location'')) = base_body fx src"
proof -
  from assms obtain v where v: "upsert_base_state ''location'' (base_body fx src) w = (Inr (), v)"
      and p: "bus_publish BASE_LOCATION (compact_json (base_body fx src)) True v = (Inr (), w')"
    unfolding apply_base_location_def by (cases rule: andthenE) auto
  have "t_base (w_db w') = t_base (w_db v)"
    using evolves_sameD [OF places_publish p] by (simp add: places_def)
  moreover from store_call_Inr [OF v [unfolded upsert_base_state_def]] obtain now where
      "w_db v = (w_db w)\<lparr>t_base := (t_base (w_db w))(''location'' \<mapsto>
        \<lparr>s_value = base_body fx src, s_ts = now\<rparr>)\<rparr>"
    by (simp add: sync_upsert_base_state_def) metis
  ultimately show ?thesis by simp
qed

lemma get_base_runs:
  assumes "healthy w"
  shows "get_base_location w = (Inr (map_option s_value (t_base (w_db w) ''location'')),
     w\<lparr>w_tick := Suc (w_tick w)\<rparr>)"
  unfolding get_base_location_def get_base_state_def
  by (rule query_runs [OF assms]) (simp add: sync_get_base_state_def)

lemma trunc_less: "trunc a < n \<longleftrightarrow> a < of_int n" if "0 < n"
  using that by (simp add: trunc_def floor_less_iff ceiling_less_iff)

lemma max_trunc_le: "0 \<le> n \<Longrightarrow> max 0 (trunc a) \<le> n \<longleftrightarrow> a < of_int n + 1"
  using trunc_less [of "n + 1" a] by auto

text \<open>
  C34. Once a base fix with a finite time stamp has been applied, \<open>base.location\<close> answers with
  exactly that fix as long as it is less than 601 seconds old (the age is cut to whole seconds
  before it is compared with 600), and from then on it refuses it as \<open>stale\<close>.
\<close>

theorem base_fix_served_until_stale:
  assumes "apply_base_location fx src w = (Inr (), w')" "f_ts fx = Flt (Fin t)"
    and "healthy v" "t_base (w_db v) = t_base (w_db w')"
    and "now = h_clock (w_host v) (Suc (w_tick v))"
  shows "\<exists>v'. handle_base_location r v =
     (if now - t < 601
      then Inr (response_ok r [(''lat'', VFloat (f_lat fx)), (''lon'', VFloat (f_lon fx)),
             (''ts'', VFloat (Flt (Fin t))), (''age_s'', VInt (max 0 (trunc (now - t)))),
             (''fix'', of_opt VInt (f_fix fx))])
      else Inl (RpcError STALE (''Base fix is '' @ str_int (max 0 (trunc (now - t))) @ ''s old'')), v')"
proof -
  have base: "map_option s_value (t_base (w_db v) ''location'') = Some (base_body fx src)"
    using places_base_upsert [OF assms(1)] assms(4) by auto
  have young: "(now - t < 601) = (\<not> 600 < trunc (now - t))"
    using max_trunc_le [of 600 "now - t"] by (simp add: less_max_iff_disj not_less)
  show ?thesis
    unfolding young
    by (simp add: handle_base_location_def andthen_def get_base_runs [OF assms(3)] base time_time_def
        base_body_def assms(2) assms(5) [symmetric] age_s_Fin BASE_MAX_AGE_S_def Let_def
        less_max_iff_disj)
qed

lemma apply_base_runs:
  assumes "healthy w" "live w"
  obtains w' where "apply_base_location fx src w = (Inr (), w')" "healthy w'" "live w'"
    "w_host w' = w_host w" "w_tick w' = w_tick w + 2"
proof -
  define w1 where "w1 = w\<lparr>w_tick := Suc (w_tick w), w_db := (w_db w)\<lparr>t_base :=
      (t_base (w_db w))(''location'' \<mapsto>
        \<lparr>s_value = base_body fx src, s_ts = h_clock (w_host w) (w_tick w)\<rparr>)\<rparr>\<rparr>"
  have "upsert_base_state ''location'' (base_body fx src) w = (Inr (), w1)"
    unfolding upsert_base_state_def w1_def
    by (rule store_call_healthy [OF assms(1)]) (simp add: sync_upsert_base_state_def)
  moreover have "live w1" using assms(2) by (simp add: w1_def)
  ultimately have "apply_base_location fx src w = (Inr (), w1\<lparr>w_tick := Suc (w_tick w1), w_sent := w_sent w1 @
      [\<lparr>msg_topic = BASE_LOCATION, msg_payload = compact_json (base_body fx src), msg_retain = True\<rparr>]\<rparr>)"
    by (simp add: apply_base_location_def andthen_def bus_publish_live)
  then show ?thesis
    by (rule that) (use assms in \<open>simp_all add: w1_def healthy_def live_def\<close>)
qed

theorem base_fix_served_until_stale_witness:
  "\<exists>w' v'. apply_base_location (sample_fix\<lparr>f_ts := Flt (Fin (- 500))\<rparr>) ''static'' sample_world = (Inr (), w') \<and>
     handle_base_location sample_request w' = (Inl (RpcError STALE (''Base fix is '' @ str_int 603 @ ''s old'')), v')"
proof -
  let ?fx = "sample_fix\<lparr>f_ts := Flt (Fin (- 500))\<rparr>"
  from sample_healthy sample_live obtain w' where w': "apply_base_location ?fx ''static'' sample_world = (Inr (), w')"
      "healthy w'" "w_host w' = w_host sample_world" "w_tick w' = w_tick sample_world + 2"
    by (rule apply_base_runs)
  have now: "h_clock (w_host w') (Suc (w_tick w')) = 103"
    using w' by (simp add: sample_world_def sample_host_def)
  have "trunc (603 :: real) = 603" by (simp add: trunc_def)
  with base_fix_served_until_stale [OF w'(1) _ w'(2) refl now [symmetric], of "- 500" sample_request] w'(1)
  show ?thesis by auto
qed

section \<open>Online\<close>

text \<open>
  \<open>node.status\<close> calls a node online exactly when it was last seen less than 300 seconds
  ago, with the age in whole seconds and never negative. The time is the maximum of what was ever
  recorded, so a single report stamped in the future keeps its node online until 300 seconds after
  that stamp, whatever is recorded later.
\<close>

theorem node_status_online:
  assumes "healthy w" "t_nodes (w_db w) (SText (target_node r)) = Some (SReal (Fin a))"
    and "now = h_clock (w_host w) (w_tick w + 3)"
  shows "\<exists>p body w'. handle_node_status r w = (Inr p, w') \<and> p_body p = Some body \<and>
     dget body ''id'' = VStr (target_node r) \<and>
     dget body ''online'' = VBool (now - a < 300) \<and>
     dget body ''last_seen_age_s'' = VInt (max 0 (trunc (now - a)))"
proof -
  from assms(1,2) obtain d where d: "get_node_state (VStr (target_node r)) w
        = (Inr (Some d), w\<lparr>w_tick := w_tick w + 4\<rparr>)"
      "d = node_state_dict (VStr (target_node r)) (Flt (Fin a)) (max 0 (trunc (now - a))) now
       (map_option location_dict (t_locations (w_db w) (SText (target_node r))))
       (map_option battery_dict (t_battery (w_db w) (SText (target_node r)))) (w_radio w (target_node r))"
    unfolding assms(3) by (rule get_node_state_runs)
  have dat: "dat d ''id'' = Inr (VStr (target_node r))" "dat d ''online'' = Inr (VBool (now - a < 300))"
      "dat d ''last_seen_age_s'' = Inr (VInt (max 0 (trunc (now - a))))"
    by (simp_all add: d(2) node_state_dict_def ONLINE_THRESHOLD_S_def)
  show ?thesis
    by (simp add: handle_node_status_def Let_def andthen_def d(1) dat)
qed

definition seen_world :: world where
  "seen_world = sample_world\<lparr>w_db := empty_store\<lparr>t_nodes := [SText ''n1'' \<mapsto> SReal (Fin 5000)]\<rparr>\<rparr>"

theorem node_status_online_witness:
  "\<exists>p body w'. handle_node_status sample_request seen_world = (Inr p, w') \<and> p_body p = Some body \<and>
     dget body ''online'' = VBool True"
proof -
  have "healthy seen_world" "target_node sample_request = ''n1''"
      "t_nodes (w_db seen_world) (SText ''n1'') = Some (SReal (Fin 5000))"
      "h_clock (w_host seen_world) (w_tick seen_world + 3) = 103"
    by (simp_all add: seen_world_def healthy_def sample_world_def sample_host_def target_node_def
        sample_request_def)
  with node_status_online [of seen_world sample_request 5000 103] show ?thesis by auto
qed

section \<open>return\_to\_base\<close>

lemma haversine_m_finite:
  assumes "haversine_m la lo bla blo = Inr (Flt x)"
  shows "\<exists>a b c d. la = Flt (Fin a) \<and> lo = Flt (Fin b) \<and> bla = Flt (Fin c) \<and> blo = Flt (Fin d)"
proof -
  have cases: "f = NaN \<or> f = Flt MInf \<or> f = Flt PInf \<or> (\<exists>a. f = Flt (Fin a))" for f
    by (cases f; cases "case f of Flt y \<Rightarrow> y | NaN \<Rightarrow> MInf") auto
  show ?thesis
    using assms cases [of la] cases [of lo] cases [of bla] cases [of blo]
    by (elim disjE exE; simp add: haversine_m_def fradians_def fsub_def ebind_Inr_iff split: if_splits)
qed

text \<open>
  What the two numbers say: \<open>b\<close> and \<open>d\<close> are a heading and a distance in metres, each rounded to the
  next integer, by which one gets from the first position to the second.
\<close>

definition leads_to :: "real \<Rightarrow> real \<Rightarrow> int \<Rightarrow> int \<Rightarrow> real \<Rightarrow> real \<Rightarrow> bool" where
  "leads_to lat1 lon1 b d lat2 lon2 \<longleftrightarrow> (\<exists>h t. arrives lat1 lon1 h t lat2 lon2 \<and>
     0 \<le> h \<and> h < 360 \<and> \<bar>of_int b - h\<bar> \<le> 1 / 2 \<and>
     0 \<le> t \<and> t \<le> pi \<and> \<bar>of_int d - 6371000 * t\<bar> \<le> 1 / 2)"

lemma rtb_numbers_lead:
  assumes "rtb_numbers from_lat from_lon base_lat base_lon = Inr (b, d)"
  shows "\<exists>lat1 lon1 lat2 lon2.
     as_float from_lat = Inr (Flt (Fin lat1)) \<and> as_float from_lon = Inr (Flt (Fin lon1)) \<and>
     as_float base_lat = Inr (Flt (Fin lat2)) \<and> as_float base_lon = Inr (Flt (Fin lon2)) \<and>
     leads_to lat1 lon1 b d lat2 lon2"
proof -
  from assms obtain la lo bla blo fb fd where n: "as_float from_lat = Inr la" "as_float from_lon = Inr lo"
      "as_float base_lat = Inr bla" "as_float base_lon = Inr blo"
      "initial_bearing_deg la lo bla blo = Inr fb" "haversine_m la lo bla blo = Inr fd"
      "py_round fb = Inr b" "py_round fd = Inr d"
    by (auto simp: rtb_numbers_def ebind_Inr_iff)
  from n(8) obtain x where x: "fd = Flt (Fin x)" "d = round_even x"
    by (cases fd rule: py_round.cases) auto
  with n(6) haversine_m_finite obtain lat1 lon1 lat2 lon2 where
      fin: "la = Flt (Fin lat1)" "lo = Flt (Fin lon1)" "bla = Flt (Fin lat2)" "blo = Flt (Fin lon2)"
    by blast
  have dist: "d = round_even (haversine lat1 lon1 lat2 lon2)"
    using n(6) x by (simp add: fin haversine_m_Fin)
  have deg: "b = round_even (bearing lat1 lon1 lat2 lon2)"
    using n(5,7) by (auto simp: fin initial_bearing_deg_Fin)
  have near: "\<bar>of_int (round_even a) - a\<bar> \<le> 1 / 2" for a
    using round_even_bounds [of a] by linarith
  obtain t where t: "haversine lat1 lon1 lat2 lon2 = EARTH_RADIUS_M * t" "0 \<le> t" "t \<le> pi"
      "arrives lat1 lon1 (bearing lat1 lon1 lat2 lon2) t lat2 lon2"
    by (rule bearing_arrives)
  with near [of "bearing lat1 lon1 lat2 lon2"] near [of "haversine lat1 lon1 lat2 lon2"]
    bearing_range [of lat1 lon1 lat2 lon2]
  have "leads_to lat1 lon1 b d lat2 lon2"
    unfolding leads_to_def dist deg EARTH_RADIUS_M_def
    by (intro exI [of _ "bearing lat1 lon1 lat2 lon2"] exI [of _ t]) simp
  with n(1-4) show ?thesis unfolding fin by blast
qed

lemma leads_to_range:
  assumes "leads_to lat1 lon1 b d lat2 lon2"
  shows "0 \<le> b \<and> b \<le> 360"
proof -
  from assms obtain h :: real where "0 \<le> h" "h < 360" "\<bar>of_int b - h\<bar> \<le> 1 / 2" by (auto simp: leads_to_def)
  then have "(- 1 :: real) < of_int b" "of_int b < (361 :: real)" by linarith+
  then show ?thesis by linarith
qed

text \<open>The caller's position: two numbers among the arguments, else its row of \<open>node_location\<close>.\<close>

definition caller_at :: "request \<Rightarrow> store \<Rightarrow> pyval \<Rightarrow> pyval \<Rightarrow> bool" where
  "caller_at r d la lo \<longleftrightarrow>
     (if is_num (dget (q_args r) ''lat'') \<and> is_num (dget (q_args r) ''lon'')
      then \<exists>x y. as_float (dget (q_args r) ''lat'') = Inr x \<and> as_float (dget (q_args r) ''lon'') = Inr y \<and>
        la = VFloat x \<and> lo = VFloat y
      else \<exists>row. t_locations d (SText (q_from r)) = Some row \<and>
        la = VFloat (Flt (l_lat row)) \<and> lo = VFloat (Flt (l_lon row)))"

lemma store_query_Inr:
  assumes "store_query f w = (Inr x, v)"
  obtains st where "f st (w_db w) = Inr x" "w_db v = w_db w"
proof -
  from store_call_Inr [OF assms [unfolded store_query_def]] obtain st where
      "(case f st (w_db w) of Inl e \<Rightarrow> Inl e | Inr y \<Rightarrow> Inr (y, w_db w)) = Inr (x, w_db v)"
    by blast
  then show ?thesis by (cases "f st (w_db w)") (auto intro: that)
qed

lemma dat_Inr: "dat d k = Inr v \<Longrightarrow> dget d k = v"
  by (auto simp: dat_def dget_def split: option.splits)

lemma caller_position_result:
  assumes "caller_position r w = (Inr (la, lo, age), v)"
  shows "caller_at r (w_db w) la lo \<and> 0 \<le> age \<and> age \<le> 600 \<and> w_db v = w_db w"
proof (cases "is_num (dget (q_args r) ''lat'') \<and> is_num (dget (q_args r) ''lon'')")
  case True
  with assms show ?thesis by (auto simp: caller_position_def caller_at_def Let_def elim!: andthenE)
next
  case False
  with assms obtain found u where get: "get_node_location (VStr (q_from r)) w = (Inr found, u)"
    and rest: "(case found of
             None \<Rightarrow> raise (RpcError UNAVAILABLE ''Caller has no reported location'')
           | Some loc \<Rightarrow>
               andthen time_time (\<lambda>now.
               andthen (lift (ebind (dat loc ''ts'') (age_s now))) (\<lambda>age.
                 if MAX_AGE_S < age
                 then raise (RpcError STALE (''Caller's last fix is '' @ str_int age @ ''s old''))
                 else
                   andthen (lift (dat loc ''lat'')) (\<lambda>lat.
                   andthen (lift (dat loc ''lon'')) (\<lambda>lon.
                     ret (lat, lon, age)))))) u = (Inr (la, lo, age), v)"
    by (auto simp: caller_position_def Let_def elim: andthenE)
  from rest obtain loc where loc: "found = Some loc" by (cases found) simp_all
  obtain st where "sync_get_node_location st (VStr (q_from r)) (w_db w) = Inr found" "w_db u = w_db w"
    by (rule store_query_Inr [OF get [unfolded get_node_location_def]])
  with loc obtain row where
      row: "t_locations (w_db w) (SText (q_from r)) = Some row" "loc = location_dict row" "w_db u = w_db w"
    by (auto simp: sync_get_node_location_def)
  from rest loc obtain now t where a: "dat loc ''lat'' = Inr la" "dat loc ''lon'' = Inr lo"
      "age_s now t = Inr age" "age \<le> 600" "w_db v = w_db u"
    by (auto simp: time_time_def MAX_AGE_S_def ebind_Inr_iff elim!: andthenE split: if_splits)
  with row False age_s_nonneg [OF a(3)] show ?thesis
    by (auto simp: caller_at_def location_dict_def Let_def dat_def)
qed

text \<open>
  The answer: bearing, distance and the two positions, as JSON objects, where the base's position is
  the one on record, the caller's the one of the arguments or on record, both at most 600 whole
  seconds old, and bearing and distance lead from the caller to the base.
\<close>

definition points_home :: "request \<Rightarrow> store \<Rightarrow> response \<Rightarrow> bool" where
  "points_home r d p \<longleftrightarrow> (\<exists>b m la lo age base bage lat1 lon1 lat2 lon2.
     p_body p = Some [(''bearing'', VInt b), (''dist_m'', VInt m),
       (''base'', VDict [(''lat'', dget base ''lat''), (''lon'', dget base ''lon''), (''age_s'', VInt bage)]),
       (''from'', VDict [(''lat'', la), (''lon'', lo), (''age_s'', VInt age)])] \<and>
     caller_at r d la lo \<and> map_option s_value (t_base d ''location'') = Some base \<and>
     as_float la = Inr (Flt (Fin lat1)) \<and> as_float lo = Inr (Flt (Fin lon1)) \<and>
     as_float (dget base ''lat'') = Inr (Flt (Fin lat2)) \<and> as_float (dget base ''lon'') = Inr (Flt (Fin lon2)) \<and>
     leads_to lat1 lon1 b m lat2 lon2 \<and> 0 \<le> b \<and> b \<le> 360 \<and>
     0 \<le> age \<and> age \<le> 600 \<and> 0 \<le> bage \<and> bage \<le> 600)"

text \<open>
  C35. An answer of \<open>return_to_base\<close> leads home: setting out from the caller's position on the heading
  \<open>bearing\<close> for \<open>dist_m\<close> metres along a great circle, both up to half a unit of rounding, one arrives
  at the base's position. The positions are those of the database or the arguments, they are returned
  with the answer, and neither is older than 600 whole seconds. The bearing is between 0 and 360.
\<close>

theorem return_to_base_points_home:
  assumes "handle_return_to_base r w = (Inr p, w')"
  shows "points_home r (w_db w) p"
proof -
  from assms obtain la lo age v where c: "caller_position r w = (Inr (la, lo, age), v)"
    and rest: "andthen get_base_location (\<lambda>found.
       case found of
         None \<Rightarrow> raise (RpcError UNAVAILABLE ''Base has no fix'')
       | Some base \<Rightarrow>
           andthen time_time (\<lambda>now.
           andthen (lift (ebind (dat base ''ts'') (age_s now))) (\<lambda>base_age.
             if MAX_AGE_S < base_age
             then raise (RpcError STALE (''Base's last fix is '' @ str_int base_age @ ''s old''))
             else
               andthen (lift (dat base ''lat'')) (\<lambda>base_lat.
               andthen (lift (dat base ''lon'')) (\<lambda>base_lon.
               andthen (lift (rtb_numbers la lo base_lat base_lon)) (\<lambda>(bearing, dist).
                 ret (response_ok r
                   [(''bearing'', VInt bearing), (''dist_m'', VInt dist),
                    (''base'', position_dict base_lat base_lon base_age),
                    (''from'', position_dict la lo age)]))))))) v = (Inr p, w')"
    unfolding handle_return_to_base_def by (elim andthenE) (simp, force)
  note c = caller_position_result [OF c]
  from rest obtain base u where get: "get_base_location v = (Inr (Some base), u)"
    by (elim andthenE) (auto split: option.splits)
  obtain st :: "xreal \<Rightarrow> string" where "sync_get_base_state ''location'' (w_db v) = Inr (Some base)"
    by (rule store_query_Inr [OF get [unfolded get_base_location_def get_base_state_def]])
  with c have base: "map_option s_value (t_base (w_db w) ''location'') = Some base"
    by (simp add: sync_get_base_state_def)
  from rest get obtain now t bage b m where ans: "age_s now t = Inr bage" "bage \<le> 600"
      "rtb_numbers la lo (dget base ''lat'') (dget base ''lon'') = Inr (b, m)"
      "p_body p = Some [(''bearing'', VInt b), (''dist_m'', VInt m),
       (''base'', position_dict (dget base ''lat'') (dget base ''lon'') bage), (''from'', position_dict la lo age)]"
    by (fastforce simp: time_time_def MAX_AGE_S_def ebind_Inr_iff response_ok_def dest!: dat_Inr
        elim!: andthenE split: if_splits)
  from rtb_numbers_lead [OF ans(3)] obtain lat1 lon1 lat2 lon2 where n:
      "as_float la = Inr (Flt (Fin lat1))" "as_float lo = Inr (Flt (Fin lon1))"
      "as_float (dget base ''lat'') = Inr (Flt (Fin lat2))" "as_float (dget base ''lon'') = Inr (Flt (Fin lon2))"
      "leads_to lat1 lon1 b m lat2 lon2"
    by blast
  show ?thesis
    unfolding points_home_def
    using n leads_to_range [OF n(5)] age_s_nonneg [OF ans(1)] ans(2) ans(4) [unfolded position_dict_def] base c by blast
qed

text \<open>A world whose base lies at the given coordinates, on record since the time of sample_fix.\<close>

definition base_at :: "real \<Rightarrow> real \<Rightarrow> world" where
  "base_at lat lon = sample_world\<lparr>w_db := empty_store\<lparr>t_base :=
     [''location'' \<mapsto> \<lparr>s_value = base_body (sample_fix\<lparr>f_lat := Flt (Fin lat), f_lon := Flt (Fin lon)\<rparr>) ''static'',
        s_ts = 100\<rparr>]\<rparr>\<rparr>"

definition equator_request :: request where
  "equator_request = sample_request\<lparr>q_type := ''return_to_base'', q_args := [(''lat'', VInt 0), (''lon'', VInt 0)]\<rparr>"

lemma homing_runs:
  "\<exists>w' age. handle_return_to_base equator_request (base_at lat lon) = (Inr (response_ok equator_request
     [(''bearing'', VInt (round_even (bearing 0 0 lat lon))), (''dist_m'', VInt (round_even (haversine 0 0 lat lon))),
      (''base'', position_dict (VFloat (Flt (Fin lat))) (VFloat (Flt (Fin lon))) age),
      (''from'', position_dict (VFloat (Flt (Fin 0))) (VFloat (Flt (Fin 0))) 0)]), w')"
proof -
  have h: "healthy (base_at lat lon)" "w_host (base_at lat lon) = sample_host" "w_tick (base_at lat lon) = 0"
      "map_option s_value (t_base (w_db (base_at lat lon)) ''location'') =
        Some (base_body (sample_fix\<lparr>f_lat := Flt (Fin lat), f_lon := Flt (Fin lon)\<rparr>) ''static'')"
    by (simp_all add: base_at_def healthy_def sample_world_def sample_host_def)
  have c: "caller_position equator_request w = (Inr (VFloat (Flt (Fin 0)), VFloat (Flt (Fin 0)), 0), w)" for w
    by (simp add: caller_position_def equator_request_def float_of_int_def)
  show ?thesis
    by (simp add: handle_return_to_base_def andthen_def c get_base_runs [OF h(1)] h(2-4) time_time_def
        base_body_def sample_fix_def age_s_Fin sample_host_def trunc_def MAX_AGE_S_def rtb_numbers_def
        initial_bearing_deg_Fin haversine_m_Fin) blast
qed

theorem return_to_base_points_home_witness:
  "\<exists>p w'. handle_return_to_base equator_request (base_at 45 (- (1 / 4))) = (Inr p, w') \<and>
     points_home equator_request (w_db (base_at 45 (- (1 / 4)))) p"
  using homing_runs [of 45 "- (1 / 4)"] return_to_base_points_home by blast

text \<open>
  C36. A bearing of 360 is returned, where the description of the handler and its test have 0 to 359:
  a caller on the equator whose base lies on the 45th parallel, a quarter of a degree west of north.
\<close>

theorem bearing_of_360:
  "\<exists>p body w'. handle_return_to_base equator_request (base_at 45 (- (1 / 4))) = (Inr p, w') \<and>
     p_body p = Some body \<and> dget body ''bearing'' = VInt 360"
proof -
  have "of_int (round_even (bearing 0 0 45 (- (1 / 4)))) \<le> bearing 0 0 45 (- (1 / 4)) + 1 / 2"
      "bearing 0 0 45 (- (1 / 4)) - 1 / 2 \<le> of_int (round_even (bearing 0 0 45 (- (1 / 4))))"
    by (rule round_even_bounds)+
  with bearing_near_north have "of_int (round_even (bearing 0 0 45 (- (1 / 4)))) < (361 :: real)"
      "359 < (of_int (round_even (bearing 0 0 45 (- (1 / 4)))) :: real)"
    by linarith+
  then have "round_even (bearing 0 0 45 (- (1 / 4))) = 360" by linarith
  with homing_runs [of 45 "- (1 / 4)"] show ?thesis by (fastforce simp: response_ok_def)
qed

section \<open>gateway.status\<close>

text \<open>
  C37. The counters of \<open>gateway.status\<close>: pending, ok and err add up to the number of requests on
  record, and the time-out counter \<open>to\<close> is always 0, since no request ever has \<open>timeout\<close> as its
  final state; timed-out requests are counted under err.
\<close>

theorem gateway_status_counters:
  assumes "handle_gateway_status r w = (Inr p, w')" "store_ok (w_db w)"
  shows "\<exists>body a b c. p_body p = Some body \<and> dget body ''pending'' = VInt a \<and>
     dget body ''ok'' = VInt b \<and> dget body ''err'' = VInt c \<and> dget body ''to'' = VInt 0 \<and>
     a + b + c = int (length (t_requests (w_db w)))"
proof -
  let ?cs = "(sync_count_by_final_state (w_db w))(''pending'' \<mapsto> sync_count_pending (w_db w))"
  have snap: "get_gateway_snapshot w = (Inr (w_gateway w), w)" by (simp add: get_gateway_snapshot_def)
  obtain v where cs: "counts w = (Inr ?cs, v)"
    using assms(1)
  proof (cases "counts w")
    case (Pair res v)
    with assms(1) obtain m where m: "res = Inr m"
      by (cases res) (auto simp: handle_gateway_status_def andthen_def snap)
    from Pair m have "counts w = (Inr m, v)" by simp
    then obtain m0 k u where q: "store_query (\<lambda>st d. Inr (sync_count_by_final_state d)) w = (Inr m0, u)"
        "store_query (\<lambda>st d. Inr (sync_count_pending d)) u = (Inr k, v)" "m = m0(''pending'' \<mapsto> k)"
      unfolding counts_def by (auto elim!: andthenE)
    have "m0 = sync_count_by_final_state (w_db w) \<and> w_db u = w_db w"
      using store_call_Inr [OF q(1) [unfolded store_query_def]] by auto
    moreover have "k = sync_count_pending (w_db u)"
      using store_call_Inr [OF q(2) [unfolded store_query_def]] by auto
    ultimately show ?thesis using that Pair m q(3) by simp
  qed
  from assms(1) obtain age where p: "p = response_ok r (gateway_body (w_gateway w) age ?cs)"
    by (auto simp: handle_gateway_status_def andthen_def snap cs split: prod.splits sum.splits)
  have keys: "COMPLETED_OK \<noteq> ''pending''" "COMPLETED_ERROR \<noteq> ''pending''" "TIMEOUT \<noteq> ''pending''"
    by (simp_all add: lifecycle_defs)
  have "sync_count_by_final_state (w_db w) TIMEOUT = None"
    by (rule count_only_final_states [OF assms(2)]) (simp add: ALL_FINAL_STATES_def lifecycle_defs)
  moreover have "sync_count_pending (w_db w) + count_of (w_db w) COMPLETED_OK
      + count_of (w_db w) COMPLETED_ERROR = int (length (t_requests (w_db w)))"
    using count_final_split [of "t_requests (w_db w)"] assms(2)
    by (simp add: store_ok_def sync_count_pending_def count_of_eq)
  ultimately show ?thesis
    by (simp add: p gateway_body_def count_get_def keys count_of_def)
qed

theorem gateway_status_counters_witness:
  "\<exists>p w' body. handle_gateway_status sample_request replayed_world = (Inr p, w') \<and>
     p_body p = Some body \<and> dget body ''to'' = VInt 0"
proof -
  have "healthy replayed_world" by (simp add: healthy_def replayed_world_def sample_world_def sample_host_def)
  moreover have "c_snapped_at (w_gateway replayed_world) = None"
    by (simp add: replayed_world_def sample_world_def)
  ultimately have run: "\<exists>p w'. handle_gateway_status sample_request replayed_world = (Inr p, w')"
    by (simp add: handle_gateway_status_def andthen_def get_gateway_snapshot_def counts_def query_runs
        snap_age_def)
  have ok: "store_ok (w_db replayed_world)"
    using store_reachable_ok [OF sample_completed_reachable] by (simp add: replayed_world_def)
  from run obtain p w' where "handle_gateway_status sample_request replayed_world = (Inr p, w')" by blast
  with gateway_status_counters [OF this ok] show ?thesis by blast
qed

end
