(* ===== verification/ServiceProps.thy ===== *)
theory ServiceProps
  imports Service StatusProps
begin

text \<open>
  The service as a whole: what a run of the consume loop over any messages keeps and emits, what
  the event routes do, and the retention sweeper.
\<close>

section \<open>Frames\<close>

lemma catch_exception_cases:
  assumes "catch_exception m h w = (r, w')"
  obtains x where "m w = (Inr x, w')" "r = Inr x"
  | "m w = (Inl Cancelled, w')" "r = Inl Cancelled"
  | e v where "m w = (Inl e, v)" "e \<noteq> Cancelled" "h v = (r, w')"
proof (cases "m w")
  case (Pair res v)
  show ?thesis
  proof (cases res)
    case (Inr x)
    with Pair assms have "m w = (Inr x, w')" "r = Inr x" by (simp_all add: catch_exception_def catch_def)
    then show ?thesis by (rule that(1))
  next
    case (Inl e)
    show ?thesis
    proof (cases "e = Cancelled")
      case True
      with Pair Inl assms have "m w = (Inl Cancelled, w')" "r = Inl Cancelled"
        by (simp_all add: catch_exception_def catch_def)
      then show ?thesis by (rule that(2))
    next
      case False
      with Pair Inl assms have "m w = (Inl e, v)" "h v = (r, w')"
        by (simp_all add: catch_exception_def catch_def)
      with False show ?thesis by (intro that(3))
    qed
  qed
qed

definition step_ok :: "world \<Rightarrow> world \<Rightarrow> bool" where
  "step_ok w w' \<longleftrightarrow> (store_ok (w_db w) \<longrightarrow> store_ok (w_db w')) \<and>
     (0 \<le> w_in_flight w \<longrightarrow> w_in_flight w' = w_in_flight w)"

interpretation step_ok: evolution step_ok
  by unfold_locales (simp_all add: step_ok_def)

declare step_ok.evolves_rules [evolves_intros]

lemma aside_step_ok: "aside m \<Longrightarrow> evolves step_ok m"
  by (rule evolvesI) (auto simp: step_ok_def store_ok_def dest!: aside_host)

lemma cache_step_ok [evolves_intros]: "evolves step_ok (modify (\<lambda>w. w\<lparr>w_gateway := g\<rparr>))"
  by (rule evolves_modify) (simp add: step_ok_def)

lemma purge_step_ok [evolves_intros]: "evolves step_ok (purge_before c)"
  unfolding purge_before_def
  by (rule evolves_store_call) (auto simp: step_ok_def dest: store_ok_purge)

lemma evolves_case_dict [evolves_intros]:
  "(\<And>d. evolves R (f d)) \<Longrightarrow> evolves R m \<Longrightarrow> evolves R (case v of VDict d \<Rightarrow> f d | _ \<Rightarrow> m)"
  by (simp split: pyval.split)

lemma event_frames [evolves_intros]:
  "aside (handle_battery_event data)" "aside (handle_telemetry_event data)"
  "quiet (handle_battery_event data)" "quiet (handle_telemetry_event data)"
  unfolding handle_battery_event_def handle_telemetry_event_def by (intro evolves_intros)+

lemma route_frames [evolves_intros]: "aside (route_event t p)" "quiet (route_event t p)"
  unfolding route_event_def by (intro evolves_intros)+

lemma quiet_modify_gateway [evolves_intros]: "quiet (modify (\<lambda>w. w\<lparr>w_gateway := g\<rparr>))"
  by (rule evolves_modify) (simp add: same_def responses_def)

lemma quiet_cache [evolves_intros]: "quiet (maybe_cache m)"
  unfolding maybe_cache_def store_api_defs by (intro evolves_intros)

lemma cache_step [evolves_intros]: "evolves step_ok (maybe_cache m)"
  unfolding maybe_cache_def
  by (intro evolves_intros) (rule aside_step_ok, rule evolves_intros)+

lemma handle_one_step: "evolves step_ok (handle_one policy t p)"
proof -
  have p: "evolves step_ok (process_request DEFAULT_HANDLERS service_emit policy r)" for r
  proof (rule evolvesI)
    fix w res w'
    assume run: "process_request DEFAULT_HANDLERS service_emit policy r w = (res, w')"
    have "store_ok (w_db w')" if "store_ok (w_db w)"
      using evolves_keptD [OF dflt.process_keeps_store run] that by (simp add: db_fine_def)
    moreover have "w_in_flight w' = w_in_flight w" if "0 \<le> w_in_flight w"
      using evolves_keptD [OF dflt.process_in_flight [OF that] run] by simp
    ultimately show "step_ok w w'" by (simp add: step_ok_def)
  qed
  have e: "evolves step_ok (service_emit n r)" for n r
    by (rule aside_step_ok) (rule aside_service_emit)
  show ?thesis
    unfolding handle_one_def by (intro evolves_intros p e)
qed

lemma consume_step: "evolves step_ok (consume policy m)"
proof -
  have r: "evolves step_ok (route_event t p)" for t p
    by (rule aside_step_ok) (rule evolves_intros)
  show ?thesis
    unfolding consume_def spawn_def by (intro evolves_intros handle_one_step r)
qed

lemma consume_loop_step: "evolves step_ok (consume_loop policy ms)"
  by (induction ms) (simp_all only: consume_loop.simps evolves_intros consume_step)

lemma run_service_step: "evolves step_ok (run_service policy lat lon vc ms)"
proof -
  have c: "evolves step_ok (modify (\<lambda>w. w\<lparr>w_connected := b\<rparr>))" for b
    by (rule evolves_modify) (simp add: step_ok_def)
  have h: "evolves step_ok (publish_health vc s)" for s
    unfolding publish_health_def by (rule aside_step_ok) (intro evolves_intros)
  have b: "evolves step_ok (init_static_base lat lon)"
    unfolding init_static_base_def
    by (rule aside_step_ok) (auto intro!: evolves_intros split: option.split)
  show ?thesis
    unfolding run_service_def by (intro evolves_intros consume_loop_step c h b)
qed

section \<open>Properties\<close>

text \<open>
  A whole run of the service, over any messages, on any outside: the invariant of the request
  tables is kept and the in-flight count ends where it began, however the run ends.
\<close>

theorem service_run_keeps_invariants:
  assumes "run_service policy lat lon vc ms w = (res, w')" "store_ok (w_db w)" "0 \<le> w_in_flight w"
  shows "store_ok (w_db w') \<and> w_in_flight w' = w_in_flight w"
  using evolvesD [OF run_service_step assms(1)] assms(2,3) by (simp add: step_ok_def)

theorem service_run_keeps_invariants_witness:
  "store_ok (w_db (snd (run_service default_policy None None None
     [\<lparr>in_topic = RPC_REQUEST, in_empty = False, in_json = Inr (request_dump sample_request)\<rparr>] sample_world)))"
  using service_run_keeps_invariants [OF prod.collapse [symmetric], of sample_world default_policy None None
      None "[\<lparr>in_topic = RPC_REQUEST, in_empty = False, in_json = Inr (request_dump sample_request)\<rparr>]"]
  by (simp add: sample_world_def)

definition added_at_most :: "nat \<Rightarrow> world \<Rightarrow> world \<Rightarrow> bool" where
  "added_at_most n w w' \<longleftrightarrow> length (responses w') \<le> length (responses w) + n"

lemma emit_added: "evolves (added_at_most 1) (service_emit n p)"
proof (rule evolvesI)
  fix w res w'
  assume "service_emit n p w = (res, w')"
  then show "added_at_most 1 w w'"
  proof (rule service_emit_cases)
    fix t
    assume "bus_publish t (response_json p) False w = (res, w')"
    from bus_publish_result [OF this] show ?thesis by (auto simp: added_at_most_def responses_def)
  qed (simp add: added_at_most_def)
qed

lemma added_idle: "quiet m \<Longrightarrow> evolves (added_at_most n) m"
  by (rule evolvesI) (auto simp: added_at_most_def dest: evolves_sameD)

lemma added_catch:
  assumes "evolves (added_at_most n) m" "quiet h"
  shows "evolves (added_at_most n) (catch_exception m h)"
proof (rule evolvesI)
  fix w r w'
  assume "catch_exception m h w = (r, w')"
  then show "added_at_most n w w'"
  proof (cases rule: catch_exception_cases)
    case (3 e v)
    with evolvesD [OF assms(1) 3(1)] evolves_sameD [OF assms(2) 3(3)] show ?thesis
      by (simp add: added_at_most_def)
  qed (auto dest: evolvesD [OF assms(1)])
qed

lemma added_andthen:
  assumes "evolves (added_at_most n) m" "\<And>x. evolves (added_at_most k) (f x)"
  shows "evolves (added_at_most (n + k)) (andthen m f)"
proof (rule evolvesI)
  fix w r w'
  assume "andthen m f w = (r, w')"
  then show "added_at_most (n + k) w w'"
    by (cases rule: andthenE)
      (fastforce simp: added_at_most_def dest: evolvesD [OF assms(1)] evolvesD [OF assms(2)])+
qed

lemma handle_one_added: "evolves (added_at_most 1) (handle_one policy t p)"
proof (rule evolvesI)
  fix w res w'
  assume run: "handle_one policy t p w = (res, w')"
  let ?env = "inbound_to_request (h_lax_int (w_host w)) (h_float_repr (w_host w)) t p"
  show "added_at_most 1 w w'"
  proof (cases ?env)
    case (Inl e)
    with run show ?thesis by (simp add: handle_one_def added_at_most_def)
  next
    case (Inr env)
    note env = Inr
    then show ?thesis
    proof (cases rule: inbound_cases)
      case (request r data)
      with run env have "process_request DEFAULT_HANDLERS service_emit policy r w = (res, w')"
        by (simp add: handle_one_def)
      moreover have "q_from r \<noteq> []"
        using validate_request_well_formed [OF request(2)] by (auto simp: well_formed_request_def)
      ultimately have "replied r w w'" using evolvesD [OF dflt.process_replied] by blast
      then show ?thesis by (auto simp: replied_def added_at_most_def)
    next
      case (refused data)
      with run env show ?thesis
        using evolvesD [OF added_catch [OF emit_added same.evolves_ret]]
        by (fastforce simp: handle_one_def added_at_most_def split: option.splits)
    next
      case garbled
      with run env show ?thesis by (simp add: handle_one_def added_at_most_def)
    qed
  qed
qed

lemma consume_added:
  "evolves (added_at_most (if in_topic m = RPC_REQUEST then 1 else 0)) (consume policy m)"
proof -
  have c: "evolves (added_at_most 0) (maybe_cache m)" by (rule added_idle) (rule evolves_intros)
  have q: "quiet (ret ())" by (rule evolves_intros)
  have r: "evolves (added_at_most 0) (catch_exception (route_event t p) (ret ()))" for t p
    by (rule added_idle) (intro evolves_intros)
  have i: "evolves (added_at_most 0) (ret ())" by (rule added_idle) (rule q)
  show ?thesis
  proof (cases "in_topic m = RPC_REQUEST")
    case True
    have "evolves (added_at_most (0 + 1)) (consume policy m)"
      unfolding consume_def spawn_def using True
      by (intro added_andthen c) (simp only: simp_thms if_True added_catch [OF handle_one_added q])
    with True show ?thesis by simp
  next
    case False
    have "evolves (added_at_most (0 + 0)) (consume policy m)"
      unfolding consume_def using False
      by (intro added_andthen c) (simp add: r i)
    with False show ?thesis by simp
  qed
qed

lemma consume_loop_added:
  "evolves (added_at_most (length (filter (\<lambda>m. in_topic m = RPC_REQUEST) ms))) (consume_loop policy ms)"
proof (induction ms)
  case Nil
  show ?case by (simp only: consume_loop.simps, rule added_idle, rule evolves_intros)
next
  case (Cons m ms)
  from added_andthen [OF consume_added [of m policy] Cons.IH] show ?case
    by (cases "in_topic m = RPC_REQUEST") simp_all
qed

text \<open>
  No request, no response: over any run of the consume loop the service puts at most as many
  messages on the response topics as there were messages on the request topic, whatever else
  arrives and whatever fails.
\<close>

theorem responses_bounded_by_requests:
  assumes "consume_loop policy ms w = (res, w')"
  shows "length (responses w') \<le> length (responses w) + length (filter (\<lambda>m. in_topic m = RPC_REQUEST) ms)"
  using evolvesD [OF consume_loop_added assms] by (simp add: added_at_most_def)

definition list_status :: inbound where
  "list_status = \<lparr>in_topic = GATEWAY_STATUS, in_empty = False, in_json = Inr (VList [])\<rparr>"

theorem responses_bounded_by_requests_witness:
  "length (responses (snd (consume_loop default_policy [list_status] sample_world))) \<le> 0"
  using responses_bounded_by_requests [OF prod.collapse [symmetric], of default_policy "[list_status]"
      sample_world]
  by (simp add: list_status_def topic_defs responses_def sample_world_def)

text \<open>
  A gateway status whose payload is not empty and is no JSON object: it decodes to a list, a string,
  a number, a boolean or null, or \<open>json.loads\<close> raises something else than \<open>JSONDecodeError\<close> on it.
\<close>

definition poison :: "inbound \<Rightarrow> bool" where
  "poison m \<longleftrightarrow> in_topic m = GATEWAY_STATUS \<and> \<not> in_empty m \<and>
     (case in_json m of
        Inl e \<Rightarrow> e \<noteq> JSONDecodeError
      | Inr (VDict d) \<Rightarrow> False
      | Inr v \<Rightarrow> True)"

lemma poison_fields: "poison m \<longleftrightarrow> in_topic m = GATEWAY_STATUS \<and>
     (case gateway_fields m of Inl e \<Rightarrow> e \<noteq> JSONDecodeError | Inr _ \<Rightarrow> False)"
  by (auto simp: poison_def gateway_fields_def split: sum.split pyval.split)

text \<open>The exception such a message raises.\<close>

definition poison_exn :: "inbound \<Rightarrow> exn" where
  "poison_exn m = (case in_json m of Inl e \<Rightarrow> e | Inr _ \<Rightarrow> PyExn ''AttributeError'')"

lemma poison_raises: "poison m \<Longrightarrow> consume policy m w = (Inl (poison_exn m), w)"
  by (auto simp: poison_def poison_exn_def consume_def maybe_cache_def gateway_fields_def andthen_def
      split: sum.splits pyval.splits)

lemma catch_ret_raises: "catch_exception m (ret x) w = (Inl e, w') \<Longrightarrow> e = Cancelled"
  by (erule catch_exception_cases) simp_all

lemma cache_raises:
  assumes "maybe_cache m w = (Inl e, w')" "e \<noteq> Cancelled"
  shows "poison m \<and> w' = w"
proof -
  have gw: "in_topic m = GATEWAY_STATUS"
    using assms(1) by (simp add: maybe_cache_def split: if_splits)
  show ?thesis
  proof (cases "gateway_fields m")
    case (Inl x)
    with gw assms show ?thesis
      by (auto simp: maybe_cache_def poison_fields split: if_splits)
  next
    case (Inr y)
    obtain st dt sn where y: "y = (st, dt, sn)" by (cases y)
    from assms(1) gw Inr y have "e = Cancelled"
      by (auto simp: maybe_cache_def time_time_def elim!: andthenE dest: catch_ret_raises)
    with assms(2) show ?thesis by simp
  qed
qed

lemma consume_raises:
  assumes "consume policy m w = (Inl e, w')" "e \<noteq> Cancelled"
  shows "poison m \<and> w' = w"
  using assms(1)
proof (cases "maybe_cache m w")
  case (Pair res v)
  show ?thesis
  proof (cases res)
    case (Inl x)
    with Pair assms have "maybe_cache m w = (Inl e, w')" by (simp add: consume_def andthen_def)
    with assms(2) show ?thesis by (intro cache_raises)
  next
    case (Inr x)
    with Pair assms show ?thesis
      by (auto simp: consume_def andthen_def spawn_def split: if_splits dest: catch_ret_raises)
  qed
qed

text \<open>
  C32. What stops the consume loop. Apart from a cancellation, processing a message raises exactly when
  it is a gateway status with a payload that is not empty and no JSON object, as \<open>poison\<close> spells out;
  no request, however malformed, and no event does it. Such a message ends the loop with an
  \<open>AttributeError\<close>, or the exception of the decoder, before anything has changed, and the messages
  after it are not looked at.
\<close>

theorem consume_raises_iff_poison:
  "((\<exists>e w'. consume policy m w = (Inl e, w') \<and> e \<noteq> Cancelled) \<longleftrightarrow> poison m \<and> poison_exn m \<noteq> Cancelled) \<and>
   (poison m \<longrightarrow> consume_loop policy (m # ms) w = (Inl (poison_exn m), w))"
  using poison_raises [of m policy w] consume_raises [of policy m w] by (auto simp: andthen_def)

theorem consume_raises_iff_poison_witness:
  "consume_loop default_policy [list_status, \<lparr>in_topic = RPC_REQUEST, in_empty = False,
      in_json = Inr (request_dump sample_request)\<rparr>] sample_world = (Inl (PyExn ''AttributeError''), sample_world) \<and>
   fst (consume default_policy (list_status\<lparr>in_empty := True, in_json := Inl JSONDecodeError\<rparr>) sample_world)
     \<notin> {Inl (PyExn ''AttributeError''), Inl JSONDecodeError}"
proof -
  have "poison list_status" "poison_exn list_status = PyExn ''AttributeError''"
      "\<not> poison (list_status\<lparr>in_empty := True, in_json := Inl JSONDecodeError\<rparr>)"
    by (simp_all add: poison_def poison_exn_def list_status_def)
  then show ?thesis
    using consume_raises_iff_poison [of default_policy list_status sample_world
        "[\<lparr>in_topic = RPC_REQUEST, in_empty = False, in_json = Inr (request_dump sample_request)\<rparr>]"]
      consume_raises_iff_poison [of default_policy "list_status\<lparr>in_empty := True, in_json := Inl JSONDecodeError\<rparr>"
        sample_world "[]"]
    by (metis exn.distinct(5) insertE prod.collapse singletonD)
qed

text \<open>
  A gateway status that is a JSON array, valid JSON but no object, ends the consume loop: the
  messages after it are not looked at.
\<close>

theorem array_status_ends_loop:
  "consume_loop policy (list_status # ms) w = (Inl (PyExn ''AttributeError''), w)"
  by (simp add: andthen_def consume_def maybe_cache_def list_status_def gateway_fields_def)

section \<open>Requests that are none\<close>

definition unanswerable :: "(pyval \<Rightarrow> int option) \<Rightarrow> payload \<Rightarrow> bool" where
  "unanswerable lax_int p \<longleftrightarrow> (case p of
      Inl e \<Rightarrow> e = JSONDecodeError
    | Inr v \<Rightarrow> validate_request lax_int v = None \<and>
        (case v of VDict d \<Rightarrow> \<not> truthy (dget d ''id'') \<or> \<not> truthy (dget d ''from'') | _ \<Rightarrow> True))"

text \<open>
  A payload on the request topic that is no request and cannot be answered (undecodable, no
  object, or without an id or a sender) is dropped without a trace: no response, no row, no event,
  no change at all.
\<close>

theorem unanswerable_dropped:
  assumes "unanswerable (h_lax_int (w_host w)) p"
  shows "handle_one policy t p w = (Inr (), w)"
  using assms
  by (auto simp: handle_one_def andthen_def inbound_to_request_def unanswerable_def
      try_build_bad_request_def split: sum.splits pyval.splits)

theorem unanswerable_dropped_witness:
  "handle_one default_policy RPC_REQUEST (Inr (VDict [(''id'', VStr ''x''), (''from'', VStr [])]))
     sample_world = (Inr (), sample_world)"
  by (rule unanswerable_dropped)
    (simp add: unanswerable_def validate_request_def field_or_def field_req_def)

text \<open>
  C39. A payload that is no request but names an id and a sender is answered once with
  \<open>bad_request\<close>, addressed to the text of its \<open>from\<close> field; no row and no event is written,
  so such a rejection is not in the request log.
\<close>

theorem refused_payload_answered:
  assumes "live w" "validate_request (h_lax_int (w_host w)) (VDict d) = None"
    and "truthy (dget d ''id'')" "dget d ''from'' = VStr n" "n \<noteq> []"
  shows "\<exists>p w'. handle_one policy t (Inr (VDict d)) w = (Inr (), w') \<and>
     responses w' = responses w @ [response_message p] \<and> p_to p = n \<and>
     map_option eb_code (p_error p) = Some BAD_REQUEST \<and> w_db w' = w_db w"
proof -
  let ?fr = "h_float_repr (w_host w)"
  obtain p where p: "try_build_bad_request ?fr (VDict d) = Some p"
    using assms(3-5) bad_request_Some_iff [of ?fr d] by auto
  from bad_request_addressed [OF p] bad_request_shape [OF p] assms(4)
  have to: "p_to p = n" and code: "map_option eb_code (p_error p) = Some BAD_REQUEST" by simp_all
  from dflt.emit_live [OF assms(1)] to assms(5) obtain w' where
      e: "service_emit (p_to p) p w = (Inr (), w')" by metis
  have r: "responses w' = responses w @ [response_message p]"
    using dflt.emit_sent [OF e] to assms(5) by simp
  have "w_db w' = w_db w"
    using e to assms(5) bus_publish_result [of _ "response_json p" False w "Inr ()" w']
    by (fastforce simp: service_emit_eq)
  moreover have "handle_one policy t (Inr (VDict d)) w = (Inr (), w')"
    using assms(2) p e by (simp add: handle_one_def andthen_def inbound_to_request_def
        catch_exception_def catch_def)
  ultimately show ?thesis using r to code by blast
qed

theorem refused_payload_answered_witness:
  "\<exists>p w'. handle_one default_policy RPC_REQUEST
       (Inr (VDict [(''id'', VStr ''x''), (''from'', VStr ''n9'')])) sample_world = (Inr (), w') \<and>
     responses w' = responses sample_world @ [response_message p] \<and> p_to p = ''n9'' \<and>
     map_option eb_code (p_error p) = Some BAD_REQUEST \<and> w_db w' = w_db sample_world"
  by (rule refused_payload_answered)
    (simp_all add: validate_request_def field_or_def field_req_def bounded_str_def)

text \<open>
  A request written with the model's own serialiser is the request the pipeline runs: decoding
  and validation give it back unchanged, given only that pydantic reads a JSON integer as itself.
\<close>

theorem dumped_request_is_processed:
  assumes "well_formed_request r" "\<And>n. h_lax_int (w_host w) (VInt n) = Some n"
  shows "handle_one policy t (Inr (request_dump r)) w =
     process_request DEFAULT_HANDLERS service_emit policy r w"
  using validate_request_dump [OF assms]
  by (simp add: handle_one_def andthen_def inbound_to_request_def)

theorem dumped_request_is_processed_witness:
  "handle_one default_policy RPC_REQUEST (Inr (request_dump sample_request)) sample_world =
     process_request DEFAULT_HANDLERS service_emit default_policy sample_request sample_world"
  by (rule dumped_request_is_processed)
    (simp_all add: well_formed_request_def sample_request_def sample_world_def sample_host_def)

section \<open>Gateway events\<close>

text \<open>
  A battery event that reports an empty battery loses its percentage: \<open>pct\<close> 0 is falsy, so
  what is stored is the other key, and nothing when that is absent.
\<close>

theorem empty_battery_is_lost:
  assumes "dget d ''pct'' = VInt 0" "dget d ''battery_pct'' = VNone" "truthy (event_node d)"
    and "truthy (dget d ''ts'')"
  shows "handle_battery_event (VDict d) w =
     apply_battery (event_node d) (dget d ''ts'') VNone (dget d ''voltage'') ''telemetry'' w"
  using assms by (simp add: handle_battery_event_def andthen_def or_now_def py_or_def)

theorem empty_battery_is_lost_witness:
  "handle_battery_event (VDict [(''pubkey'', VStr ''n1''), (''pct'', VInt 0), (''ts'', VInt 50)]) sample_world =
     apply_battery (VStr ''n1'') (VInt 50) VNone VNone ''telemetry'' sample_world"
  using empty_battery_is_lost [of "[(''pubkey'', VStr ''n1''), (''pct'', VInt 0), (''ts'', VInt 50)]"
      sample_world]
  by (simp add: event_node_def py_or_def)

end
