(* ===== verification/LiveService.thy ===== *)
theory LiveService
  imports Tasks ServiceProps
begin

text \<open>
  transport/service.py as it runs: the request tasks, the consume loop, the heartbeat and the
  sweeper take turns until the loop ends; then the broker is told, the connection is closed, the open
  tasks are given some time, and the database is closed. The request tasks and the consume loop are
  cut at their awaits; a heartbeat, a sweep and a GPS fix are one step each.
\<close>

section \<open>The task of a message\<close>

definition refusal_task :: "response \<Rightarrow> task" where
  "refusal_task err = step (catch_exception (service_emit (p_to err) err) (ret ())) Ended"

definition message_task :: "timeout_policy \<Rightarrow> inbound \<Rightarrow> task" where
  "message_task policy m =
     step (andthen (gets w_host) (\<lambda>h.
         lift (inbound_to_request (h_lax_int h) (h_float_repr h) (in_topic m) (in_json m))))
       (\<lambda>out. case out of
           Inl e \<Rightarrow> Ended (Inl e)
         | Inr env \<Rightarrow> (case env_request env of
             None \<Rightarrow> (case env_error env of None \<Rightarrow> Ended (Inr ()) | Some err \<Rightarrow> refusal_task err)
           | Some r \<Rightarrow> service_task policy r))"

lemma run_message_task: "run_task (message_task policy m) = handle_one policy (in_topic m) (in_json m)"
  by (rule ext)
    (auto simp: message_task_def handle_one_def refusal_task_def run_task_step run_task_Ended andthen_def gets_def
      lift_def run_default_task ret_def split: sum.split option.split prod.split)

section \<open>The message that is no request\<close>

text \<open>
  The consume loop awaits what such a message makes it do before it takes the next one; the request
  tasks go on meanwhile.
\<close>

definition co_lift :: "exn + 'a \<Rightarrow> 'a co" where "co_lift r = Ended r"

definition co_catch_exception :: "unit co \<Rightarrow> unit co" where
  "co_catch_exception c = co_then c (\<lambda>out. if out = Inl Cancelled then co_raise Cancelled else co_ret ())"

definition co_battery_event :: "pyval \<Rightarrow> unit co" where
  "co_battery_event data = (case data of
      VDict d \<Rightarrow>
        if \<not> truthy (event_node d) then co_ret ()
        else co_bind (await (or_now (dget d ''ts''))) (\<lambda>ts.
          co_apply_battery (event_node d) ts (py_or (dget d ''pct'') (dget d ''battery_pct''))
            (dget d ''voltage'') ''telemetry'')
    | _ \<Rightarrow> co_raise (PyExn ''AttributeError''))"

definition co_telemetry_event :: "pyval \<Rightarrow> unit co" where
  "co_telemetry_event data = (case data of
      VDict d \<Rightarrow>
        if \<not> truthy (event_node d) then co_ret ()
        else co_bind (await (or_now (dget d ''ts''))) (\<lambda>ts. co_apply_seen (event_node d) ts None None)
    | _ \<Rightarrow> co_raise (PyExn ''AttributeError''))"

definition co_route_event :: "string \<Rightarrow> payload \<Rightarrow> unit co" where
  "co_route_event topic p =
     (if starts_with direct_prefix topic
      then co_bind (co_lift (extract_radio_metadata p)) (\<lambda>(rssi, snr).
           co_bind (await time_time) (\<lambda>now.
             co_apply_seen (VStr (drop (length direct_prefix) topic)) (fin_ts now) rssi snr))
      else if topic = battery_topic
      then co_bind (co_lift (safe_json p)) (\<lambda>data.
             if truthy data then co_battery_event data else co_ret ())
      else if topic = telemetry_topic
      then co_bind (co_lift (safe_json p)) (\<lambda>data.
             if truthy data then co_telemetry_event data else co_ret ())
      else co_ret ())"

definition co_consume :: "inbound \<Rightarrow> unit co" where
  "co_consume m =
     co_bind (await (maybe_cache m)) (\<lambda>_.
       if starts_with direct_prefix (in_topic m) \<or> in_topic m = battery_topic \<or> in_topic m = telemetry_topic
       then co_catch_exception (co_route_event (in_topic m) (in_json m))
       else co_ret ())"

lemma co_run_lift: "co_run (co_lift r) = lift r"
  by (rule ext) (simp add: co_lift_def)

lemma co_run_catch: "co_run (co_catch_exception c) = catch_exception (co_run c) (ret ())"
  by (rule ext) (auto simp: co_catch_exception_def co_run_then catch_exception_def catch_def split: prod.split sum.split)

lemma co_run_events:
  "co_run (co_battery_event v) = handle_battery_event v" "co_run (co_telemetry_event v) = handle_telemetry_event v"
  by (cases v; simp add: co_battery_event_def handle_battery_event_def co_telemetry_event_def
      handle_telemetry_event_def co_run_simps ret_def raise_def)+

lemma co_run_route: "co_run (co_route_event t p) = route_event t p"
  unfolding co_route_event_def route_event_def
  by (simp add: co_run_simps co_run_lift co_run_events ret_def cong: if_cong)

lemma co_run_consume: "in_topic m \<noteq> RPC_REQUEST \<Longrightarrow> co_run (co_consume m) = consume policy m"
  unfolding co_consume_def consume_def
  by (simp add: co_run_simps co_run_catch co_run_route ret_def)

section \<open>The heartbeat\<close>

text \<open>\<open>_heartbeat\<close>, one tick; a failing publish is logged.\<close>

definition beat :: "string option \<Rightarrow> (world, unit) prog" where
  "beat vcgencmd = catch_exception (publish_health vcgencmd ''running'') (ret ())"

section \<open>The end of \<open>run\<close>\<close>

text \<open>
  What follows the consume loop, up to the connection being closed. The heartbeat and the sweeper
  are cancelled before.
\<close>

definition leave :: "string option \<Rightarrow> (world, unit) prog" where
  "leave vcgencmd = finally_do (catch_exception (publish_health vcgencmd ''stopped'') (ret ()))
     (modify (\<lambda>w. w\<lparr>w_connected := False\<rparr>))"

section \<open>The service\<close>

text \<open>
  \<open>Serving c\<close>: the consume loop still has \<open>c\<close> to do for the message it took. \<open>Leaving\<close>: an exception
  ended the loop. \<open>Draining\<close>: disconnected, waiting for the open tasks. \<open>Closed\<close>: \<open>run\<close> returned.
\<close>

datatype phase = Serving "unit co" | Leaving | Draining | Closed

abbreviation Waiting :: phase where "Waiting \<equiv> Serving (co_ret ())"

fun connected :: "phase \<Rightarrow> bool" where
  "connected (Serving c) = True"
| "connected Leaving = True"
| "connected _ = False"

text \<open>
  The loop can be cancelled wherever it waits (\<open>leaves\<close>); that an awaited operation still takes effect
  then is the step before.
\<close>

inductive live_step ::
  "timeout_policy \<Rightarrow> sweeper \<Rightarrow> phase \<times> task list \<times> world \<Rightarrow> phase \<times> task list \<times> world \<Rightarrow> bool"
  for policy sw where
  request_message: "in_topic m = RPC_REQUEST \<Longrightarrow>
    live_step policy sw (Waiting, ts, w) (Waiting, ts @ [message_task policy m], w)"
| other_message: "in_topic m \<noteq> RPC_REQUEST \<Longrightarrow>
    live_step policy sw (Waiting, ts, w) (Serving (co_consume m), ts, w)"
| consumes: "f w = (c, w') \<Longrightarrow> live_step policy sw (Serving (Run f), ts, w) (Serving c, ts, w')"
| fails: "live_step policy sw (Serving (Ended (Inl e)), ts, w) (Leaving, ts, w)"
| beats: "connected p \<Longrightarrow> beat vcgencmd w = (out, w') \<Longrightarrow>
    live_step policy sw (p, ts, w) (p, ts, w')"
| gps: "connected p \<Longrightarrow> on_fix quiet_s th fx w = (out, w') \<Longrightarrow>
    live_step policy sw (p, ts, w) (p, ts, w')"
| sweeps: "connected p \<Longrightarrow> run_once sw w = (out, w') \<Longrightarrow>
    live_step policy sw (p, ts, w) (p, ts, w')"
| moves: "p \<noteq> Closed \<Longrightarrow> i < length ts \<Longrightarrow> ts ! i = Run f \<Longrightarrow> f w = (t', w') \<Longrightarrow>
    live_step policy sw (p, ts, w) (p, ts[i := t'], w')"
| leaves: "connected p \<Longrightarrow> leave vcgencmd w = (out, w') \<Longrightarrow>
    live_step policy sw (p, ts, w) (Draining, ts, w')"
| closes: "live_step policy sw (Draining, ts, w) (Closed, ts, w)"

inductive_cases live_stepE: "live_step policy sw (p, ts, w) s'"

inductive live_reach ::
  "timeout_policy \<Rightarrow> sweeper \<Rightarrow> phase \<times> task list \<times> world \<Rightarrow> phase \<times> task list \<times> world \<Rightarrow> bool"
  for policy sw s0 where
  live_idle: "live_reach policy sw s0 s0"
| live_next: "live_reach policy sw s0 s \<Longrightarrow> live_step policy sw s s' \<Longrightarrow> live_reach policy sw s0 s'"

section \<open>What every step of a task keeps\<close>

abbreviation each_move :: "(world \<Rightarrow> world \<Rightarrow> bool) \<Rightarrow> unit co \<Rightarrow> bool" where
  "each_move R \<equiv> co_all R (\<lambda>_. True)"

lemma moves_Ended: "each_move R (Ended out)"
  by (rule all_Ended) simp

lemma moves_RunD: "each_move R (Run f) \<Longrightarrow> f w = (t', w') \<Longrightarrow> R w w' \<and> each_move R t'"
  by (erule co_all_RunE)

lemma moves_same: "each_move (same g) (Run f) \<Longrightarrow> f w = (t', w') \<Longrightarrow> g w' = g w"
  by (drule moves_RunD) (auto simp: same_def)

lemma moves_step: "evolves R m \<Longrightarrow> (\<And>out. each_move R (k out)) \<Longrightarrow> each_move R (step m k)"
  by (rule all_step)

lemma moves_ok_then: "(\<And>x. each_move R (k x)) \<Longrightarrow> each_move R (ok_then k out)"
  by (cases out) (auto simp: ok_then_def intro: moves_Ended)

text \<open>A relation that a handler's steps keep as far as they touch its rows and the retained topics only.\<close>

lemma handler_frame:
  assumes "resolve CUT_HANDLERS t = Some h" "\<And>w w'. same surroundings w w' \<Longrightarrow> R w w'"
    and "evolves R inc_in_flight" "evolves R dec_in_flight"
  shows "co_all R (\<lambda>_. True) (co_run_with_timeout (h r) ttl)"
proof -
  have "serene (\<lambda>p. answers r p \<and> p_status p = ''ok'') (h r)"
    using cut_handlers_ok [OF assms(1)] by (simp add: cut_ok_def)
  from timeout_all [OF this assms(2-4)] show ?thesis by (rule co_all_mono) simp_all
qed

text \<open>The parts a request task is made of.\<close>

locale task_frame = evolution +
  assumes frame_received: "evolves R (record_received r ttl)"
    and frame_event: "s \<in> set ALL_EVENT_STATES \<Longrightarrow> evolves R (record_event i n s dt)"
    and frame_completion: "f \<in> set ALL_FINAL_STATES \<Longrightarrow> evolves R (record_completion i n f p e)"
    and frame_seen: "evolves R (andthen time_time (\<lambda>now. mark_node_seen v (fin_ts now)))"
    and frame_handler: "resolve CUT_HANDLERS t = Some h \<Longrightarrow> co_all R (\<lambda>_. True) (co_run_with_timeout (h r) ttl)"
    and frame_emit: "evolves R (service_emit n resp)"
begin

lemma moves_publish: "f \<in> set ALL_FINAL_STATES \<Longrightarrow> each_move R (publish_task service_emit r p f e)"
  unfolding publish_task_def Let_def
  by (auto split: sum.split intro!: moves_step moves_Ended frame_event frame_completion frame_emit)

lemma moves_error: "each_move R (error_task service_emit r c m)"
  unfolding error_task_def by (rule moves_publish) simp

lemma moves_finish: "each_move R (finish_task service_emit r ttl out)"
  unfolding finish_task_def
  by (auto split: sum.split exn.split
      intro!: moves_Ended moves_publish moves_error moves_step moves_ok_then frame_event)

lemma moves_handler:
  "resolve CUT_HANDLERS t = Some h \<Longrightarrow>
     each_move R (co_then (co_run_with_timeout (h r) ttl) (finish_task service_emit r ttl))"
  by (rule all_then [OF frame_handler]) (auto simp: moves_finish)

lemma moves_fresh: "each_move R (fresh_task CUT_HANDLERS service_emit ttl r)"
  unfolding fresh_task_def
  by (auto split: option.split
      intro!: moves_step moves_ok_then frame_event frame_seen moves_handler moves_error)

lemma moves_request: "each_move R (service_task policy r)"
  unfolding request_task_def Let_def received_task_def
  by (auto split: sum.split
      intro!: moves_step moves_ok_then moves_Ended frame_received frame_event moves_fresh moves_error)

lemma moves_message: "each_move R (message_task policy m)"
  unfolding message_task_def refusal_task_def
  by (auto split: sum.split option.split
      intro!: moves_step moves_Ended moves_request evolves_rules frame_emit)

end

section \<open>The consume loop's steps\<close>

definition around_consumer ::
  "world \<Rightarrow> (request_row list \<times> event_row list) \<times> host \<times> bool \<times> int \<times> message list" where
  "around_consumer w = (request_tables (w_db w), w_host w, w_connected w, w_in_flight w, responses w)"

lemma surroundings_around: "same surroundings w w' \<Longrightarrow> same around_consumer w w'"
  by (simp add: same_def surroundings_def outside_aggregator_def around_consumer_def)

lemma evolves_around: "aside m \<Longrightarrow> quiet m \<Longrightarrow> evolves (same around_consumer) m"
  by (simp add: evolves_def same_def outside_aggregator_def around_consumer_def)

lemma around_bind: "co_all (same around_consumer) (\<lambda>_. True) c \<Longrightarrow>
    (\<And>x. co_all (same around_consumer) (\<lambda>_. True) (k x)) \<Longrightarrow> co_all (same around_consumer) (\<lambda>_. True) (co_bind c k)"
  by (erule all_bind) simp_all

lemma around_await: "aside m \<Longrightarrow> quiet m \<Longrightarrow> co_all (same around_consumer) (\<lambda>_. True) (await m)"
  by (rule all_await [OF evolves_around]) simp_all

lemma around_serene: "serene Q c \<Longrightarrow> co_all (same around_consumer) (\<lambda>_. True) c"
  by (erule co_all_mono) (simp_all add: surroundings_around)

lemma quiet_battery [evolves_intros]: "quiet (upsert_node_battery v t p vo src)"
  unfolding store_api_defs by (rule evolves_intros)

lemma maybe_cache_around: "evolves (same around_consumer) (maybe_cache m)"
proof -
  have "evolves (same around_consumer) (modify (\<lambda>w. w\<lparr>w_gateway := g\<rparr>))" for g
    by (rule evolves_modify) (simp add: same_def around_consumer_def responses_def)
  moreover have "evolves (same around_consumer) (record_gateway_snapshot a b c)" for a b c
  proof (rule evolves_around)
    show "quiet (record_gateway_snapshot a b c)" unfolding record_gateway_snapshot_def by (rule evolves_intros)
  qed (rule evolves_intros)
  moreover have "evolves (same around_consumer) time_time"
    by (rule evolves_around; rule evolves_intros)
  ultimately show ?thesis unfolding maybe_cache_def by (intro evolves_intros)
qed

lemma consumer_around: "each_move (same around_consumer) (co_consume m)"
proof -
  have seen: "each_move (same around_consumer) (co_apply_seen v t a b)" for v t a b
    unfolding co_apply_seen_def
    by (intro around_bind around_await around_serene [OF serene_aggregator(2)] evolves_intros)
  have bat: "each_move (same around_consumer) (co_apply_battery v t p vo src)" for v t p vo src
    unfolding co_apply_battery_def
    by (intro around_bind around_await around_serene [OF serene_aggregator(2)] evolves_intros)
  have ev: "each_move (same around_consumer) (co_battery_event v)" "each_move (same around_consumer) (co_telemetry_event v)" for v
    unfolding co_battery_event_def co_telemetry_event_def
    by (cases v; auto intro!: moves_Ended around_bind around_await seen bat evolves_intros)+
  have lift: "co_all (same around_consumer) (\<lambda>_. True) (co_lift x)" for x :: "exn + 'x"
    unfolding co_lift_def by (rule all_Ended) simp
  have "each_move (same around_consumer) (co_route_event t p)" for t p
    unfolding co_route_event_def
    by (auto intro!: around_bind lift seen ev moves_Ended around_await evolves_intros)
  then show ?thesis
    unfolding co_consume_def co_catch_exception_def
    by (auto intro!: around_bind moves_Ended all_then all_await [OF maybe_cache_around])
qed

section \<open>The request tables\<close>

interpretation kept_store: task_frame "kept db_fine"
proof unfold_locales
  show "evolves (kept db_fine) (andthen time_time (\<lambda>now. mark_node_seen v (fin_ts now)))" for v
    by (rule aside_keeps_store) (intro evolves_intros)
  show "evolves (kept db_fine) (service_emit n p)" for n p
    by (rule aside_keeps_store) (rule aside_service_emit)
  have same: "kept db_fine w w'" if "same surroundings w w'" for w w'
    using that by (auto simp: kept_def db_fine_def store_ok_def same_def surroundings_def outside_aggregator_def
        request_tables_def)
  have c: "evolves (kept db_fine) inc_in_flight" "evolves (kept db_fine) dec_in_flight"
    unfolding inc_in_flight_def dec_in_flight_def by (rule evolves_modify, simp add: kept_def db_fine_def)+
  show "co_all (kept db_fine) (\<lambda>_. True) (co_run_with_timeout (h r) ttl)"
    if "resolve CUT_HANDLERS t = Some h" for t h r ttl
    by (rule handler_frame [OF that]) (fact same c)+
qed (rule finish_keeps_store; assumption?)+

section \<open>Disconnected\<close>

definition muted :: "world \<Rightarrow> world \<Rightarrow> bool" where
  "muted w w' \<longleftrightarrow> (\<not> w_connected w \<longrightarrow> \<not> w_connected w' \<and> responses w' = responses w)"

interpretation muted: evolution muted
  by unfold_locales (simp_all add: muted_def)

lemma quiet_muted: "quiet m \<Longrightarrow> evolves (same w_connected) m \<Longrightarrow> evolves muted m"
  by (rule evolvesI) (auto simp: muted_def dest: evolves_sameD)

lemma aside_connected: "aside m \<Longrightarrow> evolves (same w_connected) m"
  by (rule evolvesI) (auto simp: same_def dest!: aside_host)

lemma rows_connected:
  "evolves (same w_connected) (record_received r ttl)" "evolves (same w_connected) (record_event i n s dt)"
  "evolves (same w_connected) (record_completion i n f p e)"
  unfolding store_api_defs by (rule evolves_store_call; simp add: same_def)+

lemma emit_muted: "evolves muted (service_emit n p)"
proof (rule evolvesI)
  fix w out w'
  assume "service_emit n p w = (out, w')"
  then show "muted w w'"
    by (rule service_emit_cases) (auto simp: muted_def bus_publish_def)
qed

interpretation muted: task_frame muted
proof unfold_locales
  show "evolves muted (andthen time_time (\<lambda>now. mark_node_seen v (fin_ts now)))" for v
    by (rule quiet_muted) (intro evolves_intros quiet_rows aside_connected)+
  have same: "muted w w'" if "same surroundings w w'" for w w'
    using that by (simp add: muted_def same_def surroundings_def outside_aggregator_def)
  have c: "evolves muted inc_in_flight" "evolves muted dec_in_flight"
    unfolding inc_in_flight_def dec_in_flight_def by (rule evolves_modify, simp add: muted_def responses_def)+
  show "co_all muted (\<lambda>_. True) (co_run_with_timeout (h r) ttl)"
    if "resolve CUT_HANDLERS t = Some h" for t h r ttl
    by (rule handler_frame [OF that]) (fact same c)+
qed (auto intro!: quiet_muted quiet_rows rows_connected emit_muted)

end
