(* ===== verification/InFlight.thy ===== *)
theory InFlight
  imports LiveService
begin

text \<open>
  The in-flight counter of timeouts/tracker.py under any schedule: what each task has added to it and
  not yet taken away.
\<close>

text \<open>
  \<open>holds n t\<close>: the task \<open>t\<close> has counted itself in \<open>n\<close> times and not yet out; whatever the others
  do, it keeps its own share of the counter in order.
\<close>

inductive holds :: "nat \<Rightarrow> task \<Rightarrow> bool" where
  holds_Ended: "holds 0 (Ended out)"
| holds_Run: "(\<And>w t' w'. f w = (t', w') \<Longrightarrow> int n \<le> w_in_flight w \<Longrightarrow>
      \<exists>n' \<le> 1. holds n' t' \<and> w_in_flight w' + int n = w_in_flight w + int n') \<Longrightarrow> holds n (Run f)"

inductive_cases holds_RunE: "holds n (Run f)"
inductive_cases holds_EndedE: "holds n (Ended out)"

lemma holds_RunD:
  "holds n (Run f) \<Longrightarrow> f w = (t', w') \<Longrightarrow> int n \<le> w_in_flight w \<Longrightarrow>
     \<exists>n' \<le> 1. holds n' t' \<and> w_in_flight w' + int n = w_in_flight w + int n'"
  by (erule holds_RunE) simp

lemma holds_step:
  "evolves (same w_in_flight) m \<Longrightarrow> (\<And>out. holds 0 (k out)) \<Longrightarrow> holds 0 (step m k)"
  unfolding step_def
  by (rule holds_Run) (auto split: prod.splits dest: evolves_sameD intro!: exI [of _ 0])

lemma holds_ok_then: "(\<And>x. holds 0 (k x)) \<Longrightarrow> holds 0 (ok_then k out)"
  by (cases out) (auto simp: ok_then_def intro: holds_Ended)

lemma holds_finally:
  "co_all (same w_in_flight) P c \<Longrightarrow> (\<And>out. holds 0 (k out)) \<Longrightarrow> holds 1 (co_then (co_finally c dec_in_flight) k)"
proof (induction rule: co_all.induct)
  case (all_Ended out)
  show ?case unfolding co_finally.simps co_then.simps
    by (rule holds_Run) (auto simp: dec_in_flight_def all_Ended.prems intro!: exI [of _ 0])
next
  case (all_Run f)
  show ?case unfolding co_finally.simps co_then.simps
  proof (rule holds_Run)
    fix w t' w'
    assume "(map_prod (\<lambda>c. co_then c k) id \<circ> (map_prod (\<lambda>c. co_finally c dec_in_flight) id \<circ> f)) w = (t', w')"
    then obtain c where c: "f w = (c, w')" "t' = co_then (co_finally c dec_in_flight) k" by (cases "f w") auto
    with all_Run.IH all_Run.prems show "\<exists>n' \<le> 1. holds n' t' \<and> w_in_flight w' + int 1 = w_in_flight w + int n'"
      by (intro exI [of _ 1]) (auto simp: same_def)
  qed
qed

lemma holds_timeout:
  assumes "cut_ok h" "\<And>out. holds 0 (k out)"
  shows "holds 0 (co_then (co_run_with_timeout (h r) ttl) k)"
proof -
  have "serene (\<lambda>p. answers r p \<and> p_status p = ''ok'') (h r)" using assms(1) by (simp add: cut_ok_def)
  from co_all_mono [OF serene_wait_for [OF this]]
  have "co_all (same w_in_flight) (fine (\<lambda>p. answers r p \<and> p_status p = ''ok'')) (co_wait_for (h r) ttl)"
    by (simp add: same_def surroundings_def outside_aggregator_def)
  then have "holds 1 (co_then (co_finally (co_wait_for (h r) ttl) dec_in_flight) k)"
    by (rule holds_finally) (rule assms(2))
  then show ?thesis
    unfolding co_run_with_timeout_def await_def co_bind.simps co_then.simps
    by (intro holds_Run) (auto simp: inc_in_flight_def intro!: exI [of _ 1])
qed

lemma flat_rows:
  "evolves (same w_in_flight) (record_received r ttl)" "evolves (same w_in_flight) (record_event i n s dt)"
  "evolves (same w_in_flight) (record_completion i n f p e)"
  unfolding store_api_defs by (rule evolves_store_call; simp add: same_def)+

lemma flat_aside: "aside m \<Longrightarrow> evolves (same w_in_flight) m"
  by (rule evolvesI) (auto simp: same_def dest!: aside_host)

lemma holds_publish: "holds 0 (publish_task service_emit r p f e)"
  unfolding publish_task_def Let_def
  by (auto split: sum.split intro!: holds_step holds_Ended flat_rows flat_aside aside_service_emit)

lemma holds_error: "holds 0 (error_task service_emit r c m)"
  unfolding error_task_def by (rule holds_publish)

lemma holds_finish: "holds 0 (finish_task service_emit r ttl out)"
  unfolding finish_task_def
  by (auto split: sum.split exn.split
      intro!: holds_Ended holds_publish holds_error holds_step holds_ok_then flat_rows)

lemma holds_request: "holds 0 (service_task policy r)"
proof -
  have seen: "evolves (same w_in_flight) (andthen time_time (\<lambda>now. mark_node_seen v (fin_ts now)))" for v
    by (rule flat_aside) (intro evolves_intros)
  have "holds 0 (fresh_task CUT_HANDLERS service_emit ttl r)" for ttl
    unfolding fresh_task_def
    using cut_handlers_ok [of "q_type r"]
    by (auto split: option.split
        intro!: holds_step holds_ok_then flat_rows seen holds_timeout holds_finish holds_error)
  then show ?thesis
    unfolding request_task_def Let_def received_task_def
    by (auto split: sum.split intro!: holds_step holds_ok_then holds_Ended flat_rows holds_error)
qed

lemma holds_message: "holds 0 (message_task policy m)"
  unfolding message_task_def refusal_task_def
  by (auto split: sum.split option.split
      intro!: holds_step holds_Ended holds_request evolves_intros flat_aside aside_service_emit)

end
