(* ===== verification/TaskProps.thy ===== *)
theory TaskProps
  imports Tasks
begin

text \<open>
  Properties of requests that are processed side by side. The sweeper, which deletes completed rows
  and so lets an old request id be used again, is not among the tasks.
\<close>

text \<open>
  A request cut into the steps between its awaits, those of its handler included, is the request: a
  lone task, for any router, emitter and policy, does to the world exactly what \<open>process_request\<close>
  does with the handlers run without interruption, and ends as it ends; for the router of the service
  these handlers are the default ones.
\<close>

lemma lone_task_is_process_request:
  "run_task (request_task router emit policy r) = process_request (uncut_all router) emit policy r \<and>
   uncut_all CUT_HANDLERS = DEFAULT_HANDLERS"
  by (simp add: run_request_task uncut_all_handlers)

text \<open>
  C7. The duplicate check holds under concurrency: whenever requests arrive and however their tasks
  interleave, also when the same request id arrives several times at once, a handler is started at
  most once for it.
\<close>

theorem handler_started_once:
  assumes "sys_reach (service_task policy) w0 (ts, w)" "started k w0 \<le> of_bool (on_record k w0)"
  shows "started k w \<le> 1"
proof -
  have "started k w \<le> of_bool (on_record k w)"
    using within_budget_bound [OF system_starts_once [OF assms, unfolded starts_once_def]] by simp
  then show ?thesis by (rule le_trans) simp
qed

text \<open>
  Under any schedule the number of responses put on the broker never exceeds the number of requests
  that have arrived.
\<close>

theorem concurrent_responses_bounded:
  assumes "sys_reach (service_task policy) w0 (ts, w)"
  shows "length (responses w) \<le> length (responses w0) + length ts"
  using within_budget_bound [OF system_speaks [OF assms]] by simp

section \<open>Witnesses\<close>

text \<open>The same request twice, and one step of the first task.\<close>

lemma sample_system:
  "\<exists>ts w. sys_reach (service_task default_policy) sample_world (ts, w) \<and> length ts = 2 \<and>
     on_record (''n1'', ''r1'') w"
proof -
  let ?t = "service_task default_policy sample_request"
  let ?ttl = "resolve_ttl default_policy ''ping'' None"
  obtain out w' where rec: "record_received sample_request ?ttl sample_world = (out, w')"
    by (cases "record_received sample_request ?ttl sample_world")
  have "?t = step (record_received sample_request ?ttl)
      (received_task CUT_HANDLERS service_emit ?ttl sample_request)"
    by (simp add: request_task_def Let_def)
  then have t: "?t = Run (\<lambda>w. case record_received sample_request ?ttl w of
      (out, w') \<Rightarrow> (received_task CUT_HANDLERS service_emit ?ttl sample_request out, w'))"
    by (simp add: step_def)
  have sender: "q_from sample_request \<noteq> []" by simp
  have r2: "sys_reach (service_task default_policy) sample_world ([?t, ?t], sample_world)"
    using next_step [OF next_step [OF idle arrive [OF sender]] arrive [OF sender]] by simp
  have "sys_step (service_task default_policy) ([?t, ?t], sample_world)
      ([?t, ?t][0 := received_task CUT_HANDLERS service_emit ?ttl sample_request out], w')"
    by (rule move [where f = "\<lambda>w. case record_received sample_request ?ttl w of
        (out, w') \<Rightarrow> (received_task CUT_HANDLERS service_emit ?ttl sample_request out, w')"])
      (simp_all add: t rec)
  with r2 have r3: "sys_reach (service_task default_policy) sample_world
      ([?t, ?t][0 := received_task CUT_HANDLERS service_emit ?ttl sample_request out], w')"
    by (rule next_step)
  have "fits64 ?ttl" by (simp add: fits64_def resolve_ttl_def default_policy_def)
  with rec have "on_record (''n1'', ''r1'') w'"
    by (auto simp: record_received_def store_call_def awaiting_def sync_record_received_def Let_def
        sample_world_def sample_host_def empty_store_def has_request_def on_record_def new_row_def
        row_key_def)
  with r3 show ?thesis by (intro exI conjI) (assumption, simp)
qed

lemma sample_started: "started k sample_world \<le> of_bool (on_record k sample_world)"
  by (simp add: started_def sample_world_def empty_store_def)

theorem handler_started_once_witness:
  "\<exists>ts w. sys_reach (service_task default_policy) sample_world (ts, w) \<and> length ts = 2 \<and>
     started (''n1'', ''r1'') w \<le> 1"
  using sample_system handler_started_once [OF _ sample_started] by blast

theorem concurrent_responses_bounded_witness:
  "\<exists>ts w. sys_reach (service_task default_policy) sample_world (ts, w) \<and> length (responses w) \<le> 2"
proof -
  obtain ts w where reach: "sys_reach (service_task default_policy) sample_world (ts, w)" "length ts = 2"
    using sample_system by blast
  have "responses sample_world = []" by (simp add: responses_def sample_world_def)
  with concurrent_responses_bounded [OF reach(1)] reach(2) have "length (responses w) \<le> 2" by simp
  with reach(1) show ?thesis by blast
qed

end
