(* ===== verification/LiveProps.thy ===== *)
theory LiveProps
  imports InFlight TaskProps
begin

text \<open>
  Properties of the running service: what holds however the messages, the tasks, the heartbeat, the
  sweeper, GPS fixes and the shutdown follow each other.
\<close>

section \<open>One step\<close>

definition all_tasks :: "(world \<Rightarrow> world \<Rightarrow> bool) \<Rightarrow> phase \<times> task list \<times> world \<Rightarrow> bool" where
  "all_tasks R s \<longleftrightarrow> list_all (each_move R) (fst (snd s))"

definition consumer_moves :: "(world \<Rightarrow> world \<Rightarrow> bool) \<Rightarrow> phase \<Rightarrow> bool" where
  "consumer_moves R p \<longleftrightarrow> (case p of Serving c \<Rightarrow> each_move R c | _ \<Rightarrow> True)"

lemma consumer_moves_simps [simp]:
  "consumer_moves R (Serving c) = each_move R c" "consumer_moves R Leaving" "consumer_moves R Draining"
  "consumer_moves R Closed"
  by (simp_all add: consumer_moves_def)

lemma all_tasks_step:
  assumes "live_step policy sw s s'" "all_tasks R s" "\<And>m. each_move R (message_task policy m)"
  shows "all_tasks R s'"
  using assms(1)
proof (cases rule: live_step.cases)
  case (moves p i ts f w t' w')
  then have "each_move R (Run f)" using assms(2) by (auto simp: all_tasks_def list_all_length)
  from moves_RunD [OF this moves(6)] have "each_move R t'" by blast
  with assms(2) moves show ?thesis
    by (auto simp: all_tasks_def list_all_iff dest!: set_mp [OF set_update_subset_insert])
qed (use assms(2,3) in \<open>auto simp: all_tasks_def\<close>)

lemma consumer_steps: "(\<And>w w'. same around_consumer w w' \<Longrightarrow> R w w') \<Longrightarrow> each_move R (co_consume m)"
  by (rule co_all_mono [OF consumer_around])

lemma consumer_step:
  assumes "live_step policy sw s s'" "consumer_moves R (fst s)" "\<And>m. each_move R (co_consume m)"
  shows "consumer_moves R (fst s')"
  using assms(1)
proof (cases rule: live_step.cases)
  case (other_message m ts w)
  with assms(3) show ?thesis by simp
next
  case (consumes f w c w' ts)
  with moves_RunD [of R f w c w'] assms(2) show ?thesis by simp
qed (use assms(2) in auto)

lemma beat_frames: "aside (beat vc)" "quiet (beat vc)"
proof -
  have "quiet (bus_publish SVC_HEALTH v b)" for v b
    by (rule quiet_publish) (simp add: is_response_def topic_defs)
  then show "quiet (beat vc)" unfolding beat_def publish_health_def by (intro evolves_intros)
  show "aside (beat vc)" unfolding beat_def publish_health_def by (intro evolves_intros)
qed

lemma fix_frames: "aside (on_fix q th fx)" "quiet (on_fix q th fx)"
  unfolding on_fix_def by (intro evolves_intros)+

lemma sweep_frames: "evolves step_ok (run_once sw)" "quiet (run_once sw)" "evolves (same w_connected) (run_once sw)"
  "evolves (same w_in_flight) (run_once sw)"
proof -
  have t: "evolves step_ok time_time" by (rule aside_step_ok) (rule evolves_intros)
  have f: "evolves (same w_in_flight) (purge_before cutoff)" "evolves (same w_in_flight) time_time" for cutoff
    unfolding purge_before_def by (rule evolves_store_call evolves_time_time; simp add: same_def)+
  have c: "evolves (same w_connected) (purge_before cutoff)" "evolves (same w_connected) time_time" for cutoff
    unfolding purge_before_def by (rule evolves_store_call evolves_time_time; simp add: same_def)+
  have q: "quiet (purge_before cutoff)" for cutoff
    unfolding purge_before_def by (rule evolves_intros)
  show "evolves step_ok (run_once sw)" unfolding run_once_def by (intro evolves_intros t)
  show "quiet (run_once sw)" unfolding run_once_def by (intro evolves_intros q)
  show "evolves (same w_connected) (run_once sw)" unfolding run_once_def by (intro evolves_intros c)
  show "evolves (same w_in_flight) (run_once sw)" unfolding run_once_def by (intro evolves_intros f)
qed

lemma leave_frames: "evolves step_ok (leave vc)" "quiet (leave vc)" "evolves (same w_in_flight) (leave vc)"
proof -
  have h: "evolves step_ok (publish_health vc s)" for s
    unfolding publish_health_def by (rule aside_step_ok) (intro evolves_intros)
  have c: "evolves step_ok (modify (\<lambda>w. w\<lparr>w_connected := False\<rparr>))"
    "quiet (modify (\<lambda>w. w\<lparr>w_connected := False\<rparr>))"
    "evolves (same w_in_flight) (modify (\<lambda>w. w\<lparr>w_connected := False\<rparr>))"
    by (rule evolves_modify, simp add: step_ok_def same_def responses_def)+
  have f: "evolves (same w_in_flight) (publish_health vc s)" for s
  proof (rule evolvesI)
    have a: "aside (publish_health vc s)" unfolding publish_health_def by (intro evolves_intros)
    show "publish_health vc s w = (out, w') \<Longrightarrow> same w_in_flight w w'" for w out w'
      using aside_host [OF a] by (simp add: same_def)
  qed
  have "quiet (bus_publish SVC_HEALTH v b)" for v b
    by (rule quiet_publish) (simp add: is_response_def topic_defs)
  then have "quiet (publish_health vc s)" for s unfolding publish_health_def by (intro evolves_intros)
  then show "quiet (leave vc)" unfolding leave_def by (intro evolves_intros c)
  show "evolves step_ok (leave vc)" "evolves (same w_in_flight) (leave vc)"
    unfolding leave_def by (intro evolves_intros h c f)+
qed

lemma leave_disconnects: "leave vc w = (out, w') \<Longrightarrow> \<not> w_connected w'"
  by (auto simp: leave_def finally_do_def split: prod.splits sum.splits)

section \<open>Any run\<close>

text \<open>What every activity keeps, a run keeps.\<close>

locale live_frame = evolution +
  assumes message_moves: "each_move R (message_task policy m)"
    and consumer_frame: "each_move R (co_consume m)"
    and beat_frame: "evolves R (beat vc)" and fix_frame: "evolves R (on_fix q th fx)"
    and sweep_frame: "evolves R (run_once sw)" and leave_frame: "evolves R (leave vc)"
begin

lemma step_frame:
  assumes "live_step policy sw (p, ts, w) (p', ts', w')" "all_tasks R (p, ts, w)" "consumer_moves R p"
  shows "R w w'"
  using assms(1)
proof (cases rule: live_step.cases)
  case (moves i f t')
  then have "each_move R (Run f)" using assms(2) by (auto simp: all_tasks_def list_all_length)
  with moves moves_RunD show ?thesis by blast
next
  case (consumes f c)
  with assms(3) moves_RunD [of R f w c w'] show ?thesis by simp
qed (auto intro: evo_refl evolvesD [OF beat_frame] evolvesD [OF fix_frame]
    evolvesD [OF sweep_frame] evolvesD [OF leave_frame])

lemma run_frame:
  assumes "live_reach policy sw (Waiting, [], w0) (p, ts, w)"
  shows "R w0 w"
proof -
  have "R w0 (snd (snd s)) \<and> all_tasks R s \<and> consumer_moves R (fst s)"
    if "live_reach policy sw (Waiting, [], w0) s" for s
    using that
  proof (induction rule: live_reach.induct)
    case live_idle
    show ?case by (simp add: evo_refl all_tasks_def moves_Ended)
  next
    case (live_next s s')
    have "R (snd (snd s)) (snd (snd s'))"
      using step_frame [of policy sw "fst s" "fst (snd s)" "snd (snd s)" "fst s'" "fst (snd s')" "snd (snd s')"]
        live_next by simp
    with live_next.IH all_tasks_step [OF live_next.hyps(2) _ message_moves]
      consumer_step [where R = R, OF live_next.hyps(2) _ consumer_frame] show ?case
      by (blast intro: evo_trans)
  qed
  from this [OF assms] show ?thesis by simp
qed

end

lemma step_ok_kept: "evolves step_ok m \<Longrightarrow> evolves (kept db_fine) m"
  by (simp add: evolves_def step_ok_def kept_def db_fine_def)

interpretation kept_store_run: live_frame "kept db_fine"
proof unfold_locales
  show "each_move (kept db_fine) (message_task policy m)" for policy m by (rule kept_store.moves_message)
  have "kept db_fine w w'" if "same around_consumer w w'" for w w'
    using that by (auto simp: kept_def db_fine_def store_ok_def same_def around_consumer_def request_tables_def)
  then show "each_move (kept db_fine) (co_consume m)" for m by (rule consumer_steps)
qed (auto intro: step_ok_kept aside_step_ok beat_frames fix_frames sweep_frames leave_frames)

section \<open>The in-flight count\<close>

definition counted :: "world \<Rightarrow> phase \<times> task list \<times> world \<Rightarrow> bool" where
  "counted w0 s \<longleftrightarrow> (\<exists>ns. list_all2 (\<lambda>n t. n \<le> 1 \<and> holds n t) ns (fst (snd s)) \<and>
     w_in_flight (snd (snd s)) = w_in_flight w0 + int (sum_list ns))"

lemma counted_other: "counted w0 (p, ts, w) \<Longrightarrow> w_in_flight w' = w_in_flight w \<Longrightarrow> counted w0 (p', ts, w')"
  by (simp add: counted_def)

lemma member_le_sum: "i < length ns \<Longrightarrow> ns ! i \<le> sum_list (ns :: nat list)"
  by (simp add: elem_le_sum_list)

lemma counted_move:
  assumes "counted w0 (p, ts, w)" "0 \<le> w_in_flight w0" "i < length ts" "ts ! i = Run f" "f w = (t', w')"
  shows "counted w0 (p, ts[i := t'], w')"
proof -
  obtain ns where ns: "list_all2 (\<lambda>n t. n \<le> 1 \<and> holds n t) ns ts" "w_in_flight w = w_in_flight w0 + int (sum_list ns)"
    using assms(1) by (auto simp: counted_def)
  then have len: "i < length ns" using assms(3) by (simp add: list_all2_lengthD)
  have "holds (ns ! i) (Run f)" using list_all2_nthD2 [OF ns(1) assms(3)] assms(4) by simp
  moreover have "int (ns ! i) \<le> w_in_flight w" using member_le_sum [OF len] ns(2) assms(2) by linarith
  ultimately obtain n' where n': "n' \<le> 1" "holds n' t'" "w_in_flight w' + int (ns ! i) = w_in_flight w + int n'"
    using holds_RunD assms(5) by blast
  have "int (sum_list (ns[i := n'])) + int (ns ! i) = int (sum_list ns) + int n'"
    using member_le_sum [OF len] len by (simp add: sum_list_update)
  moreover have "list_all2 (\<lambda>n t. n \<le> 1 \<and> holds n t) (ns[i := n']) (ts[i := t'])"
    using ns(1) n'(1,2) by (intro list_all2_update_cong) simp_all
  ultimately show ?thesis unfolding counted_def using n'(3) ns(2) by (intro exI [of _ "ns[i := n']"]) simp
qed

lemma counted_reach:
  assumes "live_reach policy sw (Waiting, [], w0) s" "0 \<le> w_in_flight w0"
  shows "counted w0 s \<and> consumer_moves (same w_in_flight) (fst s)"
  using assms(1)
proof (induction rule: live_reach.induct)
  case live_idle
  show ?case by (simp add: counted_def moves_Ended)
next
  case (live_next s s')
  have "same w_in_flight w w'" if "same around_consumer w w'" for w w'
    using that by (simp add: same_def around_consumer_def)
  then have around: "each_move (same w_in_flight) (co_consume m)" for m by (rule consumer_steps)
  from live_next.hyps(2) have "counted w0 s'"
  proof (cases rule: live_step.cases)
    case (request_message m ts w)
    with live_next.IH obtain ns where "list_all2 (\<lambda>n t. n \<le> 1 \<and> holds n t) ns ts"
        "w_in_flight w = w_in_flight w0 + int (sum_list ns)"
      by (auto simp: counted_def)
    with request_message holds_message [of policy m] show ?thesis
      unfolding counted_def by (intro exI [of _ "ns @ [0]"]) (simp add: list_all2_appendI)
  next
    case (consumes f w c w' ts)
    with live_next.IH moves_same [of w_in_flight f w c w'] show ?thesis
      by (auto intro: counted_other)
  next
    case (moves p i ts f w t' w')
    with live_next.IH counted_move [OF _ assms(2)] show ?thesis by blast
  next
    case (beats p vc w out w' ts)
    with live_next.IH evolves_sameD [OF flat_aside [OF beat_frames(1)]] show ?thesis by (auto intro: counted_other)
  next
    case (gps p q th fx w out w' ts)
    with live_next.IH evolves_sameD [OF flat_aside [OF fix_frames(1)]] show ?thesis by (auto intro: counted_other)
  next
    case (sweeps p w out w' ts)
    with live_next.IH evolves_sameD [OF sweep_frames(4)] show ?thesis by (auto intro: counted_other)
  next
    case (leaves p vc w out w' ts)
    with live_next.IH evolves_sameD [OF leave_frames(3)] show ?thesis by (auto intro: counted_other)
  qed (use live_next.IH in \<open>auto intro: counted_other\<close>)
  with consumer_step [where R = "same w_in_flight", OF live_next.hyps(2) _ around] live_next.IH show ?case by blast
qed

lemma counted_bounds:
  assumes "counted w0 (p, ts, w)"
  shows "w_in_flight w0 \<le> w_in_flight w" "w_in_flight w \<le> w_in_flight w0 + int (length ts)"
    and "(\<And>t. t \<in> set ts \<Longrightarrow> \<exists>out. t = Ended out) \<Longrightarrow> w_in_flight w = w_in_flight w0"
proof -
  obtain ns where ns: "list_all2 (\<lambda>n t. n \<le> 1 \<and> holds n t) ns ts" "w_in_flight w = w_in_flight w0 + int (sum_list ns)"
    using assms by (auto simp: counted_def)
  have "sum_list ns \<le> length ts" using ns(1) by (induction rule: list_all2_induct) auto
  with ns(2) show "w_in_flight w0 \<le> w_in_flight w" "w_in_flight w \<le> w_in_flight w0 + int (length ts)" by simp_all
  assume ended: "\<And>t. t \<in> set ts \<Longrightarrow> \<exists>out. t = Ended out"
  have "n = 0" if "n \<in> set ns" for n
  proof -
    obtain i where "i < length ns" "n = ns ! i" using \<open>n \<in> set ns\<close> by (auto simp: in_set_conv_nth)
    then have "holds n (ts ! i)" "ts ! i \<in> set ts" using ns(1) by (auto simp: list_all2_conv_all_nth)
    with ended show ?thesis by (metis holds_EndedE)
  qed
  then have "sum_list ns = 0" by simp
  with ns(2) show "w_in_flight w = w_in_flight w0" by simp
qed

section \<open>Responses\<close>

lemma message_speaks_once: "spends answered anything (Suc 0) (message_task policy m)"
proof -
  have emit: "spends answered anything (Suc 0) (refusal_task err)" for err
    unfolding refusal_task_def
  proof (rule spends_step)
    fix w out w'
    assume "catch_exception (service_emit (p_to err) err) (ret ()) w = (out, w')"
    then have "added_at_most 1 w w'"
      using evolvesD [OF added_catch [OF emit_added same.evolves_ret]] by blast
    then show "\<exists>d j. answered w' \<le> answered w + d \<and> d + j \<le> Suc 0 \<and> True = True \<and>
        spends answered anything j (Ended out)"
      by (intro exI [of _ 1] exI [of _ 0]) (simp add: added_at_most_def spends_Ended)
  qed
  show ?thesis
    unfolding message_task_def
  proof (rule spends_step)
    fix w out and w' :: world
    let ?env = "\<lambda>h. inbound_to_request (h_lax_int h) (h_float_repr h) (in_topic m) (in_json m)"
    assume "andthen (gets w_host) (\<lambda>h. lift (?env h)) w = (out, w')"
    then have out: "out = ?env (w_host w)" "w' = w" by (auto simp: andthen_def gets_def lift_def split: sum.splits)
    have "spends answered anything (Suc 0) (case out of
        Inl e \<Rightarrow> Ended (Inl e)
      | Inr env \<Rightarrow> (case env_request env of
          None \<Rightarrow> (case env_error env of None \<Rightarrow> Ended (Inr ()) | Some err \<Rightarrow> refusal_task err)
        | Some r \<Rightarrow> service_task policy r))"
    proof (cases out)
      case (Inr env)
      show ?thesis
      proof (cases "env_request env")
        case (Some r)
        have "?env (w_host w) = Inr env" using out Inr by simp
        then have "q_from r \<noteq> []"
          using Some
          by (cases rule: inbound_cases) (auto simp: well_formed_request_def dest!: validate_request_well_formed)
        with Inr Some request_speaks_once [of r policy] show ?thesis by simp
      qed (use Inr emit in \<open>auto intro: spends_Ended split: option.split\<close>)
    qed (simp add: spends_Ended)
    with out show "\<exists>d j. answered w' \<le> answered w + d \<and> d + j \<le> Suc 0 \<and> True = True \<and>
        spends answered anything j (case out of
            Inl e \<Rightarrow> Ended (Inl e)
          | Inr env \<Rightarrow> (case env_request env of
              None \<Rightarrow> (case env_error env of None \<Rightarrow> Ended (Inr ()) | Some err \<Rightarrow> refusal_task err)
            | Some r \<Rightarrow> service_task policy r))"
      by (intro exI [of _ 0] exI [of _ "Suc 0"]) simp
  qed
qed

lemma quiet_step: "quiet m \<Longrightarrow> m w = (out, w') \<Longrightarrow> responses w' = responses w"
  by (rule evolves_sameD)

lemma live_speaks:
  assumes "live_reach policy sw (Waiting, [], w0) s"
  shows "within_budget answered anything (\<lambda>t. False) (answered w0 + length (fst (snd s))) (snd s) \<and>
     consumer_moves (same responses) (fst s)"
  using assms
proof (induction rule: live_reach.induct)
  case live_idle
  show ?case by (simp add: within_budget_def moves_Ended)
next
  case (live_next s s')
  have "same responses w w'" if "same around_consumer w w'" for w w'
    using that by (simp add: same_def around_consumer_def)
  then have around: "each_move (same responses) (co_consume m)" for m by (rule consumer_steps)
  have keep: "within_budget answered anything (\<lambda>t. False) n (ts, w')"
    if "within_budget answered anything (\<lambda>t. False) n (ts, w)" "answered w' \<le> answered w" for n ts and w w' :: world
    using that unfolding within_budget_def by (auto intro: order_trans)
  from live_next.hyps(2)
  have "within_budget answered anything (\<lambda>t. False) (answered w0 + length (fst (snd s'))) (snd s')"
  proof (cases rule: live_step.cases)
    case (request_message m ts w)
    with budget_arrive [of answered anything "\<lambda>t. False" _ ts w "Suc 0", OF _ disjI1 [OF message_speaks_once]]
      live_next.IH show ?thesis by simp
  next
    case (other_message m ts w)
    with live_next.IH show ?thesis by simp
  next
    case (consumes f w c w' ts)
    with live_next.IH moves_same [of responses f w c w'] show ?thesis
      by (auto intro!: keep [of _ _ w])
  next
    case (fails e ts w)
    with live_next.IH show ?thesis by simp
  next
    case (beats p vc w out w' ts)
    with quiet_step [OF beat_frames(2)] live_next.IH show ?thesis by (auto intro!: keep [of _ _ w])
  next
    case (gps p q th fx w out w' ts)
    with quiet_step [OF fix_frames(2)] live_next.IH show ?thesis by (auto intro!: keep [of _ _ w])
  next
    case (sweeps p w out w' ts)
    with quiet_step [OF sweep_frames(2)] live_next.IH show ?thesis by (auto intro!: keep [of _ _ w])
  next
    case (moves p i ts f w t' w')
    with budget_move [of answered anything "\<lambda>t. False" _ ts w i f t' w'] live_next.IH show ?thesis by simp
  next
    case (leaves p vc w out w' ts)
    with quiet_step [OF leave_frames(2)] live_next.IH show ?thesis by (auto intro!: keep [of _ _ w])
  next
    case (closes ts w)
    with live_next.IH show ?thesis by simp
  qed
  with consumer_step [where R = "same responses", OF live_next.hyps(2) _ around] live_next.IH show ?case by blast
qed

section \<open>After the connection is closed\<close>

definition silent :: "world \<Rightarrow> phase \<times> task list \<times> world \<Rightarrow> bool" where
  "silent w0 s \<longleftrightarrow> fst s \<in> {Draining, Closed} \<and> \<not> w_connected (snd (snd s)) \<and>
     responses (snd (snd s)) = responses w0 \<and> all_tasks muted s"

lemma silent_step: "live_step policy sw s s' \<Longrightarrow> silent w0 s \<Longrightarrow> silent w0 s'"
proof -
  assume step: "live_step policy sw s s'" and s: "silent w0 s"
  have tasks: "all_tasks muted s'"
    using all_tasks_step [OF step _ muted.moves_message] s by (simp add: silent_def)
  from step show ?thesis
  proof (cases rule: live_step.cases)
    case (moves p i ts f w t' w')
    then have "each_move muted (Run f)" using s by (auto simp: silent_def all_tasks_def list_all_length)
    then have "muted w w'" using moves(6) moves_RunD [of muted f w t' w'] by blast
    with s tasks moves show ?thesis by (simp add: silent_def muted_def)
  qed (use s tasks in \<open>auto simp: silent_def\<close>)
qed

lemma silent_reach: "live_reach policy sw s0 s \<Longrightarrow> silent w0 s0 \<Longrightarrow> silent w0 s"
  by (induction rule: live_reach.induct) (auto intro: silent_step)

lemma draining_disconnected:
  assumes "live_reach policy sw (Waiting, [], w0) s" "fst s = Draining"
  shows "silent (snd (snd s)) s"
proof -
  have "(fst s \<in> {Draining, Closed} \<longrightarrow> \<not> w_connected (snd (snd s))) \<and> all_tasks muted s"
    if "live_reach policy sw (Waiting, [], w0) s" for s
    using that
  proof (induction rule: live_reach.induct)
    case live_idle
    show ?case by (simp add: all_tasks_def)
  next
    case (live_next s s')
    have tasks: "all_tasks muted s'"
      using all_tasks_step [OF live_next.hyps(2) _ muted.moves_message] live_next.IH by simp
    from live_next.hyps(2) have "fst s' \<in> {Draining, Closed} \<longrightarrow> \<not> w_connected (snd (snd s'))"
    proof (cases rule: live_step.cases)
      case (moves p i ts f w t' w')
      then have "each_move muted (Run f)" using live_next.IH by (auto simp: all_tasks_def list_all_length)
      then have "muted w w'" using moves(6) moves_RunD [of muted f w t' w'] by blast
      with live_next.IH moves show ?thesis by (auto simp: muted_def)
    qed (use live_next.IH in \<open>auto simp: leave_disconnects split: if_splits\<close>)
    with tasks show ?case by blast
  qed
  from this [OF assms(1)] assms(2) show ?thesis by (simp add: silent_def)
qed

section \<open>One task after the other\<close>

lemma live_trans: "live_reach policy sw s1 s2 \<Longrightarrow> live_reach policy sw s2 s3 \<Longrightarrow> live_reach policy sw s1 s3"
  by (rotate_tac, induction rule: live_reach.induct) (auto intro: live_reach.intros)

lemma run_alone:
  "run_task t w = (out, w') \<Longrightarrow> p \<noteq> Closed \<Longrightarrow>
     live_reach policy sw (p, ts @ [t], w) (p, ts @ [Ended out], w')"
proof (induction t arbitrary: w)
  case (Ended x)
  then show ?case by (simp add: live_idle)
next
  case (Run f)
  obtain t' v where v: "f w = (t', v)" by (cases "f w")
  then have run: "run_task t' v = (out, w')" using Run.prems by simp
  have "live_step policy sw (p, ts @ [Run f], w) (p, (ts @ [Run f])[length ts := t'], v)"
    by (rule moves [where f = f]) (use Run.prems v in simp_all)
  then have step: "live_step policy sw (p, ts @ [Run f], w) (p, ts @ [t'], v)" by simp
  have rest: "live_reach policy sw (p, ts @ [t'], v) (p, ts @ [Ended out], w')"
    by (rule Run.IH [OF rangeI [of f w] _ run Run.prems(2)]) (simp add: v prod_set_simps)
  from live_trans [OF live_next [OF live_idle step] rest] show ?case .
qed

lemma consumer_alone:
  "co_run c w = (out, w') \<Longrightarrow> live_reach policy sw (Serving c, ts, w) (Serving (Ended out), ts, w')"
proof (induction c arbitrary: w)
  case (Ended x)
  then show ?case by (simp add: live_idle)
next
  case (Run f)
  obtain c v where c: "f w = (c, v)" by (cases "f w")
  then have run: "co_run c v = (out, w')" using Run.prems by simp
  have rest: "live_reach policy sw (Serving c, ts, v) (Serving (Ended out), ts, w')"
    by (rule Run.IH [OF rangeI [of f w] _ run]) (simp add: c prod_set_simps)
  from live_trans [OF live_next [OF live_idle consumes [of f, OF c]] rest] show ?case .
qed

lemma consume_live:
  assumes "consume policy m w = (Inr (), w')"
  shows "\<exists>ts'. live_reach policy sw (Waiting, ts, w) (Waiting, ts @ ts', w') \<and>
     length ts' = (if in_topic m = RPC_REQUEST then 1 else 0) \<and> (\<forall>t \<in> set ts'. \<exists>out. t = Ended out)"
proof (cases "in_topic m = RPC_REQUEST")
  case True
  then have "spawn (handle_one policy (in_topic m) (in_json m)) w = (Inr (), w')"
    using assms by (simp add: consume_def maybe_cache_def topic_defs)
  then obtain out where "handle_one policy (in_topic m) (in_json m) w = (out, w')"
    by (auto simp: spawn_def catch_exception_def catch_def ret_def split: prod.splits sum.splits if_splits)
  then have "live_reach policy sw (Waiting, ts @ [message_task policy m], w) (Waiting, ts @ [Ended out], w')"
    by (intro run_alone) (simp_all add: run_message_task)
  with True show ?thesis
    by (intro exI [of _ "[Ended out]"])
      (auto intro: live_trans [OF live_next [OF live_idle request_message [OF True]]])
next
  case False
  then have "co_run (co_consume m) w = (Inr (), w')" using assms co_run_consume [where m = m and policy = policy] by simp
  from consumer_alone [OF this, of policy sw ts] have
      "live_reach policy sw (Serving (co_consume m), ts, w) (Waiting, ts, w')" by simp
  from live_trans [OF live_next [OF live_idle other_message [OF False]] this] show ?thesis
    using False by (intro exI [of _ "[]"]) auto
qed

lemma consume_loop_live:
  "consume_loop policy ms w = (Inr (), w') \<Longrightarrow>
   \<exists>ts'. live_reach policy sw (Waiting, ts, w) (Waiting, ts @ ts', w') \<and>
     length ts' = length (filter (\<lambda>m. in_topic m = RPC_REQUEST) ms) \<and> (\<forall>t \<in> set ts'. \<exists>out. t = Ended out)"
proof (induction ms arbitrary: w ts)
  case Nil
  then show ?case by (intro exI [of _ "[]"]) (simp add: live_idle)
next
  case (Cons m ms)
  from Cons.prems obtain v where v: "consume policy m w = (Inr (), v)" "consume_loop policy ms v = (Inr (), w')"
    by (auto elim: andthenE)
  from consume_live [OF v(1), of sw ts] obtain us where
      us: "live_reach policy sw (Waiting, ts, w) (Waiting, ts @ us, v)"
      "length us = (if in_topic m = RPC_REQUEST then 1 else 0)" "\<forall>t \<in> set us. \<exists>out. t = Ended out"
    by blast
  from Cons.IH [OF v(2), of "ts @ us"] obtain vs where
      vs: "live_reach policy sw (Waiting, ts @ us, v) (Waiting, (ts @ us) @ vs, w')"
      "length vs = length (filter (\<lambda>m. in_topic m = RPC_REQUEST) ms)" "\<forall>t \<in> set vs. \<exists>out. t = Ended out"
    by blast
  from live_trans [OF us(1) vs(1)] us(2,3) vs(2,3) show ?case
    by (intro exI [of _ "us @ vs"]) auto
qed

section \<open>Properties\<close>

text \<open>
  C6. While the service runs, in whatever order messages, tasks, heartbeats, sweeps, GPS fixes and the
  shutdown come, wherever tasks are suspended and whatever fails, the request tables keep their
  invariant (one row per key, a row is completed exactly when it has a known final state, known event
  states), and the in-flight counter has counted each task at most once and none that has ended: it
  is back where it was whenever all tasks have ended.
\<close>

theorem live_store_invariant:
  assumes "live_reach policy sw (Waiting, [], w0) (p, ts, w)" "store_ok (w_db w0)" "0 \<le> w_in_flight w0"
  shows "store_ok (w_db w) \<and> w_in_flight w0 \<le> w_in_flight w \<and> w_in_flight w \<le> w_in_flight w0 + int (length ts) \<and>
     ((\<forall>t \<in> set ts. \<exists>out. t = Ended out) \<longrightarrow> w_in_flight w = w_in_flight w0)"
proof (intro conjI impI)
  show "store_ok (w_db w)"
    using kept_store_run.run_frame [OF assms(1)] assms(2) by (simp add: kept_def db_fine_def)
  have c: "counted w0 (p, ts, w)" using counted_reach [OF assms(1,3)] by blast
  show "w_in_flight w0 \<le> w_in_flight w" "w_in_flight w \<le> w_in_flight w0 + int (length ts)"
    using counted_bounds(1,2) [OF c] .
  show "w_in_flight w = w_in_flight w0" if "\<forall>t \<in> set ts. \<exists>out. t = Ended out"
    using counted_bounds(3) [OF c] that by blast
qed

text \<open>
  C9. The running service never puts more messages on the response topics than messages have come on
  the request topic (each of them has started one task), and the other activities none.
\<close>

theorem live_responses_bounded:
  assumes "live_reach policy sw (Waiting, [], w0) (p, ts, w)"
  shows "length (responses w) \<le> length (responses w0) + length ts"
  using within_budget_bound [OF conjunct1 [OF live_speaks [OF assms]]] by simp

text \<open>
  The model that takes one message at a time is one of the schedules: whenever the sequential
  consume loop gets through a list of messages, the running service can reach the same state, with
  one task per request message, all of them ended.
\<close>

lemma sequential_loop_is_schedule:
  assumes "consume_loop policy ms w = (Inr (), w')"
  shows "\<exists>ts. live_reach policy sw (Waiting, [], w) (Waiting, ts, w') \<and>
     length ts = length (filter (\<lambda>m. in_topic m = RPC_REQUEST) ms) \<and> (\<forall>t \<in> set ts. \<exists>out. t = Ended out)"
  using consume_loop_live [OF assms, of sw "[]"] by simp

text \<open>
  C10. A shutdown waits for the open request tasks, but only after it has closed the connection: from
  that point on no response goes out, whatever the tasks still do.
\<close>

theorem nothing_answered_after_shutdown:
  assumes "live_reach policy sw (Waiting, [], w0) (Draining, ts, w)"
    and "live_reach policy sw (Draining, ts, w) (p, ts', w')"
  shows "responses w' = responses w \<and> \<not> w_connected w' \<and> p \<in> {Draining, Closed}"
  using silent_reach [OF assms(2)] draining_disconnected [OF assms(1)] by (simp add: silent_def)

text \<open>
  C11. What becomes of a request whose task has not begun when the service shuts down: it is carried out
  and recorded with the final state, error code and response of its outcome (completed_ok when its
  handler succeeds), but nothing is published.
\<close>

theorem late_request_recorded_not_sent:
  assumes "\<not> w_connected w" "healthy w" "q_from r \<noteq> []" "\<not> has_request (w_db w) (q_from r) (q_id r)"
    and "fits64 (resolve_ttl policy (q_type r) (q_ttl r))"
  shows "\<exists>w' out. run_task (service_task policy r) w = (Inr (), w') \<and>
     outcome_of DEFAULT_HANDLERS r (resolve_ttl policy (q_type r) (q_ttl r)) out \<and>
     carried_out r (resolve_ttl policy (q_type r) (q_ttl r)) out False w w'"
proof -
  from dflt.process_fresh [OF assms(2,3,5,4) refl] obtain w' out pub where
      run: "run_task (service_task policy r) w = (Inr (), w')"
      and out: "outcome_of DEFAULT_HANDLERS r (resolve_ttl policy (q_type r) (q_ttl r)) out"
      and c: "carried_out r (resolve_ttl policy (q_type r) (q_ttl r)) out pub w w'"
    by (auto simp: run_default_task)
  have "silent w (Draining, [] @ [service_task policy r], w)"
    using assms(1) by (simp add: silent_def all_tasks_def muted.moves_request)
  with silent_reach [OF run_alone [OF run, of Draining policy undefined "[]"]] have "responses w' = responses w"
    by (simp add: silent_def)
  with c have "\<not> pub" by (auto simp: carried_out_def)
  with run out c show ?thesis by auto
qed

section \<open>Witnesses\<close>

definition daily_sweeper :: sweeper where
  "daily_sweeper = \<lparr>sw_days = 30, sw_interval_s = Flt (Fin 3600)\<rparr>"

definition request_message_of :: "request \<Rightarrow> inbound" where
  "request_message_of r = \<lparr>in_topic = RPC_REQUEST, in_empty = False, in_json = Inr (request_dump r)\<rparr>"

text \<open>A request arrives, and the service leaves.\<close>

lemma sample_shutdown:
  "\<exists>w. live_reach default_policy daily_sweeper (Waiting, [], sample_world)
     (Draining, [message_task default_policy (request_message_of sample_request)], w)"
proof -
  obtain out w where "leave None sample_world = (out, w)" by (cases "leave None sample_world")
  then have "live_step default_policy daily_sweeper
      (Waiting, [message_task default_policy (request_message_of sample_request)], sample_world)
      (Draining, [message_task default_policy (request_message_of sample_request)], w)"
    by (intro leaves) simp_all
  moreover have "live_step default_policy daily_sweeper (Waiting, [], sample_world)
      (Waiting, [] @ [message_task default_policy (request_message_of sample_request)], sample_world)"
    by (rule request_message) (simp add: request_message_of_def)
  ultimately show ?thesis by (metis append_Nil live_idle live_next)
qed

theorem live_store_invariant_witness:
  "\<exists>ts w. live_reach default_policy daily_sweeper (Waiting, [], sample_world) (Draining, ts, w) \<and>
     length ts = 1 \<and> store_ok (w_db w)"
proof -
  obtain w where w: "live_reach default_policy daily_sweeper (Waiting, [], sample_world)
     (Draining, [message_task default_policy (request_message_of sample_request)], w)"
    using sample_shutdown by blast
  moreover have "store_ok (w_db sample_world)" "0 \<le> w_in_flight sample_world"
    by (simp_all add: sample_world_def)
  ultimately have "store_ok (w_db w)" using live_store_invariant by blast
  with w show ?thesis by (intro exI conjI) (assumption, simp_all)
qed

theorem live_responses_bounded_witness:
  "\<exists>ts w. live_reach default_policy daily_sweeper (Waiting, [], sample_world) (Draining, ts, w) \<and>
     length ts = 1 \<and> length (responses w) \<le> 1"
proof -
  obtain w where w: "live_reach default_policy daily_sweeper (Waiting, [], sample_world)
     (Draining, [message_task default_policy (request_message_of sample_request)], w)"
    using sample_shutdown by blast
  from live_responses_bounded [OF w] have "length (responses w) \<le> 1"
    by (simp add: responses_def sample_world_def)
  with w show ?thesis by (intro exI conjI) (assumption, simp_all)
qed

theorem nothing_answered_after_shutdown_witness:
  "\<exists>ts w ts' w'. live_reach default_policy daily_sweeper (Waiting, [], sample_world) (Draining, ts, w) \<and>
     live_reach default_policy daily_sweeper (Draining, ts, w) (Draining, ts', w') \<and>
     (\<forall>t \<in> set ts'. \<exists>out. t = Ended out) \<and> length ts' = 1 \<and> responses w' = responses w"
proof -
  let ?t = "message_task default_policy (request_message_of sample_request)"
  obtain w where w: "live_reach default_policy daily_sweeper (Waiting, [], sample_world) (Draining, [?t], w)"
    using sample_shutdown by blast
  obtain out w' where "run_task ?t w = (out, w')" by (cases "run_task ?t w")
  from run_alone [OF this, of Draining default_policy daily_sweeper "[]"] have
      w': "live_reach default_policy daily_sweeper (Draining, [?t], w) (Draining, [Ended out], w')" by simp
  from nothing_answered_after_shutdown [OF w w'] w w' show ?thesis
    by (intro exI conjI) (assumption, assumption, simp_all)
qed

lemma sequential_loop_is_schedule_witness:
  "\<exists>ts w. live_reach default_policy daily_sweeper (Waiting, [], sample_world) (Waiting, ts, w) \<and>
     length ts = 1 \<and> (\<forall>t \<in> set ts. \<exists>out. t = Ended out)"
proof -
  let ?ms = "[\<lparr>in_topic = RPC_REQUEST, in_empty = False, in_json = Inl JSONDecodeError\<rparr>]"
  have "consume_loop default_policy ?ms sample_world = (Inr (), sample_world)"
    by (simp add: consume_def maybe_cache_def spawn_def handle_one_def inbound_to_request_def
        catch_exception_def catch_def andthen_def topic_defs)
  from sequential_loop_is_schedule [OF this, of daily_sweeper] show ?thesis by auto
qed

theorem late_request_recorded_not_sent_witness:
  "\<exists>w' out. run_task (service_task default_policy sample_request) (sample_world\<lparr>w_connected := False\<rparr>) = (Inr (), w') \<and>
     outcome_of DEFAULT_HANDLERS sample_request 30 out \<and>
     carried_out sample_request 30 out False (sample_world\<lparr>w_connected := False\<rparr>) w'"
proof -
  have ttl: "resolve_ttl default_policy (q_type sample_request) (q_ttl sample_request) = 30"
    by (simp add: resolve_ttl_def default_policy_def)
  show ?thesis
    using late_request_recorded_not_sent [of "sample_world\<lparr>w_connected := False\<rparr>" sample_request default_policy]
    unfolding ttl
    by (simp add: healthy_def sample_world_def sample_host_def has_request_def empty_store_def fits64_def)
qed

end
