(* ===== verification/Calm.thy ===== *)
theory Calm
  imports ServiceProps
begin

text \<open>
  What everything the service does leaves alone: the connection, the host, and the absence of a
  pending cancellation. Without one, nothing the event routes run raises \<open>Cancelled\<close>.
\<close>

definition steady :: "host \<Rightarrow> world \<Rightarrow> bool" where
  "steady h w \<longleftrightarrow> w_host w = h \<and> w_connected w \<and> w_budget w = None"

abbreviation keeps :: "host \<Rightarrow> (world, 'a) prog \<Rightarrow> bool" where
  "keeps h m \<equiv> evolves (kept (steady h)) m"

lemma keeps_store_call [evolves_intros]: "keeps h (store_call f)"
  by (rule evolvesI)
    (auto simp: kept_def steady_def store_call_def Let_def split: if_splits sum.splits)

lemma keeps_publish [evolves_intros]: "keeps h (bus_publish t p b)"
  by (rule evolvesI) (auto simp: kept_def steady_def bus_publish_def Let_def split: if_splits)

lemma keeps_time [evolves_intros]: "keeps h time_time"
  by (rule evolves_time_time) (simp add: kept_def steady_def)

lemma keeps_radio [evolves_intros]: "keeps h (note_radio n r s t)"
  unfolding note_radio_def
  by (rule evolves_modify) (auto simp: kept_def steady_def split: pyval.split)

lemma keeps_cache_update [evolves_intros]: "keeps h (modify (\<lambda>w. w\<lparr>w_gateway := g\<rparr>))"
  by (rule evolves_modify) (simp add: kept_def steady_def)

lemma keeps_store_api [evolves_intros]:
  "keeps h (record_received r ttl)" "keeps h (record_event i n s dt)"
  "keeps h (record_completion i n f p e)" "keeps h (mark_node_seen v t)" "keeps h (get_last_seen v)"
  "keeps h (record_gateway_snapshot a b c)" "keeps h (upsert_node_location v fx src ri sr)"
  "keeps h (get_node_location v)" "keeps h (upsert_node_battery v ts pc vo so)"
  "keeps h (get_node_battery v)" "keeps h (upsert_base_state k val)" "keeps h (get_base_state k)"
  "keeps h (purge_before cutoff)"
  unfolding store_api_defs store_query_def by (rule keeps_store_call)+

lemma keeps_aggregator [evolves_intros]:
  "keeps h (get_node_state v)" "keeps h (republish_state v)" "keeps h (apply_seen v t r s)"
  "keeps h (apply_battery v ts p vo so)" "keeps h (apply_base_location fx src)"
  unfolding get_node_state_def republish_state_def apply_seen_def apply_battery_def
    apply_base_location_def
  by (intro evolves_intros)+

lemma keeps_emit [evolves_intros]: "keeps h (service_emit n p)"
  unfolding service_emit_def by (intro evolves_intros)

lemma keeps_run_with_timeout:
  assumes "handler_ok g"
  shows "keeps h (run_with_timeout (g r) ttl)"
proof (rule evolvesI)
  fix w res w'
  assume run: "run_with_timeout (g r) ttl w = (res, w')"
  let ?u = "w\<lparr>w_in_flight := w_in_flight w + 1, w_tick := Suc (w_tick w),
      w_budget := h_cut (w_host w) (w_tick w) ttl\<rparr>"
  obtain res' v where v: "g r ?u = (res', v)" by (cases "g r ?u")
  have "aside (g r)" using assms by (simp add: handler_ok_def)
  from aside_host [OF this v] run show "kept (steady h) w w'"
    by (auto simp: run_with_timeout_def inc_in_flight_def dec_in_flight_def finally_do_def
        wait_for_def v kept_def steady_def)
qed

lemma keeps_process [evolves_intros]:
  "keeps h (process_request DEFAULT_HANDLERS service_emit policy r)"
proof -
  have p: "keeps h (publish_and_finalize service_emit r p f e)" for p f e
    unfolding publish_and_finalize_def by (intro evolves_intros)
  have e: "keeps h (emit_error_final service_emit r c m)" for c m
    unfolding emit_error_final_def by (rule p)
  have f: "keeps h (finish service_emit r ttl out)" for ttl out
    unfolding finish_def by (auto split: sum.split exn.split intro!: evolves_intros p e)
  have run: "keeps h (run_fresh DEFAULT_HANDLERS service_emit ttl r)" for ttl
  proof (cases "resolve DEFAULT_HANDLERS (q_type r)")
    case None
    then show ?thesis unfolding run_fresh_def by simp (intro evolves_intros e)
  next
    case (Some g)
    from Some keeps_run_with_timeout [OF resolve_default [OF Some]] show ?thesis
      unfolding run_fresh_def by simp (intro evolves_intros f)
  qed
  show ?thesis
    unfolding process_request_def by (intro evolves_intros e run)
qed

lemma keeps_handle_one [evolves_intros]: "keeps h (handle_one policy t p)"
  unfolding handle_one_def by (intro evolves_intros)

lemma keeps_or_now [evolves_intros]: "keeps h (or_now v)"
  unfolding or_now_def by (intro evolves_intros)

lemma keeps_route [evolves_intros]: "keeps h (route_event t p)"
  unfolding route_event_def handle_battery_event_def handle_telemetry_event_def
  by (intro evolves_intros)

lemma keeps_consume [evolves_intros]: "keeps h (consume policy m)"
  unfolding consume_def maybe_cache_def spawn_def by (intro evolves_intros)

lemma keeps_consume_loop [evolves_intros]: "keeps h (consume_loop policy ms)"
  by (induction ms) (simp_all only: consume_loop.simps evolves_intros)

section \<open>Nothing is cancelled\<close>

text \<open>
  \<open>Cancelled\<close> comes from the time limit alone: the expressions and the database operations raise
  ordinary exceptions, and a program without a pending cancellation stays without one.
\<close>

definition ordinary :: "exn + 'a \<Rightarrow> bool" where
  "ordinary r \<longleftrightarrow> r \<noteq> Inl Cancelled"

lemma ordinary_simps [simp]: "ordinary (Inr x)" "ordinary (Inl e) \<longleftrightarrow> e \<noteq> Cancelled"
  by (simp_all add: ordinary_def)

lemma ordinary_ebind: "ordinary m \<Longrightarrow> (\<And>x. ordinary (f x)) \<Longrightarrow> ordinary (ebind m f)"
  by (cases m) auto

lemma ordinary_numbers [simp]:
  "ordinary (float_of_int n)" "ordinary (int_of_float f)"
  by (simp add: float_of_int_def) (cases f rule: int_of_float.cases; simp)

lemma ordinary_values [simp]: "ordinary (as_float v)" "ordinary (int_of v)" "ordinary (float_of_str s)"
proof -
  show "ordinary (as_float v)" by (cases v) simp_all
  show "ordinary (int_of v)" by (cases v) simp_all
  show "ordinary (float_of_str s)" by (simp add: float_of_str_def Let_def split: prod.split option.split)
qed

lemma ordinary_age [simp]: "ordinary (age_s now v)"
  unfolding age_s_def by (intro ordinary_ebind) simp_all

lemma ordinary_bind [simp]: "ordinary (bind_val v)"
  by (cases v rule: bind_val.cases) simp_all

lemma bind_key_Inl: "bind_key st v = Inl e \<Longrightarrow> e \<noteq> Cancelled"
  using ordinary_bind [of v] by (auto simp: bind_key_def ordinary_def split: sum.splits)

lemma bind_val_Inl: "bind_val v = Inl e \<Longrightarrow> e \<noteq> Cancelled"
  using ordinary_bind [of v] by (auto simp: ordinary_def)

lemma float_of_sql_Inl: "float_of_sql v = Inl e \<Longrightarrow> e \<noteq> Cancelled"
  using ordinary_numbers(1) ordinary_values(3)
  by (cases v) (auto simp: ordinary_def)

lemma ordinary_store [simp]:
  "ordinary (sync_mark_node_seen st v t d)" "ordinary (sync_get_last_seen st v d)"
  "ordinary (sync_get_node_location st v d)" "ordinary (sync_get_node_battery st v d)"
  "ordinary (sync_upsert_node_battery st v ts p vo so d)"
  unfolding sync_mark_node_seen_def sync_get_last_seen_def sync_get_node_location_def
    sync_get_node_battery_def sync_upsert_node_battery_def
  by (auto simp: Let_def split: sum.split option.split
      dest: bind_key_Inl bind_val_Inl float_of_sql_Inl)

definition calm :: "(world, 'a) prog \<Rightarrow> bool" where
  "calm m \<longleftrightarrow> (\<forall>w r w'. m w = (r, w') \<longrightarrow> w_budget w = None \<longrightarrow> ordinary r \<and> w_budget w' = None)"

lemma calmD: "calm m \<Longrightarrow> m w = (r, w') \<Longrightarrow> w_budget w = None \<Longrightarrow> ordinary r \<and> w_budget w' = None"
  by (simp add: calm_def)

lemma calmI:
  "(\<And>w r w'. m w = (r, w') \<Longrightarrow> w_budget w = None \<Longrightarrow> ordinary r \<and> w_budget w' = None) \<Longrightarrow> calm m"
  by (simp add: calm_def)

named_theorems calm_intros

lemma calm_ret [calm_intros]: "calm (ret x)"
  by (simp add: calm_def)

lemma calm_raise: "e \<noteq> Cancelled \<Longrightarrow> calm (raise e)"
  by (simp add: calm_def)

lemma calm_gets [calm_intros]: "calm (gets f)"
  by (simp add: calm_def)

lemma calm_lift [calm_intros]: "ordinary r \<Longrightarrow> calm (lift r)"
  by (simp add: calm_def)

lemma calm_andthen [calm_intros]: "calm m \<Longrightarrow> (\<And>x. calm (f x)) \<Longrightarrow> calm (andthen m f)"
proof (rule calmI)
  fix w r w'
  assume m: "calm m" "\<And>x. calm (f x)" and run: "andthen m f w = (r, w')" and w: "w_budget w = None"
  from run show "ordinary r \<and> w_budget w' = None"
  proof (cases rule: andthenE)
    case (fails e)
    with calmD [OF m(1) fails(1) w] show ?thesis by simp
  next
    case (goes x v)
    with calmD [OF m(1) goes(1) w] calmD [OF m(2) goes(2)] show ?thesis by simp
  qed
qed

lemma calm_catch_exception [calm_intros]: "calm m \<Longrightarrow> calm h \<Longrightarrow> calm (catch_exception m h)"
proof (rule calmI)
  fix w r w'
  assume m: "calm m" "calm h" and run: "catch_exception m h w = (r, w')" and w: "w_budget w = None"
  from run show "ordinary r \<and> w_budget w' = None"
  proof (cases rule: catch_exception_cases)
    case (1 x)
    with calmD [OF m(1) 1(1) w] show ?thesis by simp
  next
    case 2
    with calmD [OF m(1) 2(1) w] show ?thesis by simp
  next
    case (3 e v)
    with calmD [OF m(1) 3(1) w] calmD [OF m(2) 3(3)] show ?thesis by simp
  qed
qed

lemma calm_if [calm_intros]: "calm m \<Longrightarrow> calm n \<Longrightarrow> calm (if b then m else n)"
  by simp

lemma calm_case_option [calm_intros]:
  "calm m \<Longrightarrow> (\<And>x. calm (f x)) \<Longrightarrow> calm (case x of None \<Rightarrow> m | Some y \<Rightarrow> f y)"
  by (simp split: option.split)

lemma calm_case_prod [calm_intros]: "(\<And>x y. calm (f x y)) \<Longrightarrow> calm (case p of (x, y) \<Rightarrow> f x y)"
  by (simp split: prod.split)

lemma calm_case_dict [calm_intros]:
  "(\<And>d. calm (f d)) \<Longrightarrow> calm m \<Longrightarrow> calm (case v of VDict d \<Rightarrow> f d | _ \<Rightarrow> m)"
  by (simp split: pyval.split)

lemma calm_store_call: "(\<And>st now d. ordinary (f st now d)) \<Longrightarrow> calm (store_call f)"
  by (rule calmI)
    (auto simp: store_call_def Let_def split: if_splits sum.splits, metis ordinary_simps(2))

lemma calm_store_query: "(\<And>st d. ordinary (f st d)) \<Longrightarrow> calm (store_query f)"
  unfolding store_query_def
  by (rule calm_store_call) (auto split: sum.split, metis ordinary_simps(2))

lemma calm_publish [calm_intros]: "calm (bus_publish t p b)"
  by (auto simp: calm_def bus_publish_def Let_def split: if_splits)

lemma calm_time [calm_intros]: "calm time_time"
  by (simp add: calm_def time_time_def)

lemma calm_modify [calm_intros]: "(\<And>w. w_budget (f w) = w_budget w) \<Longrightarrow> calm (modify f)"
  by (simp add: calm_def)

lemma calm_store_api [calm_intros]:
  "calm (mark_node_seen v t)" "calm (get_last_seen v)" "calm (get_node_location v)"
  "calm (get_node_battery v)" "calm (upsert_node_battery v ts pc vo so)"
  unfolding store_api_defs by (intro calm_store_call calm_store_query ordinary_store)+

lemma calm_events [calm_intros]:
  "calm (get_node_state v)" "calm (republish_state v)" "calm (note_radio v r s t)" "calm (or_now u)"
  unfolding get_node_state_def republish_state_def note_radio_def or_now_def
  by (intro calm_intros ordinary_age get_node_state_def; auto split: pyval.split)+

lemma calm_applies [calm_intros]:
  "calm (apply_seen v t r s)" "calm (apply_battery v ts pc vo so)"
  unfolding apply_seen_def apply_battery_def by (intro calm_intros)+

lemma ordinary_extract: "ordinary p \<Longrightarrow> ordinary (extract_radio_metadata p)"
  unfolding extract_radio_metadata_def safe_json_def opt_float_def Let_def
  by (intro ordinary_ebind) (auto split: sum.split pyval.split intro!: ordinary_ebind)

lemma ordinary_safe_json: "ordinary p \<Longrightarrow> ordinary (safe_json p)"
  by (auto simp: safe_json_def split: sum.split)

lemma calm_event_handlers [calm_intros]:
  "calm (handle_battery_event v)" "calm (handle_telemetry_event v)"
  unfolding handle_battery_event_def handle_telemetry_event_def
  by (intro calm_intros calm_raise, simp)+

lemma calm_route: "ordinary p \<Longrightarrow> calm (route_event t p)"
  unfolding route_event_def
  by (intro calm_intros ordinary_extract ordinary_safe_json)

end
