(* ===== verification/Liveness.thy ===== *)
theory Liveness
  imports Calm
begin

text \<open>
  The service on an outside that works: every answerable request of a run gets exactly one
  response, whatever else arrives, and the health topic ends at \<open>stopped\<close>.
\<close>

definition sound_host :: "host \<Rightarrow> bool" where
  "sound_host h \<longleftrightarrow> (\<forall>t. h_db_ok h t) \<and> (\<forall>t. h_mqtt_ok h t) \<and> (\<forall>f. h_float_repr h f \<noteq> [])"

lemma steady_sound: "steady h w \<Longrightarrow> sound_host h \<Longrightarrow> healthy w \<and> live w"
  by (auto simp: steady_def sound_host_def healthy_def live_def)

lemma truthy_text: "(\<And>f. fr f \<noteq> []) \<Longrightarrow> truthy v \<Longrightarrow> py_str fr v \<noteq> []"
  by (cases v) (auto simp: py_str_def)

text \<open>
  The requests of a run that get an answer: objects with an id and a sender, whether they are valid
  or not, and valid ones that name the sender under \<open>from_\<close>.
\<close>

definition answerable :: "host \<Rightarrow> inbound \<Rightarrow> bool" where
  "answerable h m \<longleftrightarrow> in_topic m = RPC_REQUEST \<and>
     (case in_json m of
        Inr (VDict d) \<Rightarrow> truthy (dget d ''id'') \<and> truthy (dget d ''from'') \<or>
          \<not> has_key d ''from'' \<and> validate_request (h_lax_int h) (VDict d) \<noteq> None
      | _ \<Rightarrow> False)"

lemma valid_truthy:
  assumes "validate_request lax (VDict d) = Some r" "has_key d ''from''"
  shows "truthy (dget d ''id'') \<and> truthy (dget d ''from'')"
proof -
  have "q_id r \<noteq> []" "q_from r \<noteq> []"
    using validate_request_well_formed [OF assms(1)] by (auto simp: well_formed_request_def)
  with validate_request_fields [OF assms(1)] assms(2) show ?thesis by (simp add: dget_def from_key_def)
qed

text \<open>These are those the adapter makes a request or a refusal of.\<close>

lemma answerable_iff:
  "answerable h m \<longleftrightarrow> in_topic m = RPC_REQUEST \<and>
     (case in_json m of
        Inl e \<Rightarrow> False
      | Inr v \<Rightarrow> validate_request (h_lax_int h) v \<noteq> None \<or>
          try_build_bad_request (h_float_repr h) v \<noteq> None)"
proof (cases "\<exists>d. in_json m = Inr (VDict d)")
  case True
  then obtain d where d: "in_json m = Inr (VDict d)" by blast
  have "truthy (dget d ''id'') \<and> truthy (dget d ''from'') \<longleftrightarrow> try_build_bad_request (h_float_repr h) (VDict d) \<noteq> None"
    using bad_request_Some_iff [of "h_float_repr h" d] by blast
  with valid_truthy [of "h_lax_int h" d] show ?thesis by (auto simp: answerable_def d)
next
  case False
  then show ?thesis
    by (auto simp: answerable_def validate_request_def try_build_bad_request_def split: sum.splits pyval.splits)
qed

text \<open>
  Messages the loop can take: no poisoned gateway status, and on the request topic a payload that
  decodes or fails with \<open>JSONDecodeError\<close>, with a time to live that fits the database column.
\<close>

definition digestible :: "host \<Rightarrow> timeout_policy \<Rightarrow> inbound \<Rightarrow> bool" where
  "digestible h policy m \<longleftrightarrow> \<not> poison m \<and>
     (case in_json m of
        Inl e \<Rightarrow> e = JSONDecodeError
      | Inr v \<Rightarrow> (case validate_request (h_lax_int h) v of None \<Rightarrow> True
          | Some r \<Rightarrow> fits64 (resolve_ttl policy (q_type r) (q_ttl r))))"

lemma handle_one_answers:
  assumes "steady h w" "sound_host h" "digestible h policy m" "in_topic m = RPC_REQUEST"
  shows "\<exists>w'. handle_one policy t (in_json m) w = (Inr (), w') \<and>
     length (responses w') = length (responses w) + (if answerable h m then 1 else 0)"
proof -
  have hw: "w_host w = h" "healthy w" "live w"
    using assms(1) steady_sound [OF assms(1,2)] by (auto simp: steady_def)
  show ?thesis
  proof (cases "in_json m")
    case (Inl e)
    with assms show ?thesis
      by (simp add: digestible_def answerable_iff handle_one_def andthen_def inbound_to_request_def)
  next
    case (Inr v)
    show ?thesis
    proof (cases "validate_request (h_lax_int h) v")
      case (Some r)
      then have eq: "handle_one policy t (in_json m) w =
          process_request DEFAULT_HANDLERS service_emit policy r w"
        using hw by (simp add: handle_one_def andthen_def inbound_to_request_def Inr)
      have to: "q_from r \<noteq> []"
        using validate_request_well_formed [OF Some] by (auto simp: well_formed_request_def)
      have ttl: "fits64 (resolve_ttl policy (q_type r) (q_ttl r))"
        using assms(3) by (simp add: digestible_def Inr Some)
      have ans: "answerable h m" using assms(4) by (simp add: answerable_iff Inr Some)
      show ?thesis
      proof (cases "has_request (w_db w) (q_from r) (q_id r)")
        case True
        from dflt.process_duplicate [OF hw(2) to True ttl] hw(3) ans eq show ?thesis
          by (fastforce simp: closed_def)
      next
        case False
        from dflt.process_fresh [OF hw(2) to ttl False refl] hw(3) ans eq show ?thesis
          by (fastforce simp: carried_out_def)
      qed
    next
      case None
      show ?thesis
      proof (cases "try_build_bad_request (h_float_repr h) v")
        case None': None
        with None hw show ?thesis
          by (simp add: handle_one_def andthen_def inbound_to_request_def Inr answerable_iff)
      next
        case (Some p)
        then obtain d where v: "v = VDict d" by (cases v) (auto simp: try_build_bad_request_def)
        have "truthy (dget d ''from'')" "p_to p = py_str (h_float_repr h) (dget d ''from'')"
          using Some bad_request_Some_iff [of "h_float_repr h" d] bad_request_addressed
          by (auto simp: v)
        with assms(2) have to: "p_to p \<noteq> []" by (simp add: truthy_text sound_host_def)
        from dflt.emit_live [OF hw(3) to] obtain w' where e: "service_emit (p_to p) p w = (Inr (), w')"
          by blast
        with None Some hw to assms(4) dflt.emit_sent [OF e to] show ?thesis
          by (simp add: handle_one_def andthen_def inbound_to_request_def Inr answerable_iff
              catch_exception_def catch_def)
      qed
    qed
  qed
qed

lemma consume_answers:
  assumes "steady h w" "sound_host h" "digestible h policy m"
  shows "\<exists>w'. consume policy m w = (Inr (), w') \<and> steady h w' \<and>
     length (responses w') = length (responses w) + (if answerable h m then 1 else 0)"
proof -
  obtain res v where v: "maybe_cache m w = (res, v)" by (cases "maybe_cache m w")
  have k: "keeps h (maybe_cache m)" unfolding maybe_cache_def by (intro evolves_intros)
  have sv: "steady h v" using evolves_keptD [OF k v assms(1)] .
  have rv: "responses v = responses w" using evolves_sameD [OF quiet_cache v] .
  have ok: "ordinary (in_json m)"
    using assms(3) by (auto simp: digestible_def ordinary_def split: sum.splits)
  have w: "w_budget w = None" "w_budget v = None" using assms(1) sv by (auto simp: steady_def)
  have "calm (maybe_cache m)"
  proof -
    have g: "calm (catch_exception (record_gateway_snapshot a b c) (ret ()))" for a b c
      unfolding record_gateway_snapshot_def
      by (intro calm_intros calm_store_call)
        (auto simp: sync_record_gateway_snapshot_def split: sum.split dest: bind_key_Inl bind_val_Inl)
    have e: "e \<noteq> Cancelled" if "gateway_fields m = Inl e" for e
      using that ok by (auto simp: gateway_fields_def ordinary_def ebind_def split: sum.splits pyval.splits if_splits)
    show ?thesis
    proof (cases "gateway_fields m")
      case (Inl x)
      with e [OF Inl] show ?thesis
        by (auto simp: maybe_cache_def intro: calm_ret calm_raise)
    next
      case (Inr y)
      then show ?thesis by (cases y) (auto simp: maybe_cache_def intro!: calm_intros g)
    qed
  qed
  with v w have "ordinary res" by (auto dest: calmD)
  moreover have "\<not> poison m" using assms(3) by (simp add: digestible_def)
  ultimately have res: "res = Inr ()"
    using v cache_raises [of m w] by (cases res) (auto simp: ordinary_def)
  show ?thesis
  proof (cases "in_topic m = RPC_REQUEST")
    case True
    from handle_one_answers [OF sv assms(2,3) True, of "in_topic m"] obtain u where
        u: "handle_one policy (in_topic m) (in_json m) v = (Inr (), u)"
        "length (responses u) = length (responses v) + (if answerable h m then 1 else 0)"
      by blast
    have "steady h u" using evolves_keptD [OF keeps_handle_one u(1) sv] .
    with u rv v res True show ?thesis
      by (simp add: consume_def andthen_def spawn_def catch_exception_def catch_def)
  next
    case False
    obtain res' u where u: "catch_exception (route_event (in_topic m) (in_json m)) (ret ()) v = (res', u)"
      by (cases "catch_exception (route_event (in_topic m) (in_json m)) (ret ()) v")
    have "calm (catch_exception (route_event (in_topic m) (in_json m)) (ret ()))"
      by (intro calm_intros calm_route ok)
    with u w have "ordinary res'" by (auto dest: calmD)
    with u have r': "res' = Inr ()"
      by (cases res') (auto simp: ordinary_def dest: catch_ret_raises)
    have ku: "keeps h (catch_exception (route_event (in_topic m) (in_json m)) (ret ()))"
      and qu: "quiet (catch_exception (route_event (in_topic m) (in_json m)) (ret ()))"
      by (intro evolves_intros)+
    have "steady h u" "responses u = responses v"
      using evolves_keptD [OF ku u sv] evolves_sameD [OF qu u] by simp_all
    with u r' rv sv v res False show ?thesis
      by (simp add: consume_def andthen_def answerable_iff)
  qed
qed

lemma consume_loop_answers:
  assumes "steady h w" "sound_host h" "list_all (digestible h policy) ms"
  shows "\<exists>w'. consume_loop policy ms w = (Inr (), w') \<and> steady h w' \<and>
     length (responses w') = length (responses w) + length (filter (answerable h) ms)"
  using assms(1,3)
proof (induction ms arbitrary: w)
  case Nil
  then show ?case by simp
next
  case (Cons m ms)
  from Cons.prems have d: "digestible h policy m" and ds: "list_all (digestible h policy) ms" by simp_all
  from consume_answers [OF Cons.prems(1) assms(2) d] obtain v where
      v: "consume policy m w = (Inr (), v)" "steady h v"
      "length (responses v) = length (responses w) + (if answerable h m then 1 else 0)"
    by blast
  from Cons.IH [OF v(2) ds] v(1,3) show ?case by (auto simp: andthen_def)
qed

text \<open>
  Every answerable request is answered, once: on an outside that works, over any run of
  messages the loop can take, the consume loop returns, and the number of responses grows by
  exactly the number of requests that are valid or can be refused.
\<close>

theorem every_request_answered_once:
  assumes "steady h w" "sound_host h" "list_all (digestible h policy) ms"
  shows "\<exists>w'. consume_loop policy ms w = (Inr (), w') \<and>
     length (responses w') = length (responses w) + length (filter (answerable h) ms)"
  using consume_loop_answers [OF assms] by blast

definition verbose_host :: host where
  "verbose_host = sample_host\<lparr>h_float_repr := (\<lambda>f. ''x'')\<rparr>"

definition sample_message :: inbound where
  "sample_message = \<lparr>in_topic = RPC_REQUEST, in_empty = False, in_json = Inr (request_dump sample_request)\<rparr>"

lemma sample_valid: "validate_request (h_lax_int verbose_host) (request_dump sample_request) = Some sample_request"
  by (rule validate_request_dump)
    (simp_all add: well_formed_request_def sample_request_def verbose_host_def sample_host_def)

theorem every_request_answered_once_witness:
  "\<exists>w'. consume_loop default_policy [sample_message, sample_message] (sample_world\<lparr>w_host := verbose_host\<rparr>)
        = (Inr (), w') \<and> length (responses w') = 2"
proof -
  let ?w = "sample_world\<lparr>w_host := verbose_host\<rparr>"
  have s: "steady verbose_host ?w" "sound_host verbose_host" "length (responses ?w) = 0"
    by (simp_all add: steady_def sound_host_def verbose_host_def sample_host_def sample_world_def
        responses_def)
  have m: "digestible verbose_host default_policy sample_message" "answerable verbose_host sample_message"
    using sample_valid sample_ttl [of sample_request]
    by (simp_all add: digestible_def answerable_iff sample_message_def poison_def topic_defs)
  from every_request_answered_once [OF s(1,2), of default_policy "[sample_message, sample_message]"] m s(3)
  show ?thesis by (simp add: numeral_2_eq_2)
qed

section \<open>Health\<close>

lemma publish_health_live:
  assumes "steady h w" "sound_host h"
  shows "\<exists>w' body. publish_health vc s w = (Inr (), w') \<and> steady h w' \<and> w_sent w' = w_sent w @
     [\<lparr>msg_topic = SVC_HEALTH, msg_payload = VDict ((''state'', VStr s) # body), msg_retain = True\<rparr>]"
  using assms steady_sound [OF assms]
  by (simp add: publish_health_def time_time_def andthen_def bus_publish_live) (simp add: steady_def)

text \<open>
  The retained health topic ends at \<open>stopped\<close>: on an outside that works, a run over messages
  the loop can take, with no static base configured, returns disconnected, and the last thing it
  published is the health message with the state \<open>stopped\<close>.
\<close>

theorem health_ends_stopped:
  assumes "w_host w = h" "w_budget w = None" "sound_host h" "list_all (digestible h policy) ms"
  shows "\<exists>w' sent body. run_service policy None None vc ms w = (Inr (), w') \<and> \<not> w_connected w' \<and>
     w_sent w' = sent @ [\<lparr>msg_topic = SVC_HEALTH, msg_payload = VDict ((''state'', VStr ''stopped'') # body),
       msg_retain = True\<rparr>]"
proof -
  have "steady h (w\<lparr>w_connected := True\<rparr>)" using assms(1,2) by (simp add: steady_def)
  from publish_health_live [OF this assms(3), of vc "''running''"] obtain v where
      v: "publish_health vc ''running'' (w\<lparr>w_connected := True\<rparr>) = (Inr (), v)" "steady h v"
    by blast
  from consume_loop_answers [OF v(2) assms(3,4)] obtain u where
      u: "consume_loop policy ms v = (Inr (), u)" "steady h u"
    by blast
  from publish_health_live [OF u(2) assms(3), of vc "''stopped''"] obtain t body where
      t: "publish_health vc ''stopped'' u = (Inr (), t)" "w_sent t = w_sent u @
        [\<lparr>msg_topic = SVC_HEALTH, msg_payload = VDict ((''state'', VStr ''stopped'') # body), msg_retain = True\<rparr>]"
    by blast
  have "run_service policy None None vc ms w = (Inr (), t\<lparr>w_connected := False\<rparr>)"
    by (simp add: run_service_def andthen_def finally_do_def v(1) init_static_base_def u(1)
        catch_exception_def catch_def t(1))
  with t(2) show ?thesis by auto
qed

theorem health_ends_stopped_witness:
  "\<exists>w' sent body. run_service default_policy None None (Some ''throttled=0x0'') [sample_message]
       (sample_world\<lparr>w_host := verbose_host\<rparr>) = (Inr (), w') \<and> \<not> w_connected w' \<and>
     w_sent w' = sent @ [\<lparr>msg_topic = SVC_HEALTH, msg_payload = VDict ((''state'', VStr ''stopped'') # body),
       msg_retain = True\<rparr>]"
proof (rule health_ends_stopped [of _ verbose_host])
  show "w_host (sample_world\<lparr>w_host := verbose_host\<rparr>) = verbose_host"
      "w_budget (sample_world\<lparr>w_host := verbose_host\<rparr>) = None" "sound_host verbose_host"
    by (simp_all add: sound_host_def verbose_host_def sample_host_def sample_world_def)
  show "list_all (digestible verbose_host default_policy) [sample_message]"
    using sample_valid sample_ttl [of sample_request]
    by (simp add: digestible_def sample_message_def poison_def topic_defs)
qed

end
