(* ===== verification/Answered.thy ===== *)
theory Answered
  imports LiveProps Liveness "HOL-Library.Multiset"
begin

text \<open>
  Liveness of the running service: on an outside that works, and as long as the service has not left its
  connection, each request that can be answered gets exactly one response, addressed to its sender with
  its id and its type, however the tasks take turns.
\<close>

section \<open>Responses and the messages they answer\<close>

type_synonym address = "string \<times> pyval \<times> pyval"

text \<open>Where a message went, and the id and the type in it.\<close>

definition reply_key :: "message \<Rightarrow> address" where
  "reply_key m = (msg_topic m, case msg_payload m of
      VDict d \<Rightarrow> (dget d ''id'', dget d ''type'')
    | _ \<Rightarrow> (VNone, VNone))"

definition heard :: "world \<Rightarrow> address multiset" where
  "heard w = mset (map reply_key (responses w))"

text \<open>
  Where the response to a message has to go, and the id and the type it has to have, as the JSON
  object of the message says: the text of its \<open>id\<close>, of its sender, and of its type or \<open>unknown\<close>.
\<close>

definition due :: "host \<Rightarrow> inbound \<Rightarrow> address" where
  "due h m = (case in_json m of
      Inr (VDict d) \<Rightarrow>
        (let text = py_str (h_float_repr h);
             sender = dget d (if has_key d ''from'' then ''from'' else ''from_'')
         in (''mc/rpc/resp/'' @ text sender, VStr (text (dget d ''id'')),
             VStr (text (if truthy (dget d ''type'') then dget d ''type'' else VStr ''unknown''))))
    | _ \<Rightarrow> ([], VNone, VNone))"

text \<open>The address of a response, and of the responses to a request.\<close>

definition addressed :: "response \<Rightarrow> address" where
  "addressed p = (''mc/rpc/resp/'' @ p_to p, VStr (p_id p), VStr (p_type p))"

definition awaited :: "request \<Rightarrow> address" where
  "awaited r = (''mc/rpc/resp/'' @ q_from r, VStr (q_id r), VStr (q_type r))"

lemma reply_key_response [simp]: "reply_key (response_message p) = addressed p"
  by (simp add: reply_key_def response_message_def response_json_def addressed_def topic_defs)

lemma answers_address: "answers r p \<Longrightarrow> addressed p = awaited r"
  by (simp add: answers_def addressed_def awaited_def)

lemma heard_same: "responses w' = responses w \<Longrightarrow> heard w' = heard w"
  by (simp add: heard_def)

lemma due_request:
  assumes "in_json m = Inr v" "validate_request (h_lax_int h) v = Some r"
  shows "due h m = awaited r"
proof -
  obtain d where v: "v = VDict d" by (rule validate_request_dict [OF assms(2)])
  have f: "map_of d ''id'' = Some (VStr (q_id r))" "map_of d ''type'' = Some (VStr (q_type r))"
      "map_of d (if has_key d ''from'' then ''from'' else ''from_'') = Some (VStr (q_from r))"
    using validate_request_fields [of "h_lax_int h" d r] assms(2) by (simp_all add: v from_key_def)
  then have g: "dget d ''id'' = VStr (q_id r)" "dget d ''type'' = VStr (q_type r)"
      "dget d (if has_key d ''from'' then ''from'' else ''from_'') = VStr (q_from r)"
    by (simp_all add: dget_def)
  have "q_type r \<noteq> []"
    using validate_request_well_formed [OF assms(2)] by (auto simp: well_formed_request_def)
  then show ?thesis
    unfolding due_def assms(1) v sum.case pyval.case Let_def g by (simp add: awaited_def py_str_def)
qed

lemma due_refused:
  assumes "in_json m = Inr v" "try_build_bad_request (h_float_repr h) v = Some p"
  shows "due h m = addressed p"
proof -
  obtain d where v: "v = VDict d" using assms(2) by (cases v) (auto simp: try_build_bad_request_def)
  have "truthy (dget d ''from'')" using assms(2) bad_request_Some_iff [of "h_float_repr h" d] by (auto simp: v)
  then have k: "has_key d ''from''" by (auto simp: has_key_def dget_def split: option.splits)
  have "p_type p = py_str (h_float_repr h) (if truthy (dget d ''type'') then dget d ''type'' else VStr ''unknown'')"
    using assms(2) by (auto simp: v try_build_bad_request_def Let_def py_or_def split: if_splits)
  with k bad_request_addressed [OF assms(2) [unfolded v]] show ?thesis
    unfolding due_def assms(1) v sum.case pyval.case Let_def by (simp add: addressed_def)
qed

section \<open>What a task owes\<close>

text \<open>
  \<open>owes h N t\<close>: on an outside \<open>h\<close> that stays as it is, the task \<open>t\<close> still has exactly the responses
  with the addresses \<open>N\<close> to send, whatever the other tasks do between its steps.
\<close>

inductive owes :: "host \<Rightarrow> address multiset \<Rightarrow> task \<Rightarrow> bool" for h where
  owes_Ended: "owes h {#} (Ended out)"
| owes_Run: "(\<And>w t' w'. f w = (t', w') \<Longrightarrow> steady h w \<Longrightarrow>
      steady h w' \<and> (\<exists>k. heard w' + k = heard w + n \<and> owes h k t')) \<Longrightarrow> owes h n (Run f)"

inductive_cases owes_RunE: "owes h n (Run f)"
inductive_cases owes_EndedE: "owes h n (Ended out)"

lemma owes_RunD:
  "owes h n (Run f) \<Longrightarrow> f w = (t', w') \<Longrightarrow> steady h w \<Longrightarrow>
     steady h w' \<and> (\<exists>k. heard w' + k = heard w + n \<and> owes h k t')"
  by (erule owes_RunE) blast

lemma owes_step:
  assumes "\<And>w out w'. m w = (out, w') \<Longrightarrow> steady h w \<Longrightarrow>
     steady h w' \<and> (\<exists>j. heard w' + j = heard w + n \<and> owes h j (k out))"
  shows "owes h n (step m k)"
  unfolding step_def by (rule owes_Run) (use assms in \<open>auto split: prod.splits\<close>)

lemma owes_quiet:
  assumes "quiet m" "keeps h m" "\<And>w out w'. m w = (out, w') \<Longrightarrow> steady h w \<Longrightarrow> owes h n (k out)"
  shows "owes h n (step m k)"
proof (rule owes_step)
  fix w out w'
  assume m: "m w = (out, w')" and s: "steady h w"
  from evolves_sameD [OF assms(1) m] evolves_keptD [OF assms(2) m s] assms(3) [OF m s]
  show "steady h w' \<and> (\<exists>j. heard w' + j = heard w + n \<and> owes h j (k out))"
    using heard_same [of w' w] by auto
qed

definition unheard :: "host \<Rightarrow> world \<Rightarrow> world \<Rightarrow> bool" where
  "unheard h w w' \<longleftrightarrow> (steady h w \<longrightarrow> steady h w' \<and> heard w' = heard w)"

lemma owes_then:
  "co_all (unheard h) P c \<Longrightarrow> (\<And>out. P out \<Longrightarrow> owes h n (k out)) \<Longrightarrow> owes h n (co_then c k)"
proof (induction rule: co_all.induct)
  case (all_Run f)
  show ?case unfolding co_then.simps
  proof (rule owes_Run)
    fix w t' w'
    assume "(map_prod (\<lambda>c. co_then c k) id \<circ> f) w = (t', w')" and s: "steady h w"
    then obtain c where c: "f w = (c, w')" "t' = co_then c k" by (cases "f w") auto
    with all_Run.IH [OF c(1)] all_Run.prems s
    show "steady h w' \<and> (\<exists>j. heard w' + j = heard w + n \<and> owes h j t')"
      by (intro conjI exI [of _ n]) (auto simp: unheard_def)
  qed
qed simp

section \<open>The handler\<close>

lemma co_all_both: "co_all R P c \<Longrightarrow> co_all S Q c \<Longrightarrow> co_all (\<lambda>w w'. R w w' \<and> S w w') (\<lambda>out. P out \<and> Q out) c"
proof (induction rule: co_all.induct)
  case (all_Ended out)
  then show ?case by (auto elim: co_all_EndedE intro: co_all.all_Ended)
next
  case (all_Run f)
  from all_Run.prems show ?case
    by (elim co_all_RunE, intro co_all.all_Run) (use all_Run.IH in blast)
qed

text \<open>The time limit turns a cancellation into a time-out and leaves none behind.\<close>

definition at_ease :: "world \<Rightarrow> world \<Rightarrow> bool" where
  "at_ease w w' \<longleftrightarrow> (w_budget w = None \<longrightarrow> w_budget w' = None)"

lemma at_ease_limited: "co_all at_ease (\<lambda>out. out \<noteq> Inl Cancelled) (limited c b)"
proof (induction c arbitrary: b)
  case (Ended out)
  show ?case by (auto simp: timed_out_def intro: all_Ended split: sum.split)
next
  case (Run f)
  show ?case unfolding limited.simps
  proof (rule all_Run)
    fix w c' w'
    assume run: "(\<lambda>(c, w'). (c (w_budget w'), w'\<lparr>w_budget := None\<rparr>)) ((map_prod limited id \<circ> f) (w\<lparr>w_budget := b\<rparr>))
        = (c', w')"
    obtain c v where c: "f (w\<lparr>w_budget := b\<rparr>) = (c, v)" by (cases "f (w\<lparr>w_budget := b\<rparr>)")
    then have "c \<in> Basic_BNFs.fsts (f (w\<lparr>w_budget := b\<rparr>))" by simp
    from Run [OF rangeI this] c run
    show "at_ease w w' \<and> co_all at_ease (\<lambda>out. out \<noteq> Inl Cancelled) c'"
      by (auto simp: at_ease_def [of w w'])
  qed
qed

lemma at_ease_timeout: "co_all at_ease (\<lambda>out. out \<noteq> Inl Cancelled) (co_run_with_timeout c ttl)"
proof -
  have inc: "evolves at_ease inc_in_flight" "evolves at_ease dec_in_flight"
    unfolding inc_in_flight_def dec_in_flight_def by (rule evolves_modify, simp add: at_ease_def)+
  have wait: "co_all at_ease (\<lambda>out. out \<noteq> Inl Cancelled) (co_wait_for c ttl)"
    unfolding co_wait_for_def by (rule all_Run) (auto simp: at_ease_def at_ease_limited)
  show ?thesis
    unfolding co_run_with_timeout_def
  proof (rule all_bind [where P = "\<lambda>out. \<exists>u. out = Inr u"])
    show "co_all at_ease (\<lambda>out. \<exists>u. out = Inr u) (await inc_in_flight)"
      by (rule all_await [OF inc(1)]) (auto simp: inc_in_flight_def)
    show "co_all at_ease (\<lambda>out. out \<noteq> Inl Cancelled) (co_finally (co_wait_for c ttl) dec_in_flight)" for u :: unit
      by (rule all_finally [OF wait inc(2)]) (auto simp: dec_in_flight_def)
  qed simp
qed

lemma handler_unheard:
  assumes "cut_ok g"
  shows "co_all (unheard h) (\<lambda>out. out \<noteq> Inl Cancelled \<and> (\<forall>p. out = Inr p \<longrightarrow> answers r p)) (co_run_with_timeout (g r) ttl)"
proof -
  let ?F = "\<lambda>w. (w_host w, w_connected w, responses w)"
  have "serene (\<lambda>p. answers r p \<and> p_status p = ''ok'') (g r)" using assms by (simp add: cut_ok_def)
  moreover have "same surroundings w w' \<Longrightarrow> same ?F w w'" for w w'
    by (simp add: same_def surroundings_def outside_aggregator_def)
  moreover have "evolves (same ?F) inc_in_flight" "evolves (same ?F) dec_in_flight"
    unfolding inc_in_flight_def dec_in_flight_def by (rule evolves_modify, simp add: same_def responses_def)+
  ultimately have "co_all (same ?F) (fine (\<lambda>p. answers r p \<and> p_status p = ''ok'')) (co_run_with_timeout (g r) ttl)"
    by (rule timeout_all)
  from co_all_both [OF this at_ease_timeout] show ?thesis
    by (rule co_all_mono) (auto simp: same_def at_ease_def unheard_def steady_def intro: heard_same)
qed

section \<open>The task of a request\<close>

lemma emit_owed:
  assumes "sound_host h" "p_to p \<noteq> []" "service_emit n p w = (out, w')" "steady h w"
  shows "out = Inr () \<and> steady h w' \<and> heard w' = heard w + {#addressed p#}"
proof -
  have "live w" using steady_sound [OF assms(4,1)] by blast
  from dflt.emit_live [OF this assms(2), of n] assms(3) have out: "out = Inr ()" by auto
  with dflt.emit_sent [of n p w w'] assms(2,3) have "heard w' = heard w + {#addressed p#}"
    by (simp add: heard_def)
  with out evolves_keptD [OF keeps_emit assms(3,4)] show ?thesis by simp
qed

lemma event_owed:
  fixes r :: request
  assumes "sound_host h" "record_event (q_id r) (q_from r) s dt w = (out, w')" "steady h w"
  shows "out = Inr ()"
proof -
  have "healthy w" using steady_sound [OF assms(3,1)] by blast
  then obtain u where "record_event (q_id r) (q_from r) s dt w = (Inr (), u)" by (rule record_event_healthy)
  with assms(2) show ?thesis by simp
qed

lemma owes_publish:
  assumes "sound_host h" "answers r p" "q_from r \<noteq> []"
  shows "owes h {#awaited r#} (publish_task service_emit r p f e)"
proof -
  let ?completion = "step (record_completion (q_id r) (q_from r) f (Some p) e) Ended"
  have fin: "owes h {#} ?completion" by (rule owes_quiet) (auto intro: quiet_rows evolves_intros owes_Ended)
  have to: "p_to p \<noteq> []" using assms(2,3) by (simp add: answers_def)
  show ?thesis
    unfolding publish_task_def Let_def
  proof (rule owes_step)
    fix w out w'
    assume e: "service_emit (q_from r) p w = (out, w')" and s: "steady h w"
    from emit_owed [OF assms(1) to e s] answers_address [OF assms(2)]
    have out: "out = Inr ()" "steady h w'" "heard w' = heard w + {#awaited r#}" by simp_all
    have "owes h {#} (step (record_event (q_id r) (q_from r) RESPONSE_PUBLISHED None)
        (\<lambda>out. if out = Inl Cancelled then Ended (Inl Cancelled) else ?completion))"
      by (rule owes_quiet) (auto intro: quiet_rows evolves_intros fin owes_Ended)
    with out show "steady h w' \<and> (\<exists>j. heard w' + j = heard w + {#awaited r#} \<and> owes h j (case out of
        Inl e \<Rightarrow> if Inl e = Inl Cancelled then Ended (Inl Cancelled) else ?completion
      | Inr _ \<Rightarrow> step (record_event (q_id r) (q_from r) RESPONSE_PUBLISHED None)
          (\<lambda>out. if out = Inl Cancelled then Ended (Inl Cancelled) else ?completion)))"
      by auto
  qed
qed

lemma owes_error: "sound_host h \<Longrightarrow> q_from r \<noteq> [] \<Longrightarrow> owes h {#awaited r#} (error_task service_emit r c m)"
  unfolding error_task_def by (rule owes_publish) simp_all

lemma owes_event:
  fixes r :: request
  assumes "sound_host h" "owes h n k"
  shows "owes h n (step (record_event (q_id r) (q_from r) s dt) (ok_then (\<lambda>_. k)))"
proof (rule owes_quiet)
  fix w out w'
  assume "record_event (q_id r) (q_from r) s dt w = (out, w')" "steady h w"
  from event_owed [OF assms(1) this] assms(2) show "owes h n (ok_then (\<lambda>_. k) out)" by (simp add: ok_then_def)
qed (intro quiet_rows evolves_intros)+

lemma owes_finish:
  assumes "sound_host h" "q_from r \<noteq> []" "out \<noteq> Inl Cancelled" "\<And>p. out = Inr p \<Longrightarrow> answers r p"
  shows "owes h {#awaited r#} (finish_task service_emit r ttl out)"
  using assms unfolding finish_task_def
  by (auto split: sum.split exn.split intro!: owes_publish owes_error owes_event)

lemma owes_fresh:
  assumes "sound_host h" "q_from r \<noteq> []"
  shows "owes h {#awaited r#} (fresh_task CUT_HANDLERS service_emit ttl r)"
proof -
  have seen: "owes h {#awaited r#} (step (andthen time_time (\<lambda>now. mark_node_seen (VStr (q_from r)) (fin_ts now))) (ok_then (\<lambda>_. k)))"
    if "owes h {#awaited r#} k" for k
  proof (rule owes_quiet)
    fix w out w'
    assume run: "andthen time_time (\<lambda>now. mark_node_seen (VStr (q_from r)) (fin_ts now)) w = (out, w')" and s: "steady h w"
    obtain v t where t: "time_time w = (Inr t, v)" by (auto simp: time_time_def)
    have "steady h v" using evolves_keptD [OF keeps_time t s] .
    then have "healthy v" using steady_sound assms(1) by blast
    then obtain u where "mark_node_seen (VStr (q_from r)) (fin_ts t) v = (Inr (), u)"
      using mark_seen_healthy by blast
    with run t have "out = Inr ()" by (simp add: andthen_def)
    with that show "owes h {#awaited r#} (ok_then (\<lambda>_. k) out)" by (simp add: ok_then_def)
  qed (intro evolves_intros quiet_rows)+
  have run: "owes h {#awaited r#} (co_then (co_run_with_timeout (g r) ttl) (finish_task service_emit r ttl))" if "cut_ok g" for g
    by (rule owes_then [OF handler_unheard [OF that]]) (use assms in \<open>auto intro: owes_finish\<close>)
  show ?thesis
    unfolding fresh_task_def
    using cut_handlers_ok [of "q_type r"] assms
    by (auto split: option.split intro!: owes_event seen run owes_error)
qed

lemma received_owed: "record_received r ttl w = (out, w') \<Longrightarrow> steady h w \<Longrightarrow> out \<noteq> Inl Cancelled"
  by (auto simp: record_received_def store_call_def steady_def Let_def sync_record_received_def
      split: if_splits sum.splits)

lemma owes_request:
  assumes "sound_host h" "q_from r \<noteq> []"
  shows "owes h {#awaited r#} (service_task policy r)"
  unfolding request_task_def Let_def
proof (rule owes_quiet)
  fix ttl w out w'
  assume "record_received r (resolve_ttl policy (q_type r) (q_ttl r)) w = (out, w')" "steady h w"
  from received_owed [OF this] show
      "owes h {#awaited r#} (received_task CUT_HANDLERS service_emit (resolve_ttl policy (q_type r) (q_ttl r)) r out)"
    unfolding received_task_def
    using assms by (auto split: sum.split intro!: owes_fresh owes_event owes_error)
qed (auto intro: quiet_rows evolves_intros)

lemma owes_message:
  assumes "sound_host h" "in_topic m = RPC_REQUEST"
  shows "owes h (if answerable h m then {#due h m#} else {#}) (message_task policy m)"
  unfolding message_task_def
proof (rule owes_quiet)
  fix w out w'
  let ?in = "inbound_to_request (h_lax_int h) (h_float_repr h) (in_topic m) (in_json m)"
  assume "andthen (gets w_host) (\<lambda>h. lift (inbound_to_request (h_lax_int h) (h_float_repr h) (in_topic m) (in_json m))) w
      = (out, w')" "steady h w"
  then have out: "out = ?in" by (auto simp: andthen_def steady_def)
  have refused: "owes h {#addressed p#} (refusal_task p)" if "p_to p \<noteq> []" for p
    unfolding refusal_task_def
  proof (rule owes_step)
    fix v res v'
    assume c: "catch_exception (service_emit (p_to p) p) (ret ()) v = (res, v')" and s: "steady h v"
    obtain x u where x: "service_emit (p_to p) p v = (x, u)" by (cases "service_emit (p_to p) p v")
    from emit_owed [OF assms(1) that x s] c x
    show "steady h v' \<and> (\<exists>j. heard v' + j = heard v + {#addressed p#} \<and> owes h j (Ended res))"
      by (auto simp: catch_exception_def catch_def intro: owes_Ended)
  qed
  show "owes h (if answerable h m then {#due h m#} else {#}) (case out of
      Inl e \<Rightarrow> Ended (Inl e)
    | Inr env \<Rightarrow> (case env_request env of
        None \<Rightarrow> (case env_error env of None \<Rightarrow> Ended (Inr ()) | Some err \<Rightarrow> refusal_task err)
      | Some r \<Rightarrow> service_task policy r))"
  proof (cases "in_json m")
    case (Inl e)
    with out show ?thesis by (auto simp: inbound_to_request_def answerable_iff intro: owes_Ended)
  next
    case (Inr v)
    show ?thesis
    proof (cases "validate_request (h_lax_int h) v")
      case (Some r)
      then have "q_from r \<noteq> []"
        using validate_request_well_formed [OF Some] by (auto simp: well_formed_request_def)
      from owes_request [OF assms(1) this] Some Inr out assms(2) due_request [OF Inr Some] show ?thesis
        by (simp add: inbound_to_request_def answerable_iff)
    next
      case None
      have "p_to p \<noteq> []" if p: "try_build_bad_request (h_float_repr h) v = Some p" for p
      proof -
        obtain d where v: "v = VDict d" using p by (cases v) (auto simp: try_build_bad_request_def)
        have "truthy (dget d ''from'')" "p_to p = py_str (h_float_repr h) (dget d ''from'')"
          using p bad_request_Some_iff [of "h_float_repr h" d] bad_request_addressed by (auto simp: v)
        with assms(1) show ?thesis by (simp add: truthy_text sound_host_def)
      qed
      with None Inr out assms(2) refused due_refused [OF Inr] show ?thesis
        by (auto simp: inbound_to_request_def answerable_iff intro: owes_Ended split: option.split)
    qed
  qed
qed (intro evolves_intros)+

section \<open>The consume loop leaves the outside as it is\<close>

abbreviation stays :: "host \<Rightarrow> 'a co \<Rightarrow> bool" where
  "stays h \<equiv> co_all (kept (steady h)) (\<lambda>_. True)"

lemma stays_bind: "stays h c \<Longrightarrow> (\<And>x. stays h (k x)) \<Longrightarrow> stays h (co_bind c k)"
  by (erule all_bind) simp_all

lemma stays_await: "keeps h m \<Longrightarrow> stays h (await m)"
  by (rule all_await) simp_all

lemma stays_Ended: "stays h (Ended out)"
  by (rule all_Ended) simp

lemma stays_state: "stays h (co_get_node_state v)"
  unfolding co_get_node_state_def
  by (auto split: option.split intro!: stays_bind stays_await stays_Ended evolves_intros)

lemma stays_republish: "stays h (co_republish_state v)"
  unfolding co_republish_state_def
  by (auto split: option.split intro!: stays_bind stays_await stays_Ended stays_state evolves_intros)

lemma stays_consume: "stays h (co_consume m)"
proof -
  have seen: "stays h (co_apply_seen v t a b)" for v t a b
    unfolding co_apply_seen_def by (intro stays_bind stays_await stays_republish evolves_intros)
  have bat: "stays h (co_apply_battery v t p vo src)" for v t p vo src
    unfolding co_apply_battery_def by (intro stays_bind stays_await stays_republish evolves_intros)
  have ev: "stays h (co_battery_event v)" "stays h (co_telemetry_event v)" for v
    unfolding co_battery_event_def co_telemetry_event_def
    by (cases v; auto intro!: stays_Ended stays_bind stays_await seen bat evolves_intros)+
  have lift: "stays h (co_lift x)" for x :: "exn + 'x"
    unfolding co_lift_def by (rule stays_Ended)
  have "stays h (co_route_event t p)" for t p
    unfolding co_route_event_def
    by (auto intro!: stays_bind lift seen ev stays_Ended stays_await evolves_intros)
  then show ?thesis
    unfolding co_consume_def co_catch_exception_def maybe_cache_def
    by (auto intro!: stays_bind stays_Ended all_then stays_await evolves_intros)
qed

lemma unheard_consume: "each_move (unheard h) (co_consume m)"
proof -
  have "each_move (same responses) (co_consume m)"
    by (rule consumer_steps) (simp add: same_def around_consumer_def)
  from co_all_both [OF stays_consume this] show ?thesis
    by (rule co_all_mono) (auto simp: kept_def same_def unheard_def intro: heard_same)
qed

lemma stays_others: "keeps h (beat vc)" "keeps h (on_fix q th fx)" "keeps h (run_once sw)"
proof -
  show "keeps h (beat vc)" unfolding beat_def publish_health_def by (intro evolves_intros)
  show "keeps h (on_fix q th fx)" unfolding on_fix_def by (intro evolves_intros)
  show "keeps h (run_once sw)" unfolding run_once_def Let_def by (intro evolves_intros)
qed

section \<open>Histories\<close>

text \<open>A run together with the request messages it has taken.\<close>

inductive live_history ::
  "timeout_policy \<Rightarrow> sweeper \<Rightarrow> phase \<times> task list \<times> world \<Rightarrow> inbound list \<Rightarrow> phase \<times> task list \<times> world \<Rightarrow> bool"
  for policy sw s0 where
  history_start: "live_history policy sw s0 [] s0"
| history_request: "live_history policy sw s0 ms (Waiting, ts, w) \<Longrightarrow> in_topic m = RPC_REQUEST \<Longrightarrow>
    live_history policy sw s0 (ms @ [m]) (Waiting, ts @ [message_task policy m], w)"
| history_other: "live_history policy sw s0 ms s \<Longrightarrow> live_step policy sw s s' \<Longrightarrow>
    length (fst (snd s')) = length (fst (snd s)) \<Longrightarrow> live_history policy sw s0 ms s'"

lemma history_extends:
  assumes "live_history policy sw s0 ms s" "live_reach policy sw s s'"
  shows "\<exists>ms'. live_history policy sw s0 (ms @ ms') s' \<and>
     length (fst (snd s')) = length (fst (snd s)) + length ms'"
  using assms(2)
proof (induction rule: live_reach.induct)
  case live_idle
  show ?case using assms(1) by (intro exI [of _ "[]"]) simp
next
  case (live_next u v)
  then obtain ms' where ms': "live_history policy sw s0 (ms @ ms') u"
      "length (fst (snd u)) = length (fst (snd s)) + length ms'" by blast
  show ?case
  proof (cases "length (fst (snd v)) = length (fst (snd u))")
    case True
    with history_other [OF ms'(1) live_next.hyps(2)] ms'(2) show ?thesis by auto
  next
    case False
    with live_next.hyps(2) obtain m ts w where m: "in_topic m = RPC_REQUEST" "u = (Waiting, ts, w)"
        "v = (Waiting, ts @ [message_task policy m], w)"
      by (cases rule: live_step.cases) auto
    with history_request [of policy sw s0 "ms @ ms'" ts w m] ms' show ?thesis
      by (intro exI [of _ "ms' @ [m]"]) simp
  qed
qed

lemma history_reaches: "live_history policy sw s0 ms s \<Longrightarrow> live_reach policy sw s0 s"
  by (induction rule: live_history.induct) (auto intro: live_reach.intros live_step.request_message)

section \<open>The balance\<close>

definition balanced :: "host \<Rightarrow> world \<Rightarrow> inbound list \<Rightarrow> phase \<times> task list \<times> world \<Rightarrow> bool" where
  "balanced h w0 ms s \<longleftrightarrow> consumer_moves (unheard h) (fst s) \<and> steady h (snd (snd s)) \<and>
     (\<exists>ns. list_all2 (owes h) ns (fst (snd s)) \<and>
        heard (snd (snd s)) + sum_list ns = heard w0 + mset (map (due h) (filter (answerable h) ms)))"

lemma sum_list_replace:
  "i < length ns \<Longrightarrow> sum_list (ns[i := k]) + ns ! i = sum_list ns + (k :: 'a :: comm_monoid_add)"
proof (induction ns arbitrary: i)
  case (Cons n ns)
  show ?case
  proof (cases i)
    case (Suc j)
    with Cons.IH [of j] Cons.prems show ?thesis by (simp add: add.assoc)
  qed (simp add: ac_simps)
qed simp

lemma balanced_move:
  assumes "balanced h w0 ms (p, ts, w)" "i < length ts" "ts ! i = Run f" "f w = (t', w')"
  shows "balanced h w0 ms (p, ts[i := t'], w')"
proof -
  obtain ns where ns: "list_all2 (owes h) ns ts" "heard w + sum_list ns = heard w0 + mset (map (due h) (filter (answerable h) ms))"
    and s: "steady h w" "consumer_moves (unheard h) p"
    using assms(1) by (auto simp: balanced_def)
  then have len: "i < length ns" using assms(2) by (simp add: list_all2_lengthD)
  have "owes h (ns ! i) (Run f)" using list_all2_nthD2 [OF ns(1) assms(2)] assms(3) by simp
  from owes_RunD [OF this assms(4) s(1)] obtain k where
      k: "steady h w'" "heard w' + k = heard w + ns ! i" "owes h k t'" by blast
  have "(heard w' + sum_list (ns[i := k])) + ns ! i = (heard w' + k) + sum_list ns"
    using sum_list_replace [OF len, of k] by (simp add: ac_simps)
  also have "\<dots> = (heard w + sum_list ns) + ns ! i" using k(2) by (simp add: ac_simps)
  finally have "heard w' + sum_list (ns[i := k]) = heard w + sum_list ns" by simp
  moreover have "list_all2 (owes h) (ns[i := k]) (ts[i := t'])"
    using ns(1) k(3) by (intro list_all2_update_cong) simp_all
  ultimately show ?thesis
    using k(1,2) ns(2) s(2) unfolding balanced_def by (intro conjI exI [of _ "ns[i := k]"]) simp_all
qed

lemma balanced_world:
  "balanced h w0 ms (p, ts, w) \<Longrightarrow> steady h w' \<Longrightarrow> heard w' = heard w \<Longrightarrow>
     consumer_moves (unheard h) p' \<Longrightarrow> balanced h w0 ms (p', ts, w')"
  by (auto simp: balanced_def)

lemma balanced_kept:
  assumes "balanced h w0 ms (p, ts, w)" "keeps h m" "quiet m" "m w = (out, w')"
  shows "balanced h w0 ms (p, ts, w')"
proof -
  have "steady h w" "consumer_moves (unheard h) p" using assms(1) by (simp_all add: balanced_def)
  with balanced_world [OF assms(1)] evolves_keptD [OF assms(2,4)] heard_same [OF evolves_sameD [OF assms(3,4)]] show ?thesis
    by simp
qed

lemma history_balanced:
  assumes "live_history policy sw (Waiting, [], w0) ms s" "steady h w0" "sound_host h"
  shows "connected (fst s) \<longrightarrow> balanced h w0 ms s"
  using assms(1)
proof (induction rule: live_history.induct)
  case history_start
  show ?case using assms(2) by (simp add: balanced_def moves_Ended)
next
  case (history_request ms ts w m)
  then obtain ns where ns: "list_all2 (owes h) ns ts" "steady h w"
      "heard w + sum_list ns = heard w0 + mset (map (due h) (filter (answerable h) ms))"
    by (auto simp: balanced_def)
  with owes_message [OF assms(3) history_request.hyps(2), of policy] show ?case
    unfolding balanced_def
    by (intro impI conjI exI [of _ "ns @ [if answerable h m then {#due h m#} else {#}]"])
      (simp_all add: moves_Ended list_all2_appendI)
next
  case (history_other ms s s')
  show ?case
  proof
    assume c: "connected (fst s')"
    from history_other.hyps(2) show "balanced h w0 ms s'"
    proof (cases rule: live_step.cases)
      case (request_message m ts w)
      with history_other.hyps(3) show ?thesis by simp
    next
      case (other_message m ts w)
      with history_other.IH show ?thesis by (simp add: balanced_def unheard_consume)
    next
      case (consumes f w c w' ts)
      with history_other.IH have b: "balanced h w0 ms (Serving (Run f), ts, w)" by simp
      then have "each_move (unheard h) (Run f)" "steady h w" by (simp_all add: balanced_def)
      with moves_RunD [where f = f and w = w and t' = c and w' = w' and R = "unheard h"] consumes(3) have "each_move (unheard h) c" "steady h w'" "heard w' = heard w"
        by (auto simp: unheard_def)
      with balanced_world [OF b this(2,3), of "Serving c"] consumes show ?thesis by simp
    next
      case (beats p vc w out w' ts)
      with history_other.IH have b: "balanced h w0 ms (p, ts, w)" by simp
      from balanced_kept [OF b stays_others(1) beat_frames(2) beats(4)] beats show ?thesis by simp
    next
      case (gps p q th fx w out w' ts)
      with history_other.IH have b: "balanced h w0 ms (p, ts, w)" by simp
      from balanced_kept [OF b stays_others(2) fix_frames(2) gps(4)] gps show ?thesis by simp
    next
      case (sweeps p w out w' ts)
      with history_other.IH have b: "balanced h w0 ms (p, ts, w)" by simp
      from balanced_kept [OF b stays_others(3) sweep_frames(2) sweeps(4)] sweeps show ?thesis by simp
    next
      case (fails e ts w)
      with history_other.IH show ?thesis by (simp add: balanced_def)
    next
      case (moves p i ts f w t' w')
      with history_other.IH c have "balanced h w0 ms (p, ts, w)" by simp
      from balanced_move [OF this moves(4,5,6)] moves show ?thesis by simp
    qed (use c in simp_all)
  qed
qed

section \<open>Running the open tasks to their end\<close>

fun finished :: "task \<Rightarrow> bool" where
  "finished (Ended out) = True"
| "finished (Run f) = False"

lemma finish_one:
  assumes "i < length ts" "p \<noteq> Closed"
  shows "\<exists>out w'. live_reach policy sw (p, ts, w) (p, ts[i := Ended out], w')"
proof -
  have "\<exists>out w'. live_reach policy sw (p, ts, w) (p, ts[i := Ended out], w')" if "ts ! i = t" "i < length ts" for t
    using that
  proof (induction t arbitrary: ts w)
    case (Ended out)
    then show ?case using live_idle [of policy sw "(p, ts, w)"] by (metis list_update_id)
  next
    case (Run f)
    obtain c v where c: "f w = (c, v)" by (cases "f w")
    then have "c \<in> Basic_BNFs.fsts (f w)" by simp
    from Run.IH [OF rangeI this, of "ts[i := c]" v] Run.prems obtain out w' where
        "live_reach policy sw (p, ts[i := c], v) (p, ts[i := Ended out], w')" by auto
    moreover have "live_step policy sw (p, ts, w) (p, ts[i := c], v)"
      using live_step.moves [OF assms(2) Run.prems(2,1) c] .
    ultimately show ?case by (meson live_trans live_reach.intros)
  qed
  with assms(1) show ?thesis by blast
qed

lemma fewer_unfinished:
  "i < length ts \<Longrightarrow> \<not> finished (ts ! i) \<Longrightarrow>
     length (filter (\<lambda>t. \<not> finished t) (ts[i := Ended out])) < length (filter (\<lambda>t. \<not> finished t) ts)"
proof (induction ts arbitrary: i)
  case (Cons t ts)
  then show ?case by (cases i) auto
qed simp

lemma finish_all:
  "p \<noteq> Closed \<Longrightarrow> \<exists>ts' w'. live_reach policy sw (p, ts, w) (p, ts', w') \<and> length ts' = length ts \<and> list_all finished ts'"
proof (induction "length (filter (\<lambda>t. \<not> finished t) ts)" arbitrary: ts w rule: less_induct)
  case less
  show ?case
  proof (cases "list_all finished ts")
    case True
    then show ?thesis by (intro exI [of _ ts] exI [of _ w]) (simp add: live_idle)
  next
    case False
    then obtain i where i: "i < length ts" "\<not> finished (ts ! i)" by (auto simp: list_all_length)
    from finish_one [OF i(1) less.prems] obtain out v where
        run: "live_reach policy sw (p, ts, w) (p, ts[i := Ended out], v)" by blast
    have "length (filter (\<lambda>t. \<not> finished t) (ts[i := Ended out])) < length (filter (\<lambda>t. \<not> finished t) ts)"
      by (rule fewer_unfinished [OF i])
    from less.hyps [OF this less.prems, of v] obtain ts' w' where
        "live_reach policy sw (p, ts[i := Ended out], v) (p, ts', w')" "length ts' = length ts" "list_all finished ts'"
      by auto
    with live_trans [OF run] show ?thesis by blast
  qed
qed

section \<open>Property\<close>

text \<open>
  C2. Every request that can be answered gets its answer, exactly one, from the running service. On an
  outside that works, however tasks, other messages, heartbeats, sweeps and GPS fixes have
  interleaved: whenever all open tasks have ended, the responses sent are, one for one, those due to
  the request messages taken that are objects with an id and a sender (\<open>answerable\<close>), each on the topic
  of the sender that its message names and with the id and the type of its message. As long as the
  service has not left its connection the open tasks can be run to such an end.
\<close>

theorem running_service_answers:
  assumes "live_history policy sw (Waiting, [], w0) ms (p, ts, w)" "connected p" "steady h w0" "sound_host h"
  shows "(list_all finished ts \<longrightarrow> mset (map reply_key (responses w)) =
       mset (map reply_key (responses w0)) + mset (map (due h) (filter (answerable h) ms))) \<and>
     (\<exists>ts' w'. live_reach policy sw (p, ts, w) (p, ts', w') \<and> list_all finished ts' \<and>
       mset (map reply_key (responses w')) =
         mset (map reply_key (responses w0)) + mset (map (due h) (filter (answerable h) ms)))"
proof -
  have all_sent: "heard v = heard w0 + mset (map (due h) (filter (answerable h) ms))"
    if hist: "live_history policy sw (Waiting, [], w0) ms (p, us, v)" and fin: "list_all finished us" for us v
  proof -
    have "balanced h w0 ms (p, us, v)" using history_balanced [OF hist assms(3,4)] assms(2) by simp
    then obtain ns where ns: "list_all2 (owes h) ns us"
        "heard v + sum_list ns = heard w0 + mset (map (due h) (filter (answerable h) ms))"
      by (auto simp: balanced_def)
    from ns(1) fin have "sum_list ns = {#}"
      by (induction rule: list_all2_induct) (auto elim: finished.elims owes_EndedE)
    with ns(2) show ?thesis by simp
  qed
  have "p \<noteq> Closed" using assms(2) by auto
  from finish_all [OF this, of policy sw ts w] obtain ts' w' where
      run: "live_reach policy sw (p, ts, w) (p, ts', w')" "length ts' = length ts" "list_all finished ts'"
    by blast
  from history_extends [OF assms(1) run(1)] run(2) have "live_history policy sw (Waiting, [], w0) ms (p, ts', w')"
    by auto
  from all_sent [OF this run(3)] all_sent [OF assms(1)] run(1,3) show ?thesis
    unfolding heard_def by blast
qed

text \<open>A request and an invalid payload of another node, neither of whose tasks has begun.\<close>

definition broken_message :: inbound where
  "broken_message = \<lparr>in_topic = RPC_REQUEST, in_empty = False,
     in_json = Inr (VDict [(''id'', VStr ''x7''), (''from'', VStr ''n9'')])\<rparr>"

theorem running_service_answers_witness:
  "\<exists>ts w. live_reach default_policy daily_sweeper
       (Waiting, [message_task default_policy sample_message, message_task default_policy broken_message],
        sample_world\<lparr>w_host := verbose_host\<rparr>) (Waiting, ts, w) \<and> list_all finished ts \<and>
     mset (map reply_key (responses w)) =
       {#(''mc/rpc/resp/'' @ q_from sample_request, VStr (q_id sample_request), VStr (q_type sample_request)),
         (''mc/rpc/resp/n9'', VStr ''x7'', VStr ''unknown'')#}"
proof -
  let ?w = "sample_world\<lparr>w_host := verbose_host\<rparr>"
  have s: "steady verbose_host ?w" "sound_host verbose_host" "responses ?w = []"
    by (simp_all add: steady_def sound_host_def verbose_host_def sample_host_def sample_world_def
        responses_def)
  have m: "answerable verbose_host sample_message" "in_topic sample_message = RPC_REQUEST"
      "due verbose_host sample_message = awaited sample_request"
    using sample_valid due_request [of sample_message "request_dump sample_request" verbose_host sample_request]
    by (simp_all add: answerable_iff sample_message_def)
  have b: "answerable verbose_host broken_message" "in_topic broken_message = RPC_REQUEST"
      "due verbose_host broken_message = (''mc/rpc/resp/n9'', VStr ''x7'', VStr ''unknown'')"
    by (simp_all add: answerable_iff broken_message_def try_build_bad_request_def due_def has_key_def
        py_str_def)
  have "live_history default_policy daily_sweeper (Waiting, [], ?w) [sample_message, broken_message]
      (Waiting, [message_task default_policy sample_message, message_task default_policy broken_message], ?w)"
    using history_request [OF history_request [OF history_start [of default_policy daily_sweeper "(Waiting, [], ?w)",
        simplified] m(2)] b(2)] by simp
  from running_service_answers [OF this _ s(1,2)] m(1) b(1) s(3) show ?thesis
    by (simp add: m(3) b(3) awaited_def)
qed

end
