(* ===== verification/Gpsd.thy ===== *)
theory Gpsd
  imports Service
begin

text \<open>
  gpsd.py: the TPV records of a GPSD session, the session loop and the reconnect delays, which
  tak/takserver.py has once more. The fix handed to the callback has the fields of
  \<open>LocationFix\<close>, so that record stands for \<open>GpsdFix\<close> as well. The state of the callback's
  closure is passed through.
\<close>

section \<open>TPV records\<close>

type_synonym gpsd_fix = location_fix

text \<open>\<open>mode in (2, 3)\<close> and \<open>int(mode)\<close>: a float equal to one of them passes too.\<close>

definition tpv_mode :: "pyval \<Rightarrow> int option" where
  "tpv_mode v = (case v of
      VInt n \<Rightarrow> if n = 2 \<or> n = 3 then Some n else None
    | VFloat f \<Rightarrow> if f = Flt (Fin 2) then Some 2 else if f = Flt (Fin 3) then Some 3 else None
    | _ \<Rightarrow> None)"

text \<open>The worse of the two error estimates; \<open>max(a, b)\<close> is \<open>a\<close> unless \<open>b > a\<close>.\<close>

definition tpv_acc :: "pyval \<Rightarrow> pyval \<Rightarrow> pyval" where
  "tpv_acc epx epy =
     (if is_num epx \<and> is_num epy then (if flt (num_val epx) (num_val epy) then epy else epx)
      else if is_num epx then epx else if is_num epy then epy else VNone)"

definition tpv_fix :: "pydict \<Rightarrow> int \<Rightarrow> real \<Rightarrow> exn + gpsd_fix" where
  "tpv_fix msg mode now =
     ebind (as_float (dget msg ''lat'')) (\<lambda>lat. ebind (as_float (dget msg ''lon'')) (\<lambda>lon.
     ebind (opt_float (dget msg ''alt'')) (\<lambda>alt.
     ebind (opt_float (tpv_acc (dget msg ''epx'') (dget msg ''epy''))) (\<lambda>acc.
     ebind (opt_float (dget msg ''speed'')) (\<lambda>spd. ebind (opt_float (dget msg ''track'')) (\<lambda>hdg.
       Inr \<lparr>f_lat = lat, f_lon = lon, f_ts = Flt (Fin now), f_alt = alt, f_acc = acc,
            f_fix = Some mode, f_spd = spd, f_hdg = hdg\<rparr>))))))"

definition parse_tpv :: "pydict \<Rightarrow> (world, gpsd_fix option) prog" where
  "parse_tpv msg = (case tpv_mode (dget msg ''mode'') of
      None \<Rightarrow> ret None
    | Some mode \<Rightarrow>
        if \<not> is_num (dget msg ''lat'') \<or> \<not> is_num (dget msg ''lon'') then ret None
        else andthen time_time (\<lambda>now.
             andthen (lift (tpv_fix msg mode now)) (\<lambda>fx. ret (Some fx))))"

section \<open>A session\<close>

type_synonym 's callback = "location_fix \<Rightarrow> 's \<Rightarrow> (world, 's) prog"

definition too_inaccurate :: "pyfloat option \<Rightarrow> location_fix \<Rightarrow> bool" where
  "too_inaccurate max_acc fx = (case (max_acc, f_acc fx) of
      (Some m, Some a) \<Rightarrow> flt m a
    | _ \<Rightarrow> False)"

definition gpsd_line :: "pyfloat option \<Rightarrow> 's callback \<Rightarrow> payload \<Rightarrow> 's \<Rightarrow> (world, 's) prog" where
  "gpsd_line max_acc cb line s = (case line of
      Inl e \<Rightarrow> if e = JSONDecodeError then ret s else raise e
    | Inr (VDict msg) \<Rightarrow>
        if dget msg ''class'' \<noteq> VStr ''TPV'' then ret s
        else andthen (parse_tpv msg) (\<lambda>found.
          case found of
            None \<Rightarrow> ret s
          | Some fx \<Rightarrow> if too_inaccurate max_acc fx then ret s
                       else catch_exception (cb fx s) (ret s))
    | Inr _ \<Rightarrow> ret s)"

text \<open>
  How a session ends once its lines are used up: the peer closes the connection, the stop event is
  found set, or it is still waiting for a line. The first line is skipped as the banner when it
  arrives in time. The outcome is a value here, since the callback's state outlives the session.
\<close>

datatype session_end = Closed_by_peer | Stop_seen | Still_open

fun session_outcome :: "session_end \<Rightarrow> (exn + unit) option" where
  "session_outcome Closed_by_peer = Some (Inl (PyExn ''ConnectionError''))"
| "session_outcome Stop_seen = Some (Inr ())"
| "session_outcome Still_open = None"

fun session_lines ::
  "pyfloat option \<Rightarrow> 's callback \<Rightarrow> payload list \<Rightarrow> session_end \<Rightarrow> 's \<Rightarrow>
     (world, 's \<times> (exn + unit) option) prog" where
  "session_lines max_acc cb [] fin s = ret (s, session_outcome fin)"
| "session_lines max_acc cb (l # ls) fin s =
     andthen (attempt (gpsd_line max_acc cb l s)) (\<lambda>out.
       case out of
         Inl e \<Rightarrow> ret (s, Some (Inl e))
       | Inr s' \<Rightarrow> session_lines max_acc cb ls fin s')"

definition gpsd_session ::
  "pyfloat option \<Rightarrow> 's callback \<Rightarrow> bool \<Rightarrow> payload list \<Rightarrow> session_end \<Rightarrow> 's \<Rightarrow>
     (world, 's \<times> (exn + unit) option) prog" where
  "gpsd_session max_acc cb banner_in_time ls fin s =
     session_lines max_acc cb (if banner_in_time then tl ls else ls) fin s"

section \<open>Reconnecting\<close>

definition RECONNECT_DELAYS :: "real list" where "RECONNECT_DELAYS = [1, 2, 5, 10, 30]"

definition reconnect_delay :: "nat \<Rightarrow> real" where
  "reconnect_delay k = RECONNECT_DELAYS ! min k (length RECONNECT_DELAYS - 1)"

text \<open>
  \<open>_run\<close>: the delays between sessions, from the outcome of each and whether the stop event was
  found set after it. A session that returns cleanly resets the counter.
\<close>

fun backoff :: "nat \<Rightarrow> ((exn + unit) \<times> bool) list \<Rightarrow> real list" where
  "backoff k [] = []"
| "backoff k ((out, stopped) # outs) =
     (let a = (case out of Inr _ \<Rightarrow> 0 | Inl _ \<Rightarrow> k)
      in if stopped \<or> out = Inl Cancelled then []
         else reconnect_delay a # backoff (Suc a) outs)"

section \<open>Lemmas\<close>

lemma reconnect_delay_range: "1 \<le> reconnect_delay n \<and> reconnect_delay n \<le> 30"
proof -
  have "reconnect_delay n \<in> set RECONNECT_DELAYS"
    unfolding reconnect_delay_def by (rule nth_mem) (simp add: RECONNECT_DELAYS_def)
  then show ?thesis by (auto simp: RECONNECT_DELAYS_def)
qed

lemma reconnect_delay_capped: "4 \<le> n \<Longrightarrow> reconnect_delay n = 30"
  by (simp add: reconnect_delay_def RECONNECT_DELAYS_def min_absorb2)

text \<open>A session returns cleanly only when the stop event is set.\<close>

lemma clean_return_means_stop:
  "session_lines max_acc cb ls fin s w = (Inr (s', Some (Inr ())), w') \<Longrightarrow> fin = Stop_seen"
proof (induction ls arbitrary: s w)
  case Nil
  then show ?case by (cases fin) simp_all
next
  case (Cons l ls)
  then show ?case by (auto simp: andthen_def attempt_def split: prod.splits sum.splits)
qed

lemma session_never_raises: "\<exists>s' o' w'. session_lines max_acc cb ls fin s w = (Inr (s', o'), w')"
proof (induction ls arbitrary: s w)
  case Nil
  show ?case by simp
next
  case (Cons l ls)
  show ?case
  proof (cases "gpsd_line max_acc cb l s w")
    case (Pair res v)
    with Cons.IH show ?thesis by (cases res) (simp_all add: andthen_def attempt_def)
  qed
qed

lemma backoff_losses:
  "list_all (\<lambda>(out, stopped). \<not> stopped \<and> (\<exists>e. out = Inl e \<and> e \<noteq> Cancelled)) outs \<Longrightarrow>
     backoff a outs = map (\<lambda>i. reconnect_delay (a + i)) [0 ..< length outs]"
proof (induction outs arbitrary: a)
  case Nil
  show ?case by simp
next
  case (Cons x outs)
  obtain out stopped where x: "x = (out, stopped)" by (cases x)
  with Cons.prems obtain e where "out = Inl e" "e \<noteq> Cancelled" "\<not> stopped" by auto
  moreover have "backoff (Suc a) outs = map (\<lambda>i. reconnect_delay (Suc a + i)) [0 ..< length outs]"
    using Cons by simp
  ultimately show ?case
    by (simp add: x upt_conv_Cons map_Suc_upt [symmetric] del: upt_Suc)
qed

end
