(* ===== verification/Migrations.thy ===== *)
theory Migrations
  imports PyValues
begin

text \<open>
  Opening the database (persistence/sqlite.py, schema.sql): the tables are created where they are
  missing, and the migrations newer than the stored version are applied. Of the schema two parts
  matter here: the versions in \<open>schema_version\<close> and the columns of \<open>gateway_snapshots\<close>. Every
  action is committed by itself: \<open>executescript\<close> runs its statements in autocommit mode and the
  version is inserted afterwards.
\<close>

record schema =
  s_versions :: "int list"
  s_snapshot_columns :: "string list option"

definition BASE_COLUMNS :: "string list" where
  "BASE_COLUMNS = [''id'', ''ts'', ''status'', ''health'']"

datatype action = Create_tables | Add_column string | Stamp int

definition MIGRATIONS :: "(int \<times> string list) list" where
  "MIGRATIONS = [(2, [''state'', ''detail'', ''since_ts''])]"

text \<open>\<open>CREATE TABLE IF NOT EXISTS\<close>; \<open>ALTER TABLE ... ADD COLUMN\<close>, which fails for a column that is there.\<close>

fun perform :: "action \<Rightarrow> schema \<Rightarrow> exn + schema" where
  "perform Create_tables s = (case s_snapshot_columns s of
      None \<Rightarrow> Inr (s\<lparr>s_snapshot_columns := Some BASE_COLUMNS\<rparr>)
    | Some _ \<Rightarrow> Inr s)"
| "perform (Add_column c) s = (case s_snapshot_columns s of
      None \<Rightarrow> Inl (PyExn ''OperationalError'')
    | Some cs \<Rightarrow> if c \<in> set cs then Inl (PyExn ''OperationalError'')
        else Inr (s\<lparr>s_snapshot_columns := Some (cs @ [c])\<rparr>))"
| "perform (Stamp v) s = Inr (s\<lparr>s_versions := s_versions s @ [v]\<rparr>)"

definition current_version :: "schema \<Rightarrow> int" where
  "current_version s = (if s_versions s = [] then 0 else Max (set (s_versions s)))"

fun pending_migrations :: "(int \<times> string list) list \<Rightarrow> int \<Rightarrow> action list" where
  "pending_migrations [] current = []"
| "pending_migrations ((version, columns) # ms) current =
     (if version > current
      then map Add_column columns @ Stamp version # pending_migrations ms version
      else pending_migrations ms current)"

definition start_up :: "schema \<Rightarrow> action list" where
  "start_up s = Create_tables #
     (let current = current_version s in
      if current = 0 then Stamp 1 # pending_migrations MIGRATIONS 1 else pending_migrations MIGRATIONS current)"

fun perform_all :: "action list \<Rightarrow> schema \<Rightarrow> exn option \<times> schema" where
  "perform_all [] s = (None, s)"
| "perform_all (a # as) s = (case perform a s of Inl e \<Rightarrow> (Some e, s) | Inr s' \<Rightarrow> perform_all as s')"

text \<open>\<open>Store(db_path)\<close>, and the same when the process dies after some of the actions.\<close>

definition open_store :: "schema \<Rightarrow> exn option \<times> schema" where
  "open_store s = perform_all (start_up s) s"

definition crashed_open :: "nat \<Rightarrow> schema \<Rightarrow> schema" where
  "crashed_open n s = snd (perform_all (take n (start_up s)) s)"

definition latest :: "schema \<Rightarrow> bool" where
  "latest s \<longleftrightarrow> current_version s = 2 \<and> s_snapshot_columns s = Some (BASE_COLUMNS @ [''state'', ''detail'', ''since_ts''])"

text \<open>A database no one opened before, one from before versioning, and one at version 1.\<close>

definition old_schema :: "schema \<Rightarrow> bool" where
  "old_schema s \<longleftrightarrow> (s_versions s = [] \<and> s_snapshot_columns s \<in> {None, Some BASE_COLUMNS}) \<or>
     (s_versions s = [1] \<and> s_snapshot_columns s = Some BASE_COLUMNS)"

section \<open>Lemmas\<close>

lemma old_schemas:
  "old_schema s \<longleftrightarrow> s = \<lparr>s_versions = [], s_snapshot_columns = None\<rparr> \<or>
     s = \<lparr>s_versions = [], s_snapshot_columns = Some BASE_COLUMNS\<rparr> \<or>
     s = \<lparr>s_versions = [1], s_snapshot_columns = Some BASE_COLUMNS\<rparr>"
  by (cases s) (auto simp: old_schema_def)

lemmas start_up_defs = start_up_def current_version_def MIGRATIONS_def Let_def

lemma open_old: "old_schema s \<Longrightarrow> \<exists>s'. open_store s = (None, s') \<and> latest s'"
  unfolding old_schemas
  by (elim disjE) (simp_all add: open_store_def start_up_defs BASE_COLUMNS_def latest_def)

lemma open_latest: "latest s \<Longrightarrow> open_store s = (None, s)"
  by (simp add: latest_def open_store_def start_up_def MIGRATIONS_def)

lemma crashed_open_cases:
  assumes "length (start_up s) \<le> 6"
  shows "\<exists>k \<in> {0, 1, 2, 3, 4, 5, 6}. crashed_open n s = crashed_open k s"
proof (cases "n \<le> 6")
  case True
  then have "n \<in> {0, 1, 2, 3, 4, 5, 6}" by auto
  then show ?thesis by blast
next
  case False
  with assms have "crashed_open n s = crashed_open 6 s" by (simp add: crashed_open_def)
  then show ?thesis by blast
qed

text \<open>A column of the migration is there and its version is not.\<close>

definition wedged :: "schema \<Rightarrow> bool" where
  "wedged s \<longleftrightarrow> current_version s < 2 \<and>
     (case s_snapshot_columns s of None \<Rightarrow> False | Some cs \<Rightarrow> ''state'' \<in> set cs)"

lemma start_up_length: "old_schema s \<Longrightarrow> length (start_up s) \<le> 6"
  unfolding old_schemas by (elim disjE) (simp_all add: start_up_defs)

definition crash_checked :: "nat \<Rightarrow> schema \<Rightarrow> bool" where
  "crash_checked n s = (let c = crashed_open n s; o' = open_store c in
     if wedged c then fst o' = Some (PyExn ''OperationalError'') \<and> snd o' = c
     else fst o' = None \<and> latest (snd o'))"

lemma crash_checked_all:
  "list_all (\<lambda>s. list_all (\<lambda>n. crash_checked n s) [0, 1, 2, 3, 4, 5, 6])
     [\<lparr>s_versions = [], s_snapshot_columns = None\<rparr>, \<lparr>s_versions = [], s_snapshot_columns = Some BASE_COLUMNS\<rparr>,
      \<lparr>s_versions = [1], s_snapshot_columns = Some BASE_COLUMNS\<rparr>]"
  by code_simp

lemma open_after_crash:
  assumes "old_schema s"
  shows "if wedged (crashed_open n s)
     then open_store (crashed_open n s) = (Some (PyExn ''OperationalError''), crashed_open n s)
     else \<exists>t. open_store (crashed_open n s) = (None, t) \<and> latest t"
proof -
  obtain k where k: "k \<in> {0, 1, 2, 3, 4, 5, 6}" "crashed_open n s = crashed_open k s"
    using crashed_open_cases [OF start_up_length [OF assms]] by blast
  have "crash_checked k s" using crash_checked_all k(1) assms unfolding old_schemas by auto
  then show ?thesis
    unfolding k(2) crash_checked_def Let_def by (metis (full_types) prod.collapse)
qed

end
