(* ===== verification/Cot.thy ===== *)
theory Cot
  imports Calendar
begin

text \<open>
  tak/cot.py: the Cursor-on-Target events, and what it uses of \<open>xml.etree.ElementTree\<close> and of
  Python's number formats. Bytes are characters here; text is encoded as UTF-8. A reader of the
  XML written here shows that nothing in a node id, call sign or remark can change an event's
  structure.
\<close>

section \<open>Number formats\<close>

text \<open>\<open>f"{x:.df}"\<close> for positive \<open>d\<close>\<close>

definition fixed_point :: "nat \<Rightarrow> pyfloat \<Rightarrow> string" where
  "fixed_point d f = (case f of
      NaN \<Rightarrow> ''nan''
    | Flt PInf \<Rightarrow> ''inf''
    | Flt MInf \<Rightarrow> ''-inf''
    | Flt (Fin a) \<Rightarrow>
        (let n = round_even (\<bar>a\<bar> * 10 ^ d) in
         (if a < 0 then ''-'' else []) @ str_int (n div 10 ^ d) @ ''.'' @ pad d (n mod 10 ^ d)))"

definition isoz :: "int \<Rightarrow> string" where
  "isoz us = (let t = civil_time us in
     date_text t @ ''T'' @ clock_text t @ ''.'' @ pad 3 (dt_micro t div 1000) @ ''Z'')"

section \<open>XML\<close>

text \<open>An element: tag, attributes in their order, text and children.\<close>

datatype xml = Elem (xml_tag: string) (xml_attrs: "(string \<times> string) list")
  (xml_body: "string option") (xml_kids: "xml list")

definition escape_char :: "char \<Rightarrow> string" where
  "escape_char c =
     (if c = CHR ''&'' then ''&amp;'' else if c = CHR ''<'' then ''&lt;''
      else if c = CHR ''>'' then ''&gt;'' else [c])"

definition escape_attrib_char :: "char \<Rightarrow> string" where
  "escape_attrib_char c =
     (if of_char c = (34 :: nat) then ''&quot;'' else if of_char c = (13 :: nat) then ''&#13;''
      else if of_char c = (10 :: nat) then ''&#10;'' else if of_char c = (9 :: nat) then ''&#09;''
      else escape_char c)"

definition escape_cdata :: "string \<Rightarrow> string" where
  "escape_cdata s = concat (map escape_char s)"

definition escape_attrib :: "string \<Rightarrow> string" where
  "escape_attrib s = concat (map escape_attrib_char s)"

abbreviation dquote :: string where "dquote \<equiv> [char_of (34 :: nat)]"

definition attr_text :: "string \<times> string \<Rightarrow> string" where
  "attr_text kv = '' '' @ fst kv @ ''='' @ dquote @ escape_attrib (snd kv) @ dquote"

fun xml_text :: "xml \<Rightarrow> string" where
  "xml_text (Elem tag as body kids) =
     ''<'' @ tag @ concat (map attr_text as) @
     (if (body = None \<or> body = Some []) \<and> kids = [] then '' />''
      else ''>'' @ (case body of None \<Rightarrow> [] | Some t \<Rightarrow> escape_cdata t) @
           concat (map xml_text kids) @ ''</'' @ tag @ ''>'')"

definition utf8_char :: "char \<Rightarrow> string" where
  "utf8_char c = (let n = of_char c :: nat in
     if n < 128 then [c] else [char_of (192 + n div 64), char_of (128 + n mod 64)])"

definition utf8 :: "string \<Rightarrow> string" where
  "utf8 s = concat (map utf8_char s)"

definition newline :: char where "newline = CHR 0x0A"

definition xml_bytes :: "xml \<Rightarrow> string" where
  "xml_bytes x = utf8 (xml_text x) @ [newline]"

section \<open>Events\<close>

record cot_args =
  c_uid :: string
  c_type :: string
  c_lat :: pyfloat
  c_lon :: pyfloat
  c_time :: int
  c_stale_after :: int
  c_callsign :: "string option"
  c_alt :: "pyfloat option"
  c_speed :: "pyfloat option"
  c_course :: "pyfloat option"
  c_acc :: "pyfloat option"
  c_remarks :: "string option"

definition unknown_m :: string where "unknown_m = ''9999999.0''"

definition opt_m :: "pyfloat option \<Rightarrow> string" where
  "opt_m v = (case v of None \<Rightarrow> unknown_m | Some f \<Rightarrow> fixed_point 1 f)"

definition event_attrs :: "string \<Rightarrow> string \<Rightarrow> int \<Rightarrow> int \<Rightarrow> (string \<times> string) list" where
  "event_attrs uid cot_type time stale =
     [(''version'', ''2.0''), (''uid'', uid), (''type'', cot_type), (''how'', ''m-g''),
      (''time'', isoz time), (''start'', isoz time), (''stale'', isoz stale)]"

definition point_attrs :: "pyfloat \<Rightarrow> pyfloat \<Rightarrow> string \<Rightarrow> string \<Rightarrow> (string \<times> string) list" where
  "point_attrs lat lon hae ce =
     [(''lat'', fixed_point 7 lat), (''lon'', fixed_point 7 lon), (''hae'', hae), (''ce'', ce),
      (''le'', unknown_m)]"

definition track_attrs :: "pyfloat option \<Rightarrow> pyfloat option \<Rightarrow> (string \<times> string) list" where
  "track_attrs speed course =
     (case speed of None \<Rightarrow> [] | Some f \<Rightarrow> [(''speed'', fixed_point 2 f)]) @
     (case course of None \<Rightarrow> [] | Some f \<Rightarrow> [(''course'', fixed_point 1 f)])"

definition detail_kids :: "cot_args \<Rightarrow> xml list" where
  "detail_kids c =
     (case c_callsign c of
        Some s \<Rightarrow> if s = [] then [] else [Elem ''contact'' [(''callsign'', s)] None []]
      | None \<Rightarrow> []) @
     (if c_speed c = None \<and> c_course c = None then []
      else [Elem ''track'' (track_attrs (c_speed c) (c_course c)) None []]) @
     (case c_remarks c of
        Some r \<Rightarrow> if r = [] then [] else [Elem ''remarks'' [] (Some r) []]
      | None \<Rightarrow> [])"

text \<open>\<open>time_dt + timedelta(seconds=s)\<close> of a time in microseconds\<close>

definition add_seconds :: "int \<Rightarrow> int \<Rightarrow> exn + int" where
  "add_seconds us s = (if datetime_ok (us + s * 1000000) then Inr (us + s * 1000000)
     else Inl (PyExn ''OverflowError''))"

definition cot_tree :: "cot_args \<Rightarrow> int \<Rightarrow> xml" where
  "cot_tree c stale =
     Elem ''event'' (event_attrs (c_uid c) (c_type c) (c_time c) stale) None
       [Elem ''point'' (point_attrs (c_lat c) (c_lon c) (opt_m (c_alt c)) (opt_m (c_acc c))) None [],
        Elem ''detail'' [] None (detail_kids c)]"

definition build_cot :: "cot_args \<Rightarrow> exn + string" where
  "build_cot c = ebind (add_seconds (c_time c) (c_stale_after c)) (\<lambda>stale.
     Inr (xml_bytes (cot_tree c stale)))"

definition drop_tree :: "string \<Rightarrow> string \<Rightarrow> pyfloat \<Rightarrow> pyfloat \<Rightarrow> int \<Rightarrow> int \<Rightarrow> xml" where
  "drop_tree uid cot_type lat lon now stale =
     Elem ''event'' (event_attrs uid cot_type now stale) None
       [Elem ''point'' (point_attrs lat lon unknown_m unknown_m) None [],
        Elem ''detail'' [] None []]"

definition build_drop_cot :: "string \<Rightarrow> string \<Rightarrow> pyfloat \<Rightarrow> pyfloat \<Rightarrow> int \<Rightarrow> exn + string" where
  "build_drop_cot uid cot_type lat lon now = ebind (add_seconds now (- 1)) (\<lambda>stale.
     Inr (xml_bytes (drop_tree uid cot_type lat lon now stale)))"

end
