(* ===== verification/TakSink.thy ===== *)
theory TakSink
  imports Prelude
begin

text \<open>
  tak/takserver.py: the outbound queue of \<open>TakSink\<close> and the state of its connection. Its sessions
  run beside the bridge's other tasks and are steps of the relation in TakSystem; its reconnect
  delays are those of Gpsd.
\<close>

section \<open>The queue\<close>

definition QUEUE_CAP :: nat where "QUEUE_CAP = 256"

text \<open>\<open>asyncio.Queue(maxsize=_QUEUE_CAP)\<close>: \<open>put_nowait\<close> and \<open>get_nowait\<close>, \<open>None\<close> for \<open>QueueFull\<close> and
  \<open>QueueEmpty\<close>.\<close>

definition put_nowait :: "'a list \<Rightarrow> 'a \<Rightarrow> 'a list option" where
  "put_nowait q x = (if length q < QUEUE_CAP then Some (q @ [x]) else None)"

definition get_nowait :: "'a list \<Rightarrow> ('a \<times> 'a list) option" where
  "get_nowait q = (case q of [] \<Rightarrow> None | x # xs \<Rightarrow> Some (x, xs))"

text \<open>\<open>TakSink.send\<close>\<close>

definition sink_send :: "'a list \<Rightarrow> 'a \<Rightarrow> 'a list" where
  "sink_send q x = (case put_nowait q x of
      Some q' \<Rightarrow> q'
    | None \<Rightarrow>
        (let q1 = (case get_nowait q of None \<Rightarrow> q | Some (_, q') \<Rightarrow> q') in
         case put_nowait q1 x of Some q' \<Rightarrow> q' | None \<Rightarrow> q1))"

text \<open>The draining of the backlog: \<open>get_nowait\<close> until the queue is empty, with the number taken.\<close>

function drain :: "nat \<Rightarrow> 'a list \<Rightarrow> nat \<times> 'a list" where
  "drain n q = (case get_nowait q of None \<Rightarrow> (n, q) | Some (x, q') \<Rightarrow> drain (Suc n) q')"
  by auto
termination
  by (relation "measure (length \<circ> snd)") (auto simp: get_nowait_def split: list.splits)

declare drain.simps [simp del]

text \<open>A failed write puts the event back if there is room, at the end of the queue.\<close>

definition requeue :: "'a list \<Rightarrow> 'a \<Rightarrow> 'a list" where
  "requeue q x = (case put_nowait q x of Some q' \<Rightarrow> q' | None \<Rightarrow> q)"

section \<open>A bounded queue that forgets its oldest entries\<close>

definition newest :: "nat \<Rightarrow> 'a list \<Rightarrow> 'a list" where
  "newest n xs = drop (length xs - n) xs"

locale lossy_queue =
  fixes send :: "'a list \<Rightarrow> 'a \<Rightarrow> 'a list" and cap :: nat
  assumes send_newest: "length q \<le> cap \<Longrightarrow> send q x = newest cap (q @ [x])"
begin

lemma send_bounded: "length q \<le> cap \<Longrightarrow> length (send q x) \<le> cap"
  by (simp add: send_newest newest_def)

lemma send_set: "length q \<le> cap \<Longrightarrow> set (send q x) \<subseteq> insert x (set q)"
  using set_drop_subset [of "length (q @ [x]) - cap" "q @ [x]"] by (auto simp: send_newest newest_def)

lemma send_room: "length q < cap \<Longrightarrow> send q x = q @ [x]"
  by (simp add: send_newest newest_def)

lemma send_last: "0 < cap \<Longrightarrow> length q \<le> cap \<Longrightarrow> send q x \<noteq> [] \<and> last (send q x) = x"
  by (simp add: send_newest newest_def last_drop)

lemma newest_snoc: "newest cap (newest cap xs @ [x]) = newest cap (xs @ [x])"
  unfolding newest_def by (cases "cap = 0"; cases "cap \<le> length xs") (auto simp: Suc_diff_le)

lemma sends_newest:
  "length q \<le> cap \<Longrightarrow> foldl send q xs = newest cap (q @ xs)"
proof (induction xs rule: rev_induct)
  case Nil
  then show ?case by (simp add: newest_def)
next
  case (snoc x xs)
  have "length (newest cap (q @ xs)) \<le> cap" by (simp add: newest_def)
  with snoc show ?case by (simp add: send_newest newest_snoc [of "q @ xs", simplified])
qed

end

interpretation sink: lossy_queue sink_send QUEUE_CAP
proof
  fix q :: "'a list" and x
  assume "length q \<le> QUEUE_CAP"
  then show "sink_send q x = newest QUEUE_CAP (q @ [x])"
    by (cases q) (auto simp: sink_send_def put_nowait_def get_nowait_def newest_def QUEUE_CAP_def)
qed

lemma drain_all: "drain n q = (n + length q, [])"
  by (induction q arbitrary: n; subst drain.simps) (simp_all add: get_nowait_def)

lemma requeue_bounded: "length q \<le> QUEUE_CAP \<Longrightarrow> length (requeue q x) \<le> QUEUE_CAP"
  by (simp add: requeue_def put_nowait_def)

lemma requeue_set: "set (requeue q x) \<subseteq> insert x (set q)"
  by (auto simp: requeue_def put_nowait_def)

lemma requeue_last: "length q < QUEUE_CAP \<Longrightarrow> requeue q x = q @ [x]"
  by (simp add: requeue_def put_nowait_def)

end
