(* ===== verification/Bridge.thy ===== *)
theory Bridge
  imports Cot TakSink Contract Handlers
begin

text \<open>
  tak/bridge.py: the state the bridge keeps of the retained MQTT topics, and the Cursor-on-Target
  events it makes of it. None of these coroutines suspends before its end (\<open>send\<close> puts into a
  queue without waiting), so each runs as one step between the other tasks.

  \<open>br_clock\<close> is what successive readings of the wall clock yield; \<open>br_link\<close>, \<open>br_was_connected\<close>
  and \<open>br_wire\<close> belong to the sink, the last being the events handed to \<open>writer.write\<close>, one list for each
  connection, the newest first. What the server gets of a connection is some prefix of their bytes.
\<close>

section \<open>State\<close>

datatype link = Down | Up | Writing string

record bridge =
  br_clock :: "nat \<Rightarrow> real"
  br_tick :: nat
  br_state :: "(string \<times> pydict) list"
  br_offline :: "(string \<times> real) list"
  br_queue :: "string list"
  br_was_connected :: bool
  br_link :: link
  br_wire :: "string list list"

text \<open>
  The TAK section of the configuration. The call sign template is a format string of the
  configuration; \<open>t_callsign\<close> is \<open>callsign_template.format(id=...)\<close>.
\<close>

record tak_cfg =
  t_callsign :: "string \<Rightarrow> exn + string"
  t_field_type :: string
  t_base_type :: string
  t_stale_after :: int
  t_remove_after :: int

definition BASE_KEY :: string where "BASE_KEY = ''__base__''"

definition node_slash :: string where "node_slash = NODE_PREFIX @ ''/''"

definition br_time :: "(bridge, real) prog" where
  "br_time = (\<lambda>w. (Inr (br_clock w (br_tick w)), w\<lparr>br_tick := Suc (br_tick w)\<rparr>))"

definition send_event :: "string \<Rightarrow> (bridge, unit) prog" where
  "send_event ev = modify (\<lambda>w. w\<lparr>br_queue := sink_send (br_queue w) ev\<rparr>)"

section \<open>Topics\<close>

definition startswith :: "string \<Rightarrow> string \<Rightarrow> bool" where
  "startswith s p \<longleftrightarrow> take (length p) s = p"

definition endswith :: "string \<Rightarrow> string \<Rightarrow> bool" where
  "endswith s p \<longleftrightarrow> length p \<le> length s \<and> drop (length s - length p) s = p"

definition extract_node_id :: "string \<Rightarrow> string \<Rightarrow> string option" where
  "extract_node_id topic suf =
     (if \<not> endswith topic suf then None
      else let head = take (length topic - length suf) topic in
        if \<not> startswith head node_slash then None
        else let node_id = drop (length node_slash) head in
          if node_id = [] \<or> CHR ''/'' \<in> set node_id then None else Some node_id)"

text \<open>
  \<open>topic.split("/")[2]\<close> of a topic that starts with \<open>mc/node/\<close> is the text after that up to the
  next slash. The last case is not reached: other topics are dropped before.
\<close>

definition key_for :: "string \<Rightarrow> pydict \<Rightarrow> string" where
  "key_for topic data =
     (if topic = BASE_LOCATION then BASE_KEY
      else if startswith topic node_slash then takeWhile (\<lambda>c. c \<noteq> CHR ''/'') (drop (length node_slash) topic)
      else (case dget_or data ''id'' (VStr []) of VStr s \<Rightarrow> s | _ \<Rightarrow> []))"

section \<open>Merging\<close>

definition dict_update :: "pydict \<Rightarrow> pydict \<Rightarrow> pydict" where
  "dict_update d kvs = foldl (\<lambda>d (k, v). AList.update k v d) d kvs"

definition merge_state :: "string \<Rightarrow> pydict \<Rightarrow> string \<Rightarrow> (bridge, unit) prog" where
  "merge_state key data kind =
     andthen br_time (\<lambda>now. modify (\<lambda>w.
       let cur = (case map_of (br_state w) key of None \<Rightarrow> [(''_kind'', VStr kind)] | Some d \<Rightarrow> d);
           cur' = dict_update cur (filter (\<lambda>(k, v). \<not> is_none v) data)
       in w\<lparr>br_state := AList.update key (AList.update ''_updated'' (VFloat (Flt (Fin now))) cur') (br_state w)\<rparr>))"

definition update_offline_tracking :: "string \<Rightarrow> pydict \<Rightarrow> (bridge, unit) prog" where
  "update_offline_tracking node_id data =
     (if dget data ''online'' = VBool True then
        modify (\<lambda>w. w\<lparr>br_offline := AList.delete node_id (br_offline w)\<rparr>)
      else if dget data ''online'' = VBool False then
        andthen (gets (\<lambda>w. map_of (br_offline w) node_id)) (\<lambda>since.
          case since of
            Some _ \<Rightarrow> ret ()
          | None \<Rightarrow> andthen br_time (\<lambda>now. modify (\<lambda>w. w\<lparr>br_offline := AList.update node_id now (br_offline w)\<rparr>)))
      else ret ())"

section \<open>Events\<close>

definition uid_for :: "string \<Rightarrow> string" where
  "uid_for key = ''meshcore.'' @ (if key = BASE_KEY then ''base'' else key)"

definition cot_type_for :: "tak_cfg \<Rightarrow> string \<Rightarrow> string" where
  "cot_type_for cfg key = (if key = BASE_KEY then t_base_type cfg else t_field_type cfg)"

definition callsign_for :: "tak_cfg \<Rightarrow> string \<Rightarrow> exn + string" where
  "callsign_for cfg key = (if key = BASE_KEY then Inr ''MC-base'' else t_callsign cfg (take 6 key))"

text \<open>
  \<open>datetime.fromtimestamp(v, tz=utc)\<close> in microseconds. For a time stamp beyond the C library's range
  the class of the exception is another one; all callers treat them alike.
\<close>

definition utc_micros :: "pyval \<Rightarrow> exn + int" where
  "utc_micros v = (case num_val v of
      NaN \<Rightarrow> Inl (PyExn ''ValueError'')
    | Flt (Fin t) \<Rightarrow> (let us = round_even (t * 1000000) in
        if datetime_ok us then Inr us else Inl (PyExn ''ValueError''))
    | Flt _ \<Rightarrow> Inl (PyExn ''OverflowError''))"

definition now_utc :: "(bridge, int) prog" where
  "now_utc = andthen br_time (\<lambda>t. lift (utc_micros (VFloat (Flt (Fin t)))))"

definition event_time :: "pyval \<Rightarrow> (bridge, int) prog" where
  "event_time ts = (if is_num ts then lift (utc_micros ts) else now_utc)"

definition int_remark :: "string \<Rightarrow> string \<Rightarrow> pyval \<Rightarrow> exn + string list" where
  "int_remark label unit_text v =
     (if is_num v then ebind (int_of v) (\<lambda>n. Inr [label @ ''='' @ str_int n @ unit_text]) else Inr [])"

definition snr_remark :: "pyval \<Rightarrow> exn + string list" where
  "snr_remark v = (if is_num v then ebind (as_float v) (\<lambda>f. Inr [''snr='' @ fixed_point 1 f]) else Inr [])"

definition remarks_for :: "string \<Rightarrow> pydict \<Rightarrow> exn + string option" where
  "remarks_for key r =
     (if key = BASE_KEY then Inr None else
      ebind (int_remark ''last_seen_age'' ''s'' (dget r ''last_seen_age_s'')) (\<lambda>a.
      ebind (int_remark ''battery'' ''%'' (dget r ''bat_pct'')) (\<lambda>b.
      ebind (int_remark ''rssi'' [] (dget r ''rssi'')) (\<lambda>c.
      ebind (snr_remark (dget r ''snr'')) (\<lambda>d.
        Inr (if a @ b @ c @ d = [] then None else Some (join ''; '' (a @ b @ c @ d))))))))"

definition cot_for :: "tak_cfg \<Rightarrow> string \<Rightarrow> pydict \<Rightarrow> string \<Rightarrow> int \<Rightarrow> string option \<Rightarrow> exn + cot_args" where
  "cot_for cfg key r callsign time remarks =
     ebind (as_float (dget r ''lat'')) (\<lambda>lat. ebind (as_float (dget r ''lon'')) (\<lambda>lon.
     ebind (opt_float (dget r ''alt'')) (\<lambda>alt. ebind (opt_float (dget r ''spd'')) (\<lambda>spd.
     ebind (opt_float (dget r ''hdg'')) (\<lambda>hdg. ebind (opt_float (dget r ''acc'')) (\<lambda>acc.
       Inr \<lparr>c_uid = uid_for key, c_type = cot_type_for cfg key, c_lat = lat, c_lon = lon,
            c_time = time, c_stale_after = t_stale_after cfg, c_callsign = Some callsign,
            c_alt = alt, c_speed = spd, c_course = hdg, c_acc = acc, c_remarks = remarks\<rparr>))))))"

definition has_position :: "pydict \<Rightarrow> bool" where
  "has_position r \<longleftrightarrow> is_num (dget r ''lat'') \<and> is_num (dget r ''lon'')"

definition publish_one :: "tak_cfg \<Rightarrow> string \<Rightarrow> (bridge, unit) prog" where
  "publish_one cfg key =
     andthen (gets (\<lambda>w. map_of (br_state w) key)) (\<lambda>found.
       case found of
         None \<Rightarrow> ret ()
       | Some r \<Rightarrow>
           if r = [] \<or> \<not> has_position r then ret ()
           else andthen (lift (callsign_for cfg key)) (\<lambda>callsign.
                andthen (event_time (dget r ''ts'')) (\<lambda>time.
                andthen (lift (remarks_for key r)) (\<lambda>remarks.
                andthen (lift (cot_for cfg key r callsign time remarks)) (\<lambda>c.
                andthen (lift (build_cot c)) send_event)))))"

definition publish_drop :: "tak_cfg \<Rightarrow> string \<Rightarrow> (bridge, unit) prog" where
  "publish_drop cfg key =
     andthen (gets (\<lambda>w. map_of (br_state w) key)) (\<lambda>found.
       case found of
         None \<Rightarrow> ret ()
       | Some r \<Rightarrow>
           if r = [] \<or> \<not> has_position r then ret ()
           else andthen (lift (as_float (dget r ''lat''))) (\<lambda>lat.
                andthen (lift (as_float (dget r ''lon''))) (\<lambda>lon.
                andthen now_utc (\<lambda>now.
                andthen (lift (build_drop_cot (uid_for key) (cot_type_for cfg key) lat lon now)) send_event))))"

fun publish_keys :: "tak_cfg \<Rightarrow> string list \<Rightarrow> (bridge, unit) prog" where
  "publish_keys cfg [] = ret ()"
| "publish_keys cfg (k # ks) = andthen (publish_one cfg k) (\<lambda>_. publish_keys cfg ks)"

definition republish_all :: "tak_cfg \<Rightarrow> (bridge, unit) prog" where
  "republish_all cfg = andthen (gets (\<lambda>w. map fst (br_state w))) (publish_keys cfg)"

section \<open>Eviction\<close>

fun evict_nodes :: "tak_cfg \<Rightarrow> string list \<Rightarrow> (bridge, unit) prog" where
  "evict_nodes cfg [] = ret ()"
| "evict_nodes cfg (k # ks) =
     andthen (publish_drop cfg k) (\<lambda>_.
     andthen (modify (\<lambda>w. w\<lparr>br_state := AList.delete k (br_state w),
                            br_offline := AList.delete k (br_offline w)\<rparr>)) (\<lambda>_.
       evict_nodes cfg ks))"

definition overdue :: "int \<Rightarrow> real \<Rightarrow> (string \<times> real) list \<Rightarrow> string list" where
  "overdue threshold now off = map fst (filter (\<lambda>(k, since). of_int threshold \<le> now - since) off)"

definition evict_long_offline :: "tak_cfg \<Rightarrow> (bridge, unit) prog" where
  "evict_long_offline cfg =
     (if t_remove_after cfg \<le> 0 then ret ()
      else andthen br_time (\<lambda>now.
           andthen (gets (\<lambda>w. overdue (t_remove_after cfg) now (br_offline w))) (evict_nodes cfg)))"

definition heartbeat_tick :: "tak_cfg \<Rightarrow> (bridge, unit) prog" where
  "heartbeat_tick cfg = andthen (evict_long_offline cfg) (\<lambda>_. republish_all cfg)"

section \<open>Messages\<close>

text \<open>A message of the subscription: its topic and the outcome of decoding its payload.\<close>

definition handle_node :: "string \<Rightarrow> pydict \<Rightarrow> bool \<Rightarrow> (bridge, unit) prog" where
  "handle_node node_id data with_state =
     andthen (merge_state node_id data ''node'') (\<lambda>_.
       if with_state then update_offline_tracking node_id data else ret ())"

definition handle_mqtt_message :: "tak_cfg \<Rightarrow> string \<times> (exn + pyval) \<Rightarrow> (bridge, unit) prog" where
  "handle_mqtt_message cfg msg = (case msg of (topic, decoded) \<Rightarrow>
     (case decoded of
        Inl e \<Rightarrow> if e = PyExn ''UnicodeDecodeError'' \<or> e = PyExn ''JSONDecodeError'' then ret () else raise e
      | Inr (VDict data) \<Rightarrow>
          if topic = BASE_LOCATION then
            andthen (merge_state BASE_KEY data ''base'') (\<lambda>_. publish_one cfg (key_for topic data))
          else if startswith topic node_slash \<and> endswith topic ''/location'' then
            andthen (case extract_node_id topic ''/location'' of
                None \<Rightarrow> ret () | Some n \<Rightarrow> handle_node n data False) (\<lambda>_.
              publish_one cfg (key_for topic data))
          else if startswith topic node_slash \<and> endswith topic ''/state'' then
            andthen (case extract_node_id topic ''/state'' of
                None \<Rightarrow> ret () | Some n \<Rightarrow> handle_node n data True) (\<lambda>_.
              publish_one cfg (key_for topic data))
          else ret ()
      | Inr _ \<Rightarrow> ret ()))"

text \<open>
  \<open>_mqtt_loop\<close> over the messages of successive connections: an exception ends the connection, and
  after a pause the next one starts with what is retained on the broker.
\<close>

fun mqtt_session :: "tak_cfg \<Rightarrow> (string \<times> (exn + pyval)) list \<Rightarrow> (bridge, unit) prog" where
  "mqtt_session cfg [] = ret ()"
| "mqtt_session cfg (m # ms) = andthen (handle_mqtt_message cfg m) (\<lambda>_. mqtt_session cfg ms)"

fun mqtt_loop :: "tak_cfg \<Rightarrow> (string \<times> (exn + pyval)) list list \<Rightarrow> (bridge, unit) prog" where
  "mqtt_loop cfg [] = ret ()"
| "mqtt_loop cfg (ms # sessions) =
     andthen (catch_exception (mqtt_session cfg ms) (ret ())) (\<lambda>_. mqtt_loop cfg sessions)"

end
