(* ===== verification/Config.thy ===== *)
theory Config
  imports Gpsd Migrations Bridge
begin

text \<open>
  config.py: the configuration with its defaults, what \<open>Service.__init__\<close> and \<open>Bridge.__init__\<close>
  make of it (transport/service.py, tak/bridge.py), the choice of the base location source, and the
  commands \<open>initdb\<close> and \<open>purge\<close> (cli.py). Reading YAML and the environment is the library's, and
  an argument here. Of the fields that only name files, hosts and accounts
  those are kept that the code passes on.
\<close>

section \<open>The sections of the file\<close>

record mqtt_config =
  mq_host :: string
  mq_port :: int
  mq_username :: "string option"
  mq_password :: "string option"
  mq_client_id :: string
  mq_qos :: int

definition default_mqtt :: mqtt_config where
  "default_mqtt = \<lparr>mq_host = ''localhost'', mq_port = 1883, mq_username = None, mq_password = None,
     mq_client_id = ''meshcore-rpc-services'', mq_qos = 1\<rparr>"

definition response_topic :: "string \<Rightarrow> exn + string" where
  "response_topic node_id = rpc_response_topic node_id"

record timeout_config =
  tc_default_s :: int
  tc_min_s :: int
  tc_max_s :: int
  tc_per_type_default_s :: "string \<rightharpoonup> int"

definition default_timeouts :: timeout_config where
  "default_timeouts = \<lparr>tc_default_s = 30, tc_min_s = 1, tc_max_s = 300, tc_per_type_default_s = Map.empty\<rparr>"

record retention_config =
  rc_days :: int
  rc_interval_s :: pyfloat

definition default_retention :: retention_config where
  "default_retention = \<lparr>rc_days = 30, rc_interval_s = Flt (Fin 3600)\<rparr>"

datatype base_source = Static | Gpsd | Mqtt

record base_config =
  bc_source :: base_source
  bc_static_lat :: "pyfloat option"
  bc_static_lon :: "pyfloat option"
  bc_gpsd_host :: string
  bc_gpsd_port :: int
  bc_publish_interval_s :: pyfloat
  bc_max_acc_m :: "pyfloat option"

definition default_base :: base_config where
  "default_base = \<lparr>bc_source = Static, bc_static_lat = None, bc_static_lon = None,
     bc_gpsd_host = ''127.0.0.1'', bc_gpsd_port = 2947, bc_publish_interval_s = Flt (Fin 30),
     bc_max_acc_m = None\<rparr>"

record service_config =
  sc_db_path :: string
  sc_log_level :: string
  sc_timeouts :: timeout_config
  sc_retention :: retention_config
  sc_base :: base_config

definition default_service :: service_config where
  "default_service = \<lparr>sc_db_path = ''./data/meshcore_rpc_services.sqlite3'', sc_log_level = ''INFO'',
     sc_timeouts = default_timeouts, sc_retention = default_retention, sc_base = default_base\<rparr>"

record tak_server_config =
  ts_host :: string
  ts_port :: int

definition default_tak_server :: tak_server_config where
  "default_tak_server = \<lparr>ts_host = ''127.0.0.1'', ts_port = 8087\<rparr>"

record tak_bridge_config =
  tb_mqtt_client_id :: string
  tb_server :: tak_server_config
  tb_callsign_template :: string
  tb_field_node_cot_type :: string
  tb_base_cot_type :: string
  tb_publish_interval_s :: pyfloat
  tb_stale_after_s :: int
  tb_remove_after_offline_s :: int

definition default_tak :: tak_bridge_config where
  "default_tak = \<lparr>tb_mqtt_client_id = ''meshcore-tak-bridge'', tb_server = default_tak_server,
     tb_callsign_template = ''MC-{id}'', tb_field_node_cot_type = ''a-f-G-U-C'',
     tb_base_cot_type = ''a-f-G-U-C-I'', tb_publish_interval_s = Flt (Fin 10), tb_stale_after_s = 300,
     tb_remove_after_offline_s = 600\<rparr>"

record app_config =
  ac_mqtt :: mqtt_config
  ac_service :: service_config
  ac_tak :: tak_bridge_config

definition default_app :: app_config where
  "default_app = \<lparr>ac_mqtt = default_mqtt, ac_service = default_service, ac_tak = default_tak\<rparr>"

text \<open>
  \<open>AppConfig.load\<close>: \<open>read\<close> is the file system with the YAML parser, \<open>None\<close> for a path that does not
  exist, and \<open>settings\<close> the construction of the settings from the file's mapping and the environment.
\<close>

definition app_load ::
  "(pydict \<Rightarrow> exn + app_config) \<Rightarrow> (string \<Rightarrow> (exn + pyval) option) \<Rightarrow> string option \<Rightarrow> exn + app_config" where
  "app_load settings read path =
     ebind (case path of
         None \<Rightarrow> Inr (VDict [])
       | Some p \<Rightarrow> if p = [] then Inr (VDict []) else (case read p of
           None \<Rightarrow> Inr (VDict [])
         | Some (Inl e) \<Rightarrow> Inl e
         | Some (Inr v) \<Rightarrow> Inr (py_or v (VDict []))))
       (\<lambda>data. case data of VDict d \<Rightarrow> settings d | _ \<Rightarrow> Inl (PyExn ''TypeError''))"

section \<open>Building the service\<close>

definition policy_of :: "timeout_config \<Rightarrow> timeout_policy" where
  "policy_of tc = \<lparr>default_s = tc_default_s tc, min_s = tc_min_s tc, max_s = tc_max_s tc,
     per_type_default_s = tc_per_type_default_s tc\<rparr>"

text \<open>\<open>Service.__init__\<close> after the database has been opened: only the sweeper checks its arguments.\<close>

definition service_init :: "app_config \<Rightarrow> exn + (timeout_policy \<times> sweeper)" where
  "service_init cfg =
     (let sc = ac_service cfg; policy = policy_of (sc_timeouts sc) in
      case make_sweeper (rc_days (sc_retention sc)) (rc_interval_s (sc_retention sc)) of
        Inl e \<Rightarrow> Inl e
      | Inr sw \<Rightarrow> Inr (policy, sw))"

text \<open>The GPSD client \<open>_init_gpsd_base\<close> creates: its filter and the closure cells of its callback.\<close>

record gps_base =
  gb_host :: string
  gb_port :: int
  gb_max_acc_m :: "pyfloat option"
  gb_throttle :: gps_throttle

definition init_gpsd_base :: "base_config \<Rightarrow> gps_base" where
  "init_gpsd_base bc = \<lparr>gb_host = bc_gpsd_host bc, gb_port = bc_gpsd_port bc,
     gb_max_acc_m = bc_max_acc_m bc, gb_throttle = \<lparr>th_last_publish = 0, th_last_pos = None\<rparr>\<rparr>"

definition init_base_location :: "base_config \<Rightarrow> (world, gps_base option) prog" where
  "init_base_location bc = (case bc_source bc of
      Static \<Rightarrow> andthen (init_static_base (bc_static_lat bc) (bc_static_lon bc)) (\<lambda>_. ret None)
    | Gpsd \<Rightarrow> ret (Some (init_gpsd_base bc))
    | Mqtt \<Rightarrow> ret None)"

text \<open>A GPSD session of that client, with \<open>on_fix\<close> as its callback.\<close>

definition base_session ::
  "base_config \<Rightarrow> bool \<Rightarrow> payload list \<Rightarrow> session_end \<Rightarrow> gps_base \<Rightarrow> (world, gps_throttle \<times> (exn + unit) option) prog" where
  "base_session bc banner ls fin gb =
     gpsd_session (gb_max_acc_m gb) (\<lambda>fx th. on_fix (bc_publish_interval_s bc) th fx) banner ls fin (gb_throttle gb)"

text \<open>What \<open>MqttBus.connect\<close> (transport/bus.py) subscribes to, in order.\<close>

definition SUBSCRIPTIONS :: "string list" where
  "SUBSCRIPTIONS =
     [GATEWAY_STATUS, RPC_REQUEST, gateway_native_direct_msg_filter GATEWAY_NATIVE_PREFIX,
      gateway_native_battery GATEWAY_NATIVE_PREFIX, gateway_native_telemetry GATEWAY_NATIVE_PREFIX,
      gateway_native_advertisement GATEWAY_NATIVE_PREFIX]"

section \<open>Building the bridge\<close>

definition NODE_LOCATION_FILTER :: string where "NODE_LOCATION_FILTER = NODE_PREFIX @ ''/+/location''"

definition NODE_STATE_FILTER :: string where "NODE_STATE_FILTER = NODE_PREFIX @ ''/+/state''"

text \<open>\<open>format\<close> is \<open>callsign_template.format(id=...)\<close>, which Python's formatter decides.\<close>

definition bridge_cfg :: "(string \<Rightarrow> string \<Rightarrow> exn + string) \<Rightarrow> app_config \<Rightarrow> tak_cfg" where
  "bridge_cfg format cfg = (let tb = ac_tak cfg in
     \<lparr>t_callsign = format (tb_callsign_template tb), t_field_type = tb_field_node_cot_type tb,
      t_base_type = tb_base_cot_type tb, t_stale_after = tb_stale_after_s tb,
      t_remove_after = tb_remove_after_offline_s tb\<rparr>)"

section \<open>Commands\<close>

text \<open>What a command ends with: its last line printed, an exit with a status, or a traceback.\<close>

datatype ending_of_command = Initialized | Purged int int | Exit_status int | Traceback exn

text \<open>\<open>_load_config\<close> and \<open>_open_store\<close>: every \<open>Exception\<close> becomes a message and exit status 1.\<close>

definition load_config :: "exn + app_config \<Rightarrow> ending_of_command + app_config" where
  "load_config loaded = (case loaded of Inl e \<Rightarrow> Inl (Exit_status 1) | Inr cfg \<Rightarrow> Inr cfg)"

definition open_database :: "schema \<Rightarrow> ending_of_command + schema" where
  "open_database s = (case open_store s of (Some e, _) \<Rightarrow> Inl (Exit_status 1) | (None, s') \<Rightarrow> Inr s')"

definition initdb :: "exn + app_config \<Rightarrow> schema \<Rightarrow> ending_of_command" where
  "initdb loaded s = (case load_config loaded of
      Inl e \<Rightarrow> e
    | Inr cfg \<Rightarrow> (case open_database s of Inl e \<Rightarrow> e | Inr _ \<Rightarrow> Initialized))"

definition purge :: "exn + app_config \<Rightarrow> int option \<Rightarrow> schema \<Rightarrow> world \<Rightarrow> ending_of_command \<times> world" where
  "purge loaded days s w = (case load_config loaded of
      Inl e \<Rightarrow> (e, w)
    | Inr cfg \<Rightarrow>
        (let effective_days = (case days of Some n \<Rightarrow> n | None \<Rightarrow> rc_days (sc_retention (ac_service cfg))) in
         case open_database s of
           Inl e \<Rightarrow> (e, w)
         | Inr _ \<Rightarrow> (case make_sweeper effective_days (Flt (Fin 3600)) of
             Inl e \<Rightarrow> (Traceback e, w)
           | Inr sw \<Rightarrow> (case run_once sw w of
               (Inl e, w') \<Rightarrow> (Traceback e, w')
             | (Inr n, w') \<Rightarrow> (Purged n effective_days, w')))))"

end
