(* ===== verification/StartUp.thy ===== *)
theory StartUp
  imports Config LiveProps
begin

text \<open>
  The service before its first message: the objects \<open>Service.__init__\<close> creates, the start-up summary
  it logs, and the iteration over the messages of the bus that the consume loop is.
\<close>

section \<open>The objects\<close>

text \<open>\<open>MqttBus.__init__\<close>: nothing known of the gateway, and no client.\<close>

definition fresh_cache :: gateway_cache where
  "fresh_cache = \<lparr>c_state = VNone, c_detail = VNone, c_since = VNone, c_snapped_at = None\<rparr>"

text \<open>\<open>PendingTracker\<close>\<close>

definition tracker_init :: int where "tracker_init = 0"

definition in_flight :: "(world, int) prog" where "in_flight = gets w_in_flight"

text \<open>\<open>StateAggregator.__init__\<close>: the radio metadata are kept in memory only.\<close>

definition aggregator_init :: "string \<rightharpoonup> radio_meta" where "aggregator_init = Map.empty"

text \<open>The service on a database that has been opened, with the outside \<open>h\<close>.\<close>

definition service_world :: "host \<Rightarrow> store \<Rightarrow> world" where
  "service_world h d = \<lparr>w_host = h, w_tick = 0, w_budget = None, w_db = d, w_radio = aggregator_init,
     w_sent = [], w_connected = False, w_in_flight = tracker_init, w_gateway = fresh_cache\<rparr>"

text \<open>The connection: \<open>async with client\<close> has been entered.\<close>

definition connected_world :: "host \<Rightarrow> store \<Rightarrow> world" where
  "connected_world h d = (service_world h d)\<lparr>w_connected := True\<rparr>"

section \<open>Reads of the aggregator\<close>

definition state_node_location :: "pyval \<Rightarrow> (world, pydict option) prog" where
  "state_node_location node = get_node_location node"

definition state_node_battery :: "pyval \<Rightarrow> (world, pydict option) prog" where
  "state_node_battery node = get_node_battery node"

section \<open>The messages of the bus\<close>

text \<open>\<open>MqttBus.messages\<close> with the body of the loop over it: each message is cached before it is seen.\<close>

fun for_each_message :: "(inbound \<Rightarrow> (world, unit) prog) \<Rightarrow> inbound list \<Rightarrow> (world, unit) prog" where
  "for_each_message body [] = ret ()"
| "for_each_message body (m # ms) =
     andthen (maybe_cache m) (\<lambda>_. andthen (body m) (\<lambda>_. for_each_message body ms))"

definition bus_messages :: "(inbound \<Rightarrow> (world, unit) prog) \<Rightarrow> inbound list \<Rightarrow> (world, unit) prog" where
  "bus_messages body ms = andthen (gets w_connected) (\<lambda>c.
     if \<not> c then raise (PyExn ''RuntimeError'') else for_each_message body ms)"

definition dispatch :: "timeout_policy \<Rightarrow> inbound \<Rightarrow> (world, unit) prog" where
  "dispatch policy m =
     (if in_topic m = RPC_REQUEST then spawn (handle_one policy (in_topic m) (in_json m))
      else if starts_with direct_prefix (in_topic m) \<or> in_topic m = battery_topic
           \<or> in_topic m = telemetry_topic
      then catch_exception (route_event (in_topic m) (in_json m)) (ret ())
      else ret ())"

lemma consume_dispatches: "consume policy m = andthen (maybe_cache m) (\<lambda>_. dispatch policy m)"
  by (simp add: consume_def dispatch_def)

lemma loop_is_messages: "for_each_message (dispatch policy) ms = consume_loop policy ms"
  by (induction ms) (simp_all add: consume_dispatches andthen_assoc)

lemma messages_need_connection:
  "bus_messages (dispatch policy) ms w =
     (if w_connected w then consume_loop policy ms w else (Inl (PyExn ''RuntimeError''), w))"
  by (simp add: bus_messages_def loop_is_messages andthen_def)

section \<open>The start-up summary\<close>

text \<open>\<open>%.0f\<close>, of a value that is not negative or no number.\<close>

definition whole :: "pyfloat \<Rightarrow> string" where
  "whole f = (case f of
      NaN \<Rightarrow> ''nan''
    | Flt PInf \<Rightarrow> ''inf''
    | Flt MInf \<Rightarrow> ''-inf''
    | Flt (Fin a) \<Rightarrow> (if a < 0 then ''-'' else []) @ str_int (round_even \<bar>a\<bar>))"

definition bullet :: "string \<Rightarrow> string" where "bullet s = ''     - '' @ s"

definition rule_line :: string where "rule_line = replicate 60 (CHR ''='')"

definition broker_lines :: "mqtt_config \<Rightarrow> string list" where
  "broker_lines mq =
     [''  broker         : '' @ mq_host mq @ '':'' @ str_int (mq_port mq),
      ''  client_id      : '' @ mq_client_id mq,
      ''  qos            : '' @ str_int (mq_qos mq)]"

text \<open>\<open>items\<close> are those of the dict \<open>per_type_default_s\<close>, whose keys are distinct.\<close>

definition policy_lines :: "timeout_config \<Rightarrow> (string \<times> int) list \<Rightarrow> string list" where
  "policy_lines tmo items =
     [''  ttl policy     : default='' @ str_int (tc_default_s tmo) @ ''s min='' @ str_int (tc_min_s tmo) @
        ''s max='' @ str_int (tc_max_s tmo) @ ''s''] @
     (if items = [] then []
      else ''  per-type TTL   :'' # map (\<lambda>(t, v). bullet (t @ '' = '' @ str_int v @ ''s'')) (sort_key fst items))"

definition handler_lines :: "'h router \<Rightarrow> string list" where
  "handler_lines router = (''  handlers ('' @ str_int (int (length (types router))) @ '')   :'') # map bullet (types router)"

definition announced_topics :: "string list" where
  "announced_topics =
     [RPC_REQUEST, GATEWAY_STATUS, gateway_native_direct_msg_filter GATEWAY_NATIVE_PREFIX,
      gateway_native_battery GATEWAY_NATIVE_PREFIX, gateway_native_telemetry GATEWAY_NATIVE_PREFIX,
      gateway_native_advertisement GATEWAY_NATIVE_PREFIX]"

definition publish_lines :: "string list" where
  "publish_lines =
     [bullet (RPC_RESPONSE_PREFIX @ ''/<node_id>''),
      bullet (NODE_PREFIX @ ''/<node_id>/{location,battery,state}''),
      bullet BASE_LOCATION,
      bullet (SVC_HEALTH @ '' (retained, heartbeat 30s)'')]"

definition startup_summary :: "app_config \<Rightarrow> (string \<times> int) list \<Rightarrow> 'h router \<Rightarrow> string list" where
  "startup_summary cfg items router =
     (let sc = ac_service cfg; ret = sc_retention sc in
      [rule_line, ''meshcore-rpc-services starting''] @ broker_lines (ac_mqtt cfg) @
      [''  db             : '' @ sc_db_path sc, ''  log_level      : '' @ sc_log_level sc] @
      policy_lines (sc_timeouts sc) items @
      [''  retention      : '' @ str_int (rc_days ret) @ ''d (sweep every '' @ whole (rc_interval_s ret) @ ''s)''] @
      handler_lines router @ [''  subscribe:''] @ map bullet announced_topics @
      [''  publish:''] @ publish_lines @ [rule_line])"

text \<open>The summary says what the service does: these topics are subscribed to, and these types are served.\<close>

lemma announced_topics_subscribed: "set announced_topics = set SUBSCRIPTIONS"
  by (auto simp: announced_topics_def SUBSCRIPTIONS_def)

lemma announced_types_served:
  "bullet t \<in> set (tl (handler_lines router)) \<longleftrightarrow> (\<exists>h. resolve router t = Some h)"
proof -
  have "bullet t \<in> set (tl (handler_lines router)) \<longleftrightarrow> t \<in> set (types router)"
    by (auto simp: handler_lines_def bullet_def)
  also have "\<dots> \<longleftrightarrow> (\<exists>h. resolve router t = Some h)"
    unfolding resolve_def types_def by (auto simp: dom_map_of_conv_image_fst [symmetric] dom_def)
  finally show ?thesis .
qed

section \<open>From the start on\<close>

text \<open>
  The constructed service takes nothing in before it is connected, and from then on its in-flight
  counter is the number of requests between the two updates of the tracker.
\<close>

lemma nothing_before_connecting:
  "bus_messages (dispatch policy) ms (service_world h d) = (Inl (PyExn ''RuntimeError''), service_world h d)"
  by (simp add: messages_need_connection service_world_def)

lemma started_service_counts:
  assumes "live_reach policy sw (Waiting, [], connected_world h d) (p, ts, w)"
  shows "0 \<le> w_in_flight w" "w_in_flight w \<le> int (length ts)"
    "(\<And>t. t \<in> set ts \<Longrightarrow> \<exists>out. t = Ended out) \<Longrightarrow> in_flight w = (Inr 0, w)"
proof -
  have zero: "w_in_flight (connected_world h d) = 0"
    by (simp add: connected_world_def service_world_def tracker_init_def)
  then have c: "counted (connected_world h d) (p, ts, w)" using counted_reach [OF assms] by simp
  from counted_bounds(1,2) [OF c] zero show "0 \<le> w_in_flight w" "w_in_flight w \<le> int (length ts)" by simp_all
  assume "\<And>t. t \<in> set ts \<Longrightarrow> \<exists>out. t = Ended out"
  from counted_bounds(3) [OF c this] zero show "in_flight w = (Inr 0, w)" by (simp add: in_flight_def gets_def)
qed

end
