(* ===== verification/GpsdProps.thy ===== *)
theory GpsdProps
  imports Gpsd StatusProps
begin

text \<open>
  What a GPSD session hands to its callback, and the delays between sessions.
\<close>

section \<open>The fixes of a session\<close>

text \<open>
  What a line says, read off the JSON object by itself. A field is a number when it is an int, a
  float or a bool.
\<close>

definition field_num :: "pydict \<Rightarrow> string \<Rightarrow> pyfloat option" where
  "field_num msg k = (if is_num (dget msg k) then Some (num_val (dget msg k)) else None)"

text \<open>
  One of the error estimates exceeds the bound. (An \<open>epx\<close> that is NaN hides \<open>epy\<close>: \<open>max(a, b)\<close> of
  Python keeps a NaN that comes first.)
\<close>

definition exceeds :: "pyfloat option \<Rightarrow> pydict \<Rightarrow> bool" where
  "exceeds max_acc msg = (case max_acc of None \<Rightarrow> False | Some m \<Rightarrow>
     field_num msg ''epx'' \<noteq> Some NaN \<and>
     ((\<exists>e. field_num msg ''epx'' = Some e \<and> flt m e) \<or> (\<exists>e. field_num msg ''epy'' = Some e \<and> flt m e)))"

fun worse :: "pyfloat option \<Rightarrow> pyfloat option \<Rightarrow> pyfloat option" where
  "worse (Some a) (Some b) = Some (if flt a b then b else a)"
| "worse (Some a) None = Some a"
| "worse None b = b"

text \<open>
  The fix a line stands for, apart from its time stamp: a TPV record with the mode 2 or 3, numbers
  under \<open>lat\<close> and \<open>lon\<close>, and no error estimate above the bound; the altitude, the speed and the
  heading are those under \<open>alt\<close>, \<open>speed\<close> and \<open>track\<close> when they are numbers, the accuracy is the larger
  of the two estimates.
\<close>

definition line_fix :: "pyfloat option \<Rightarrow> payload \<Rightarrow> location_fix option" where
  "line_fix max_acc line = (case line of
      Inr (VDict msg) \<Rightarrow> (case (field_num msg ''lat'', field_num msg ''lon'') of
          (Some lat, Some lon) \<Rightarrow>
            if dget msg ''class'' = VStr ''TPV'' \<and> \<not> exceeds max_acc msg \<and>
              dget msg ''mode'' \<in> {VInt 2, VInt 3, VFloat (Flt (Fin 2)), VFloat (Flt (Fin 3))}
            then Some \<lparr>f_lat = lat, f_lon = lon, f_ts = Flt (Fin 0), f_alt = field_num msg ''alt'',
              f_acc = worse (field_num msg ''epx'') (field_num msg ''epy''),
              f_fix = Some (if dget msg ''mode'' \<in> {VInt 2, VFloat (Flt (Fin 2))} then 2 else 3),
              f_spd = field_num msg ''speed'', f_hdg = field_num msg ''track''\<rparr>
            else None
        | _ \<Rightarrow> None)
    | _ \<Rightarrow> None)"

text \<open>Lines that cannot end the session: no integer in them is beyond the range of a float.\<close>

definition fits_float :: "pyval \<Rightarrow> bool" where
  "fits_float v = (case v of VInt n \<Rightarrow> \<bar>n\<bar> < 2 ^ 1024 - 2 ^ 970 | _ \<Rightarrow> True)"

fun sane_line :: "payload \<Rightarrow> bool" where
  "sane_line (Inl e) = (e = JSONDecodeError)"
| "sane_line (Inr (VDict msg)) = list_all (\<lambda>k. fits_float (dget msg k))
     [''lat'', ''lon'', ''alt'', ''epx'', ''epy'', ''speed'', ''track'']"
| "sane_line (Inr v) = True"

definition no_ts :: "location_fix \<Rightarrow> location_fix" where
  "no_ts fx = fx\<lparr>f_ts := Flt (Fin 0)\<rparr>"

definition recorder :: "location_fix list callback" where
  "recorder fx fs = ret (fs @ [fx])"

lemma as_float_fits: "is_num v \<Longrightarrow> fits_float v \<Longrightarrow> as_float v = Inr (num_val v)"
  by (cases v) (simp_all add: fits_float_def float_of_int_def)

lemma opt_float_fits:
  "fits_float v \<Longrightarrow> opt_float v = Inr (if is_num v then Some (num_val v) else None)"
  by (simp add: opt_float_def as_float_fits)

lemma tpv_acc_worse:
  "fits_float (dget msg ''epx'') \<Longrightarrow> fits_float (dget msg ''epy'') \<Longrightarrow>
     opt_float (tpv_acc (dget msg ''epx'') (dget msg ''epy'')) =
       Inr (worse (field_num msg ''epx'') (field_num msg ''epy''))"
  by (simp add: tpv_acc_def field_num_def opt_float_fits) (simp add: opt_float_def)

lemma tpv_mode_cases:
  "tpv_mode v = (if v \<in> {VInt 2, VInt 3, VFloat (Flt (Fin 2)), VFloat (Flt (Fin 3))}
     then Some (if v \<in> {VInt 2, VFloat (Flt (Fin 2))} then 2 else 3) else None)"
  by (cases v) (simp_all add: tpv_mode_def)

lemma flt_worse: "flt m (if flt a b then b else a) \<longleftrightarrow> a \<noteq> NaN \<and> (flt m a \<or> flt m b)"
  by (cases m; cases a; cases b) (auto dest: less_trans)

lemma too_inaccurate_exceeds:
  "f_acc fx = worse (field_num msg ''epx'') (field_num msg ''epy'') \<Longrightarrow> too_inaccurate m fx = exceeds m msg"
  by (cases m; cases "field_num msg ''epx''"; cases "field_num msg ''epy''")
    (auto simp: too_inaccurate_def exceeds_def flt_worse split del: if_split)

lemma gpsd_line_recorded:
  assumes "sane_line l"
  shows "\<exists>w' new. gpsd_line m recorder l fs w = (Inr (fs @ new), w') \<and>
     map no_ts new = (case line_fix m l of None \<Rightarrow> [] | Some fx \<Rightarrow> [fx]) \<and>
     list_all (\<lambda>fx. \<exists>k\<ge>w_tick w. f_ts fx = Flt (Fin (h_clock (w_host w) k))) new \<and>
     w_host w' = w_host w \<and> w_tick w \<le> w_tick w'"
proof (cases "\<exists>msg mode. l = Inr (VDict msg) \<and> dget msg ''class'' = VStr ''TPV'' \<and>
    tpv_mode (dget msg ''mode'') = Some mode \<and> is_num (dget msg ''lat'') \<and> is_num (dget msg ''lon'')")
  case True
  then obtain msg mode where l: "l = Inr (VDict msg)" "dget msg ''class'' = VStr ''TPV''"
    "tpv_mode (dget msg ''mode'') = Some mode" "is_num (dget msg ''lat'')" "is_num (dget msg ''lon'')"
    by blast
  let ?now = "h_clock (w_host w) (w_tick w)"
  define fx where "fx = \<lparr>f_lat = num_val (dget msg ''lat''), f_lon = num_val (dget msg ''lon''),
      f_ts = Flt (Fin ?now), f_alt = field_num msg ''alt'',
      f_acc = worse (field_num msg ''epx'') (field_num msg ''epy''), f_fix = Some mode,
      f_spd = field_num msg ''speed'', f_hdg = field_num msg ''track''\<rparr>"
  have "tpv_fix msg mode ?now = Inr fx"
    using assms l by (simp add: tpv_fix_def as_float_fits opt_float_fits tpv_acc_worse fx_def
        field_num_def)
  moreover have "too_inaccurate m fx = exceeds m msg"
    by (rule too_inaccurate_exceeds) (simp add: fx_def)
  ultimately have "gpsd_line m recorder l fs w =
      (Inr (fs @ (if exceeds m msg then [] else [fx])), w\<lparr>w_tick := Suc (w_tick w)\<rparr>)"
    using l by (simp add: gpsd_line_def parse_tpv_def andthen_def time_time_def recorder_def
        catch_exception_def catch_def)
  moreover have "line_fix m l = (if exceeds m msg then None else Some (no_ts fx))"
    using l by (auto simp: line_fix_def field_num_def fx_def no_ts_def tpv_mode_cases split: if_splits)
  ultimately show ?thesis by (auto simp: fx_def)
next
  case False
  have "gpsd_line m recorder l fs w = (Inr fs, w) \<and> line_fix m l = None"
  proof (cases "\<exists>msg. l = Inr (VDict msg)")
    case True
    then obtain msg where l: "l = Inr (VDict msg)" by blast
    show ?thesis
    proof (cases "dget msg ''class'' = VStr ''TPV''")
      case True
      with False l have off: "tpv_mode (dget msg ''mode'') = None \<or>
          \<not> is_num (dget msg ''lat'') \<or> \<not> is_num (dget msg ''lon'')"
        by auto
      then have "parse_tpv msg = ret None" by (auto simp: parse_tpv_def split: option.split)
      then have "gpsd_line m recorder l fs w = (Inr fs, w)"
        by (simp add: l gpsd_line_def True andthen_def)
      moreover have "line_fix m l = None"
        using off by (auto simp: l line_fix_def field_num_def tpv_mode_cases split: if_splits)
      ultimately show ?thesis by blast
    next
      case False
      then show ?thesis by (simp add: l gpsd_line_def line_fix_def split: option.split)
    qed
  next
    case False
    with assms show ?thesis
      by (cases l rule: sane_line.cases) (simp_all add: gpsd_line_def line_fix_def)
  qed
  then show ?thesis by (intro exI [of _ w] exI [of _ "[]"]) simp
qed

text \<open>
  C31. A session over lines without absurd numbers hands its callback exactly the usable fixes, in
  their order, each with the coordinates, altitude, accuracy, mode, speed and heading of its line and
  stamped with a reading of the clock, and goes on to whatever ends it.
\<close>

theorem session_relays_usable_fixes:
  assumes "list_all sane_line ls"
  shows "\<exists>w' new. session_lines m recorder ls fin fs w = (Inr (fs @ new, session_outcome fin), w') \<and>
     map no_ts new = List.map_filter (line_fix m) ls \<and>
     list_all (\<lambda>fx. \<exists>k\<ge>w_tick w. f_ts fx = Flt (Fin (h_clock (w_host w) k))) new"
  using assms
proof (induction ls arbitrary: fs w)
  case Nil
  show ?case by (rule exI [of _ w]) (simp add: List.map_filter_def)
next
  case (Cons l ls)
  then have sane: "sane_line l" "list_all sane_line ls" by simp_all
  obtain w1 new1 where one: "gpsd_line m recorder l fs w = (Inr (fs @ new1), w1)"
    and n1: "map no_ts new1 = (case line_fix m l of None \<Rightarrow> [] | Some fx \<Rightarrow> [fx])"
    and t1: "list_all (\<lambda>fx. \<exists>k\<ge>w_tick w. f_ts fx = Flt (Fin (h_clock (w_host w) k))) new1"
    and w1: "w_host w1 = w_host w" "w_tick w \<le> w_tick w1"
    using gpsd_line_recorded [OF sane(1)] by blast
  obtain w2 new2 where two: "session_lines m recorder ls fin (fs @ new1) w1 =
      (Inr ((fs @ new1) @ new2, session_outcome fin), w2)"
    and n2: "map no_ts new2 = List.map_filter (line_fix m) ls"
    and t2: "list_all (\<lambda>fx. \<exists>k\<ge>w_tick w1. f_ts fx = Flt (Fin (h_clock (w_host w1) k))) new2"
    using Cons.IH [OF sane(2)] by blast
  have "session_lines m recorder (l # ls) fin fs w = (Inr (fs @ new1 @ new2, session_outcome fin), w2)"
    using one two by (simp add: andthen_def attempt_def)
  moreover have "map no_ts (new1 @ new2) = List.map_filter (line_fix m) (l # ls)"
    using n1 n2 by (simp add: List.map_filter_simps split: option.splits)
  moreover have "list_all (\<lambda>fx. \<exists>k\<ge>w_tick w. f_ts fx = Flt (Fin (h_clock (w_host w) k))) (new1 @ new2)"
  proof -
    have "list_all (\<lambda>fx. \<exists>k\<ge>w_tick w. f_ts fx = Flt (Fin (h_clock (w_host w) k))) new2"
      using t2 unfolding w1(1) by (rule list.pred_mono_strong) (meson w1(2) le_trans)
    with t1 show ?thesis by simp
  qed
  ultimately show ?case by (intro exI conjI)
qed

section \<open>The delays\<close>

lemma lost_without_stop:
  assumes "session_lines m cb ls fin s w = (Inr (s', Some out), w')" "fin \<noteq> Stop_seen"
  shows "\<exists>e. out = Inl e"
  using assms clean_return_means_stop [of m cb ls fin s w s' w'] by (cases out) auto

text \<open>The outcome and the state of the stop event after a session run on its own.\<close>

definition ran ::
  "pyfloat option \<Rightarrow> 's callback \<Rightarrow> bool \<times> payload list \<times> session_end \<times> 's \<times> world \<Rightarrow> (exn + unit) \<times> bool" where
  "ran m cb = (\<lambda>(banner, ls, fin, s, w).
     case gpsd_session m cb banner ls fin s w of
       (Inr (s', Some out), w') \<Rightarrow> (out, fin = Stop_seen)
     | _ \<Rightarrow> (Inl (PyExn ''ConnectionError''), fin = Stop_seen))"

lemma reconnect_delay_eq: "reconnect_delay n = RECONNECT_DELAYS ! min n 4"
proof -
  have "length RECONNECT_DELAYS - 1 = 4" by (simp add: RECONNECT_DELAYS_def)
  then show ?thesis by (simp only: reconnect_delay_def)
qed

lemma ran_loses:
  assumes "\<not> snd (ran m cb r)"
  shows "\<exists>e. fst (ran m cb r) = Inl e"
proof -
  obtain banner ls fin s w where r: "r = (banner, ls, fin, s, w)" by (cases r) blast
  obtain s' out w' where run: "session_lines m cb (if banner then tl ls else ls) fin s w = (Inr (s', out), w')"
    using session_never_raises [of m cb "if banner then tl ls else ls" fin s w] by blast
  show ?thesis
  proof (cases out)
    case None
    with r run show ?thesis by (simp add: ran_def gpsd_session_def)
  next
    case (Some o')
    with r run assms have "fin \<noteq> Stop_seen" by (simp add: ran_def gpsd_session_def)
    with lost_without_stop [OF run [unfolded Some]] r run Some show ?thesis
      by (simp add: ran_def gpsd_session_def)
  qed
qed

text \<open>
  As long as the client is neither stopped nor cancelled, the waits between its sessions are 1, 2,
  5, 10 and then always 30 seconds, however long the sessions lasted and whatever they delivered:
  a session returns cleanly only once the stop event is set, so the counter is never reset.
\<close>

theorem backoff_never_resets:
  assumes "list_all (\<lambda>r. \<not> snd (ran m cb r) \<and> fst (ran m cb r) \<noteq> Inl Cancelled) runs"
  shows "backoff 0 (map (ran m cb) runs) = map (\<lambda>i. RECONNECT_DELAYS ! min i 4) [0 ..< length runs]"
proof -
  have "(\<lambda>(out, stopped). \<not> stopped \<and> (\<exists>e. out = Inl e \<and> e \<noteq> Cancelled)) (ran m cb r)"
    if r: "r \<in> set runs" for r
  proof -
    have "\<not> snd (ran m cb r)" "fst (ran m cb r) \<noteq> Inl Cancelled"
      using assms r by (auto simp: list_all_iff)
    with ran_loses [of m cb r] show ?thesis by (auto simp: case_prod_beta)
  qed
  then have "list_all (\<lambda>(out, stopped). \<not> stopped \<and> (\<exists>e. out = Inl e \<and> e \<noteq> Cancelled)) (map (ran m cb) runs)"
    by (auto simp: list_all_iff)
  from backoff_losses [OF this, of 0] show ?thesis
    by (simp add: reconnect_delay_eq)
qed

section \<open>Witnesses\<close>

definition sample_tpv :: "pyval \<Rightarrow> pyval \<Rightarrow> payload" where
  "sample_tpv mode epx = Inr (VDict [(''class'', VStr ''TPV''), (''mode'', mode), (''lat'', VInt 48),
     (''lon'', VFloat (Flt (Fin 11))), (''alt'', VFloat (Flt (Fin 520))), (''epx'', epx), (''epy'', VInt 3),
     (''speed'', VInt 2), (''track'', VInt 90)])"

text \<open>Undecodable text, a record of another class, a fix within the bound of 20 metres, one beyond it,
  and one without a position lock.\<close>

definition sample_lines :: "payload list" where
  "sample_lines = [Inl JSONDecodeError, Inr (VDict [(''class'', VStr ''SKY'')]),
     sample_tpv (VInt 3) (VInt 5), sample_tpv (VInt 3) (VInt 80), sample_tpv (VInt 1) (VInt 5)]"

definition relayed_fix :: location_fix where
  "relayed_fix = \<lparr>f_lat = Flt (Fin 48), f_lon = Flt (Fin 11), f_ts = Flt (Fin 0), f_alt = Some (Flt (Fin 520)),
     f_acc = Some (Flt (Fin 5)), f_fix = Some 3, f_spd = Some (Flt (Fin 2)), f_hdg = Some (Flt (Fin 90))\<rparr>"

lemma sane_sample: "list_all sane_line sample_lines"
  by (simp add: sample_lines_def sample_tpv_def fits_float_def)

lemma relayed_sample: "List.map_filter (line_fix (Some (Flt (Fin 20)))) sample_lines = [relayed_fix]"
  by (simp add: sample_lines_def sample_tpv_def line_fix_def field_num_def exceeds_def relayed_fix_def
      List.map_filter_simps)

lemma session_relays_usable_fixes_witness:
  "\<exists>w' fx. session_lines (Some (Flt (Fin 20))) recorder sample_lines Closed_by_peer [] sample_world =
     (Inr ([fx], Some (Inl (PyExn ''ConnectionError''))), w') \<and> no_ts fx = relayed_fix"
proof -
  obtain w' new where run: "session_lines (Some (Flt (Fin 20))) recorder sample_lines Closed_by_peer [] sample_world =
     (Inr ([] @ new, session_outcome Closed_by_peer), w')"
    and new: "map no_ts new = List.map_filter (line_fix (Some (Flt (Fin 20)))) sample_lines"
    using session_relays_usable_fixes [OF sane_sample] by blast
  from new relayed_sample obtain fx where "new = [fx]" "no_ts fx = relayed_fix" by auto
  with run show ?thesis by simp
qed

definition lost_run :: "bool \<times> payload list \<times> session_end \<times> location_fix list \<times> world" where
  "lost_run = (True, [], Closed_by_peer, [], sample_world)"

lemma ran_lost: "ran None recorder lost_run = (Inl (PyExn ''ConnectionError''), False)"
  by (simp add: ran_def lost_run_def gpsd_session_def)

lemma backoff_never_resets_witness:
  "backoff 0 (map (ran None recorder) (replicate 7 lost_run)) = [1, 2, 5, 10, 30, 30, 30]"
proof -
  have "list_all (\<lambda>r. \<not> snd (ran None recorder r) \<and> fst (ran None recorder r) \<noteq> Inl Cancelled)
      (replicate 7 lost_run)"
    by (simp add: list_all_iff ran_lost)
  from backoff_never_resets [OF this] have
    "backoff 0 (map (ran None recorder) (replicate 7 lost_run)) =
     map (\<lambda>i. RECONNECT_DELAYS ! min i 4) [0 ..< 7]"
    by simp
  also have "[0 ..< 7] = [0, 1, 2, 3, 4, 5, 6 :: nat]" by (simp add: upt_rec)
  finally show ?thesis by (simp add: RECONNECT_DELAYS_def)
qed

end
