(* ===== verification/XmlReader.thy ===== *)
theory XmlReader
  imports Cot
begin

text \<open>
  A reader for the XML that Cot writes, independent of how it is written: UTF-8 is decoded, names,
  attributes and text are scanned, entities are resolved. Its fuel is the number of characters.
\<close>

section \<open>Decoding\<close>

fun utf8_decode :: "string \<Rightarrow> string" where
  "utf8_decode [] = []"
| "utf8_decode (c # cs) =
     (if (of_char c :: nat) < 128 then c # utf8_decode cs
      else case cs of
          [] \<Rightarrow> [c]
        | d # ds \<Rightarrow> char_of ((of_char c - 192) * 64 + (of_char d - 128) :: nat) # utf8_decode ds)"

definition starts :: "string \<Rightarrow> string \<Rightarrow> bool" where
  "starts p s \<longleftrightarrow> take (length p) s = p"

text \<open>The character an entity or a plain character stands for, and how many more it takes.\<close>

definition entity :: "string \<Rightarrow> char \<times> nat" where
  "entity s =
     (if starts ''&amp;'' s then (CHR ''&'', 4) else if starts ''&lt;'' s then (CHR ''<'', 3)
      else if starts ''&gt;'' s then (CHR ''>'', 3)
      else if starts ''&quot;'' s then (char_of (34 :: nat), 5)
      else if starts ''&#13;'' s then (char_of (13 :: nat), 4)
      else if starts ''&#10;'' s then (char_of (10 :: nat), 4)
      else if starts ''&#09;'' s then (char_of (9 :: nat), 4)
      else (hd s, 0))"

fun unescape :: "string \<Rightarrow> string" where
  "unescape [] = []"
| "unescape (c # cs) = (case entity (c # cs) of (d, k) \<Rightarrow> d # unescape (drop k cs))"

definition name_char :: "char \<Rightarrow> bool" where
  "name_char c = (let n = of_char c :: nat in 97 \<le> n \<and> n \<le> 122)"

definition not_quote :: "char \<Rightarrow> bool" where
  "not_quote c \<longleftrightarrow> of_char c \<noteq> (34 :: nat)"

fun read_attrs :: "nat \<Rightarrow> string \<Rightarrow> ((string \<times> string) list \<times> string) option" where
  "read_attrs 0 s = None"
| "read_attrs (Suc n) s =
     (if starts '' '' s \<and> \<not> starts '' />'' s then
        (let name = takeWhile name_char (tl s); s2 = dropWhile name_char (tl s);
             s3 = drop 2 s2
         in if starts (''='' @ dquote) s2 then
              (case read_attrs n (tl (dropWhile not_quote s3)) of
                 None \<Rightarrow> None
               | Some (as, r) \<Rightarrow> Some ((name, unescape (takeWhile not_quote s3)) # as, r))
            else None)
      else Some ([], s))"

definition not_open :: "char \<Rightarrow> bool" where
  "not_open c \<longleftrightarrow> c \<noteq> CHR ''<''"

definition body_of :: "string \<Rightarrow> string option" where
  "body_of t = (if t = [] then None else Some (unescape t))"

fun read_elem :: "nat \<Rightarrow> string \<Rightarrow> (xml \<times> string) option"
  and read_kids :: "nat \<Rightarrow> string \<Rightarrow> (xml list \<times> string) option" where
  "read_elem 0 s = None"
| "read_elem (Suc n) s =
     (if \<not> starts ''<'' s then None else
      let tag = takeWhile name_char (tl s) in
      case read_attrs (length s) (dropWhile name_char (tl s)) of
        None \<Rightarrow> None
      | Some (as, r) \<Rightarrow>
          if starts '' />'' r then Some (Elem tag as None [], drop 3 r)
          else if starts ''>'' r then
            (case read_kids n (dropWhile not_open (tl r)) of
               None \<Rightarrow> None
             | Some (ks, r') \<Rightarrow>
                 if starts (''</'' @ tag @ ''>'') r'
                 then Some (Elem tag as (body_of (takeWhile not_open (tl r))) ks, drop (length tag + 3) r')
                 else None)
          else None)"
| "read_kids 0 s = None"
| "read_kids (Suc n) s =
     (if starts ''</'' s then Some ([], s)
      else case read_elem n s of
          None \<Rightarrow> None
        | Some (k, r) \<Rightarrow> (case read_kids n r of None \<Rightarrow> None | Some (ks, r') \<Rightarrow> Some (k # ks, r')))"

definition read_xml :: "string \<Rightarrow> xml option" where
  "read_xml b = (let s = utf8_decode b in
     case read_elem (length s) s of
       Some (x, r) \<Rightarrow> if r = [newline] then Some x else None
     | None \<Rightarrow> None)"

text \<open>
  XML 1.0 has no document with another control character than tab, line feed and carriage return in
  it: what a reader accepts that keeps to that.
\<close>

definition xml_char :: "char \<Rightarrow> bool" where
  "xml_char c = (let n = of_char c :: nat in n = 9 \<or> n = 10 \<or> n = 13 \<or> 32 \<le> n)"

definition xml10 :: "string \<Rightarrow> xml option" where
  "xml10 b = (if list_all xml_char (utf8_decode b) then read_xml b else None)"

fun legal_tree :: "xml \<Rightarrow> bool" where
  "legal_tree (Elem tag as body kids) \<longleftrightarrow>
     list_all xml_char tag \<and> list_all (\<lambda>kv. list_all xml_char (fst kv) \<and> list_all xml_char (snd kv)) as \<and>
     (case body of None \<Rightarrow> True | Some t \<Rightarrow> list_all xml_char t) \<and> list_all legal_tree kids"

section \<open>Escaping\<close>

lemma starts_append [simp]: "starts p (p @ s)"
  by (simp add: starts_def)

lemma starts_self [simp]: "starts p p"
  by (simp add: starts_def)

lemma starts_Cons [simp]: "starts (a # p) (b # s) \<longleftrightarrow> a = b \<and> starts p s"
  by (auto simp: starts_def)

lemma starts_Nil [simp]: "starts [] s"
  by (simp add: starts_def)

lemma starts_Nil_right [simp]: "starts (a # p) [] = False"
  by (simp add: starts_def)

lemma of_char_eq_nat: "n < 256 \<Longrightarrow> of_char c = (n :: nat) \<longleftrightarrow> c = char_of n"
  by (metis char_of_char of_char_of mod_less)

lemma entity_plain: "c \<noteq> CHR ''&'' \<Longrightarrow> entity (c # s) = (c, 0)"
  by (simp add: entity_def)

lemma entity_escape:
  "entity (escape_char c @ s) = (c, length (escape_char c) - 1)"
  by (auto simp: escape_char_def entity_def)

lemma entity_escape_attrib:
  "entity (escape_attrib_char c @ s) = (c, length (escape_attrib_char c) - 1)"
proof -
  have "of_char c = (34 :: nat) \<or> of_char c = (13 :: nat) \<or> of_char c = (10 :: nat) \<or>
      of_char c = (9 :: nat) \<or> escape_attrib_char c = escape_char c"
    by (simp add: escape_attrib_char_def)
  then show ?thesis
  proof (elim disjE)
    assume "escape_attrib_char c = escape_char c"
    then show ?thesis by (simp only: entity_escape)
  qed (simp_all add: escape_attrib_char_def of_char_eq_nat entity_def)
qed

lemma escape_char_not_Nil [simp]: "escape_char c \<noteq> []" "escape_attrib_char c \<noteq> []"
  by (simp_all add: escape_char_def escape_attrib_char_def)

lemma unescape_step:
  "e \<noteq> [] \<Longrightarrow> entity (e @ s) = (c, length e - 1) \<Longrightarrow> unescape (e @ s) = c # unescape s"
  by (cases e) auto

lemma unescape_attrib [simp]: "unescape (escape_attrib s) = s"
  by (induction s) (simp_all add: escape_attrib_def unescape_step entity_escape_attrib)

lemma unescape_cdata [simp]: "unescape (escape_cdata s) = s"
  by (induction s) (simp_all add: escape_cdata_def unescape_step entity_escape)

lemma escape_char_plain:
  "list_all not_open (escape_char c)" "not_quote c \<Longrightarrow> list_all not_quote (escape_char c)"
  by (simp_all add: escape_char_def not_open_def not_quote_def)

lemma escape_attrib_char_plain: "list_all not_quote (escape_attrib_char c)"
proof (cases "of_char c = (34 :: nat)")
  case False
  then have "not_quote c" by (simp add: not_quote_def)
  then have "list_all not_quote (escape_char c)" by (rule escape_char_plain)
  with False show ?thesis by (simp add: escape_attrib_char_def not_quote_def)
qed (simp add: escape_attrib_char_def not_quote_def)

lemma escape_attrib_no_quote: "c \<in> set (escape_attrib s) \<Longrightarrow> not_quote c"
  using escape_attrib_char_plain by (auto simp: escape_attrib_def list_all_iff)

lemma escape_cdata_no_open: "c \<in> set (escape_cdata s) \<Longrightarrow> not_open c"
  using escape_char_plain(1) by (auto simp: escape_cdata_def list_all_iff)

lemma escape_cdata_Nil [simp]: "escape_cdata s = [] \<longleftrightarrow> s = []"
  by (simp add: escape_cdata_def)

lemma utf8_decode_char: "utf8_decode (utf8_char c @ s) = c # utf8_decode s"
proof (cases "(of_char c :: nat) < 128")
  case True
  then show ?thesis by (simp add: utf8_char_def)
next
  case False
  have "(of_char c :: nat) < 256" by simp
  then have small: "of_char c div 64 < (4 :: nat)" by (simp only: less_mult_imp_div_less)
  have "(192 + of_char c div 64 :: nat) < 256" using small by simp
  then have a: "of_char (char_of (192 + of_char c div 64 :: nat)) = (192 + of_char c div 64 :: nat)" by simp
  have b: "of_char (char_of (128 + of_char c mod 64 :: nat)) = (128 + of_char c mod 64 :: nat)" by simp
  have "(of_char c div 64) * 64 + of_char c mod 64 = (of_char c :: nat)" by simp
  with False a b show ?thesis by (simp add: utf8_char_def Let_def del: of_char_of)
qed

lemma utf8_decode_utf8 [simp]: "utf8_decode (utf8 s @ t) = s @ utf8_decode t"
  by (induction s) (simp_all add: utf8_def utf8_decode_char)

section \<open>Reading back\<close>

fun xml_ok :: "xml \<Rightarrow> bool" where
  "xml_ok (Elem tag as body kids) \<longleftrightarrow>
     list_all name_char tag \<and> list_all (\<lambda>kv. list_all name_char (fst kv)) as \<and> body \<noteq> Some [] \<and>
     list_all xml_ok kids"

fun cost :: "xml \<Rightarrow> nat" where
  "cost (Elem tag as body kids) = Suc (Suc (sum_list (map (\<lambda>k. Suc (cost k)) kids)))"

lemma span_stop:
  "list_all P xs \<Longrightarrow> \<not> P y \<Longrightarrow> takeWhile P (xs @ y # ys) = xs"
  "list_all P xs \<Longrightarrow> \<not> P y \<Longrightarrow> dropWhile P (xs @ y # ys) = y # ys"
  by (induction xs) auto

lemma not_name_chars [simp]:
  "\<not> name_char (CHR ''='')" "\<not> name_char (CHR '' '')" "\<not> name_char (CHR ''>'')" "\<not> name_char (CHR ''/'')"
  by (simp_all add: name_char_def)

lemma quote_stops [simp]: "\<not> not_quote (char_of (34 :: nat))"
  by (simp add: not_quote_def)

lemma open_stops [simp]: "\<not> not_open (CHR ''<'')"
  by (simp add: not_open_def)

lemma list_all_escape: "list_all not_quote (escape_attrib s)" "list_all not_open (escape_cdata s)"
  by (auto simp: list_all_iff dest: escape_attrib_no_quote escape_cdata_no_open)

lemma attr_text_pair: "attr_text (k, v) = '' '' @ k @ ''='' @ dquote @ escape_attrib v @ dquote"
  by (simp add: attr_text_def)

lemma no_slash: "list_all name_char k \<Longrightarrow> \<not> starts ''/'' (k @ ''='' @ s)"
  by (cases k) (auto simp: name_char_def)

lemma read_attrs_text:
  assumes "list_all (\<lambda>kv. list_all name_char (fst kv)) as" "starts '' />'' rest \<or> starts ''>'' rest"
    "length as < n"
  shows "read_attrs n (concat (map attr_text as) @ rest) = Some (as, rest)"
  using assms
proof (induction as arbitrary: n)
  case Nil
  then obtain m where "n = Suc m" by (cases n) auto
  with Nil.prems(2) show ?case by (cases rest) auto
next
  case (Cons kv as)
  obtain k v where kv: "kv = (k, v)" by (cases kv)
  from Cons.prems obtain m where n: "n = Suc m" "length as < m" by (cases n) auto
  from Cons.prems kv have k: "list_all name_char k" by simp
  have ih: "read_attrs m (concat (map attr_text as) @ rest) = Some (as, rest)"
    using Cons.IH [of m] Cons.prems n by simp
  have ns: "\<not> starts ''/>'' (k @ ''='' @ s)" for s
    using no_slash [OF k] by (cases k) auto
  note spans = span_stop [OF k, of "CHR ''=''", simplified]
    span_stop [OF list_all_escape(1), of "char_of (34 :: nat)", simplified]
  show ?case
    using ih ns [of "dquote @ escape_attrib v @ dquote @ concat (map attr_text as) @ rest"]
    by (simp add: n kv attr_text_pair spans del: char_of_eq_iff)
qed

lemma xml_text_open: "xml_ok x \<Longrightarrow> \<exists>r. xml_text x = CHR ''<'' # r \<and> (\<forall>s. \<not> starts ''/'' (r @ s))"
proof (cases x)
  case (Elem tag as body kids)
  assume "xml_ok x"
  with Elem show ?thesis
    by (cases tag; cases as) (auto simp: name_char_def attr_text_def)
qed

lemma read_kids_text:
  assumes "\<And>k n r. k \<in> set ks \<Longrightarrow> cost k \<le> n \<Longrightarrow> read_elem n (xml_text k @ r) = Some (k, r)"
    "list_all xml_ok ks" "sum_list (map (\<lambda>k. Suc (cost k)) ks) < n"
  shows "read_kids n (concat (map xml_text ks) @ ''</'' @ rest) = Some (ks, ''</'' @ rest)"
  using assms
proof (induction ks arbitrary: n)
  case Nil
  then obtain m where "n = Suc m" by (cases n) auto
  then show ?case by simp
next
  case (Cons k ks)
  from Cons.prems(3) obtain m where n: "n = Suc m" by (cases n) auto
  with Cons.prems(3) have m: "cost k \<le> m" "sum_list (map (\<lambda>k. Suc (cost k)) ks) < m" by auto
  have "read_kids m (concat (map xml_text ks) @ ''</'' @ rest) = Some (ks, ''</'' @ rest)"
    using Cons.IH [of m] Cons.prems m by simp
  moreover have "read_elem m (xml_text k @ s) = Some (k, s)" for s
    using Cons.prems(1) m by simp
  moreover have "\<not> starts ''</'' (xml_text k @ s)" for s
    using xml_text_open [of k] Cons.prems(2) by auto
  ultimately show ?case by (simp add: n)
qed

lemma attrs_length: "length as \<le> length (concat (map attr_text as))"
  by (induction as) (auto simp: attr_text_def)

lemma kids_stop:
  "list_all xml_ok ks \<Longrightarrow> \<exists>z. concat (map xml_text ks) @ ''</'' @ rest = CHR ''<'' # z"
  by (cases ks) (auto dest!: xml_text_open)

lemma read_inside:
  assumes "list_all xml_ok ks"
  shows "takeWhile not_open (escape_cdata t @ concat (map xml_text ks) @ ''</'' @ rest) = escape_cdata t"
    "dropWhile not_open (escape_cdata t @ concat (map xml_text ks) @ ''</'' @ rest) =
       concat (map xml_text ks) @ ''</'' @ rest"
proof -
  obtain z where "concat (map xml_text ks) @ ''</'' @ rest = CHR ''<'' # z"
    using kids_stop [OF assms] by blast
  then show "takeWhile not_open (escape_cdata t @ concat (map xml_text ks) @ ''</'' @ rest) = escape_cdata t"
    "dropWhile not_open (escape_cdata t @ concat (map xml_text ks) @ ''</'' @ rest) =
       concat (map xml_text ks) @ ''</'' @ rest"
    by (simp_all add: span_stop list_all_escape)
qed

definition body_text :: "string option \<Rightarrow> string" where
  "body_text body = (case body of None \<Rightarrow> [] | Some t \<Rightarrow> t)"

lemma body_of_text: "body \<noteq> Some [] \<Longrightarrow> body_of (escape_cdata (body_text body)) = body"
  by (cases body) (simp_all add: body_of_def body_text_def)

lemma xml_text_long:
  "\<not> (body = None \<and> kids = []) \<Longrightarrow> body \<noteq> Some [] \<Longrightarrow>
     xml_text (Elem tag as body kids) = ''<'' @ tag @ concat (map attr_text as) @ ''>'' @
       escape_cdata (body_text body) @ concat (map xml_text kids) @ ''</'' @ tag @ ''>''"
  by (cases body) (simp_all add: body_text_def)

lemma name_stop:
  assumes "list_all name_char tag" "starts '' '' s \<or> starts ''>'' s"
  shows "takeWhile name_char (tag @ s) = tag" "dropWhile name_char (tag @ s) = s"
  using assms by (cases s; auto simp: span_stop)+

lemma attrs_start:
  "starts '' '' s \<or> starts ''>'' s \<Longrightarrow>
     starts '' '' (concat (map attr_text as) @ s) \<or> starts ''>'' (concat (map attr_text as) @ s)"
  by (cases as) (auto simp: attr_text_def)

lemma read_elem_text:
  "xml_ok x \<Longrightarrow> cost x \<le> n \<Longrightarrow> read_elem n (xml_text x @ rest) = Some (x, rest)"
proof (induction x arbitrary: n rest)
  case (Elem tag as body kids)
  from Elem.prems obtain m where n: "n = Suc m" by (cases n) auto
  from Elem.prems have tag: "list_all name_char tag" and kids: "list_all xml_ok kids"
    and ats: "list_all (\<lambda>kv. list_all name_char (fst kv)) as" and body: "body \<noteq> Some []" by simp_all
  from Elem.prems n have m: "sum_list (map (\<lambda>k. Suc (cost k)) kids) < m" by simp
  have each: "read_elem j (xml_text k @ r) = Some (k, r)" if "k \<in> set kids" "cost k \<le> j" for k j r
    using Elem.IH that kids by (simp add: list_all_iff)
  show ?case
  proof (cases "body = None \<and> kids = []")
    case True
    have "read_attrs (length (xml_text (Elem tag as body kids) @ rest)) (concat (map attr_text as) @ '' />'' @ rest)
        = Some (as, '' />'' @ rest)"
      using True attrs_length [of as] by (intro read_attrs_text [OF ats]) simp_all
    moreover have "starts '' '' (concat (map attr_text as) @ '' />'' @ rest) \<or>
        starts ''>'' (concat (map attr_text as) @ '' />'' @ rest)"
      by (rule attrs_start) simp
    ultimately show ?thesis
      using True name_stop [OF tag, of "concat (map attr_text as) @ '' />'' @ rest"] by (simp add: n)
  next
    case False
    define tl0 where "tl0 = tag @ ''>'' @ rest"
    define ins where "ins = escape_cdata (body_text body) @ concat (map xml_text kids) @ ''</'' @ tl0"
    have full: "xml_text (Elem tag as body kids) @ rest = ''<'' @ tag @ concat (map attr_text as) @ ''>'' @ ins"
      using xml_text_long [OF False body] by (simp add: ins_def tl0_def)
    have "read_attrs (length (''<'' @ tag @ concat (map attr_text as) @ ''>'' @ ins))
        (concat (map attr_text as) @ ''>'' @ ins) = Some (as, ''>'' @ ins)"
      using attrs_length [of as] by (intro read_attrs_text [OF ats]) simp_all
    moreover have "starts '' '' (concat (map attr_text as) @ ''>'' @ ins) \<or>
        starts ''>'' (concat (map attr_text as) @ ''>'' @ ins)"
      by (rule attrs_start) simp
    moreover have "read_kids m (dropWhile not_open ins) = Some (kids, ''</'' @ tl0)"
      using read_kids_text [OF each kids m, of tl0] read_inside(2) [OF kids] by (simp add: ins_def)
    moreover have "body_of (takeWhile not_open ins) = body"
      using read_inside(1) [OF kids, of "body_text body" tl0] body_of_text [OF body] by (simp add: ins_def)
    moreover have "starts (''</'' @ tag @ ''>'') (''</'' @ tl0)" "drop (length tag + 3) (''</'' @ tl0) = rest"
      by (simp_all add: tl0_def starts_def numeral_3_eq_3)
    ultimately show ?thesis
      unfolding full using name_stop [OF tag, of "concat (map attr_text as) @ ''>'' @ ins"]
      by (simp add: n)
  qed
qed

lemma cost_kids:
  "(\<And>k. k \<in> set kids \<Longrightarrow> Suc (cost k) \<le> length (xml_text k)) \<Longrightarrow>
     sum_list (map (\<lambda>k. Suc (cost k)) kids) \<le> length (concat (map xml_text kids))"
proof (induction kids)
  case (Cons k kids)
  have "Suc (cost k) \<le> length (xml_text k)" using Cons.prems [of k] by simp
  moreover have "sum_list (map (\<lambda>k. Suc (cost k)) kids) \<le> length (concat (map xml_text kids))"
    using Cons by simp
  ultimately show ?case by simp
qed simp

lemma cost_length: "Suc (cost x) \<le> length (xml_text x)"
proof (induction x)
  case (Elem tag as body kids)
  then show ?case using cost_kids [of kids] by (cases kids) simp_all
qed

text \<open>What was written is read back, whatever the attribute values and texts hold.\<close>

theorem read_xml_bytes:
  assumes "xml_ok x"
  shows "read_xml (xml_bytes x) = Some x"
proof -
  have "utf8_decode (xml_bytes x) = xml_text x @ [newline]"
    by (simp add: xml_bytes_def newline_def)
  moreover have "read_elem (length (xml_text x @ [newline])) (xml_text x @ [newline]) = Some (x, [newline])"
    using cost_length [of x] by (intro read_elem_text [OF assms]) simp
  ultimately show ?thesis by (simp add: read_xml_def Let_def)
qed

section \<open>Legal characters\<close>

lemma legal_ascii: "list_all xml_char ''&amp;<>lt;gt;/= quot;#13;#10;#09;''" "xml_char (char_of (34 :: nat))"
    "xml_char newline"
  by (simp_all add: xml_char_def newline_def)

lemma legal_escape_char: "list_all xml_char (escape_char c) = xml_char c"
  using legal_ascii by (auto simp: escape_char_def)

lemma legal_escape_attrib_char: "list_all xml_char (escape_attrib_char c) = xml_char c"
  using legal_ascii legal_escape_char [of c] by (auto simp: escape_attrib_char_def xml_char_def)

lemma legal_escape:
  "list_all xml_char (escape_attrib s) = list_all xml_char s" "list_all xml_char (escape_cdata s) = list_all xml_char s"
  by (induction s) (simp_all add: escape_attrib_def escape_cdata_def legal_escape_attrib_char legal_escape_char)

lemma list_all_concat: "list_all P (concat xss) = list_all (list_all P) xss"
  by (induction xss) simp_all

lemma legal_attr: "list_all xml_char (attr_text kv) = (list_all xml_char (fst kv) \<and> list_all xml_char (snd kv))"
  using legal_ascii by (simp add: attr_text_def legal_escape)

lemma legal_xml_text: "list_all xml_char (xml_text x) = legal_tree x"
proof (induction x)
  case (Elem tag as body kids)
  then have "list_all (list_all xml_char) (map xml_text kids) = list_all legal_tree kids"
    by (auto simp: list_all_iff)
  with legal_ascii show ?case
    by (auto simp: list_all_concat list_all_iff [of _ "map attr_text as"] list_all_iff [of _ as] legal_attr
        legal_escape split: option.split)
qed

theorem xml10_bytes: "xml_ok x \<Longrightarrow> xml10 (xml_bytes x) = (if legal_tree x then Some x else None)"
  using legal_ascii by (simp add: xml10_def read_xml_bytes) (simp add: xml_bytes_def legal_xml_text newline_def)

section \<open>One event per line\<close>

fun one_line :: "xml \<Rightarrow> bool" where
  "one_line (Elem tag as body kids) \<longleftrightarrow>
     newline \<notin> set tag \<and> list_all (\<lambda>kv. newline \<notin> set (fst kv)) as \<and>
     (case body of None \<Rightarrow> True | Some t \<Rightarrow> newline \<notin> set t) \<and> list_all one_line kids"

lemma newline_escape_char: "newline \<in> set (escape_char c) \<Longrightarrow> c = newline"
  by (auto simp: escape_char_def newline_def split: if_splits)

lemma newline_escape_attrib_char: "newline \<notin> set (escape_attrib_char c)"
proof (cases "of_char c \<in> {34, 13, 10, 9 :: nat}")
  case True
  then show ?thesis by (auto simp: escape_attrib_char_def newline_def)
next
  case False
  then have "c \<noteq> newline" by (auto simp: newline_def)
  with newline_escape_char have "newline \<notin> set (escape_char c)" by blast
  with False show ?thesis by (simp add: escape_attrib_char_def)
qed

lemma newline_escape_attrib: "newline \<notin> set (escape_attrib s)"
  using newline_escape_attrib_char by (auto simp: escape_attrib_def)

lemma quote_char: "char_of (34 :: nat) = CHR 0x22"
  by code_simp

lemma newline_escape_cdata: "newline \<notin> set s \<Longrightarrow> newline \<notin> set (escape_cdata s)"
  unfolding escape_cdata_def by (auto dest!: newline_escape_char)

lemma newline_attr: "newline \<notin> set (fst kv) \<Longrightarrow> newline \<notin> set (attr_text kv)"
  using newline_escape_attrib by (simp add: attr_text_def newline_def quote_char)

lemma newline_xml_text: "one_line x \<Longrightarrow> newline \<notin> set (xml_text x)"
proof (induction x)
  case (Elem tag as body kids)
  have "newline \<notin> set (concat (map attr_text as))"
    using Elem.prems newline_attr by (auto simp: list_all_iff)
  moreover have "newline \<notin> set (concat (map xml_text kids))"
    using Elem by (auto simp: list_all_iff)
  moreover have "newline \<notin> set (case body of None \<Rightarrow> [] | Some t \<Rightarrow> escape_cdata t)"
    using Elem.prems newline_escape_cdata by (auto split: option.splits)
  ultimately show ?case using Elem.prems by (auto simp: newline_def)
qed

lemma newline_utf8: "newline \<notin> set s \<Longrightarrow> newline \<notin> set (utf8 s)"
proof -
  have "newline \<in> set (utf8_char c) \<Longrightarrow> c = newline" for c
  proof (cases "(of_char c :: nat) < 128")
    case False
    have "(of_char c :: nat) < 256" by simp
    then have "of_char c div 64 < (4 :: nat)" by (simp only: less_mult_imp_div_less)
    then have "of_char (char_of (192 + of_char c div 64 :: nat)) = (192 + of_char c div 64 :: nat)" by simp
    moreover have "of_char (char_of (128 + of_char c mod 64 :: nat)) = (128 + of_char c mod 64 :: nat)" by simp
    moreover have "of_char newline = (10 :: nat)" by (simp add: newline_def)
    ultimately have "newline \<notin> set (utf8_char c)"
      using False by (auto simp: utf8_char_def Let_def dest: arg_cong [where f = "of_char :: char \<Rightarrow> nat"])
    then show "newline \<in> set (utf8_char c) \<Longrightarrow> c = newline" by simp
  qed (simp add: utf8_char_def)
  then show "newline \<notin> set s \<Longrightarrow> newline \<notin> set (utf8 s)" by (auto simp: utf8_def)
qed

end
