(* ===== verification/TakSystem.thy ===== *)
theory TakSystem
  imports Bridge XmlReader
begin

text \<open>
  The bridge as a system of tasks (tak/bridge.py, tak/takserver.py): the MQTT loop, the heartbeat
  and the session of the sink take turns. A step is what one of them does between two points where
  it waits. The invariant says that whatever waits in the queue or went over the connection is one
  well-formed event on one line.
\<close>

section \<open>The sink's session\<close>

text \<open>
  The beginning of \<open>_session\<close> once the connection is open. On a reconnect the backlog is dropped and
  the bridge's callback fills the queue afresh; what the callback raises is logged.
\<close>

definition sink_connect :: "tak_cfg \<Rightarrow> (bridge, unit) prog" where
  "sink_connect cfg =
     andthen (gets br_was_connected) (\<lambda>was.
     andthen (if was then
         andthen (modify (\<lambda>w. w\<lparr>br_queue := snd (drain 0 (br_queue w))\<rparr>)) (\<lambda>_.
           catch_exception (republish_all cfg) (ret ()))
       else ret ()) (\<lambda>_.
     modify (\<lambda>w. w\<lparr>br_was_connected := True, br_link := Up, br_wire := [] # br_wire w\<rparr>)))"

text \<open>
  An event is taken from the queue and handed to the socket, which may send any part of it from then
  on; waiting for the socket to drain succeeds, or fails with a connection error, which puts the event
  back, or the session ends in another way.
\<close>

definition hand_over :: "string \<Rightarrow> string list list \<Rightarrow> string list list" where
  "hand_over x wire = (case wire of [] \<Rightarrow> [[x]] | s # ss \<Rightarrow> (s @ [x]) # ss)"

inductive tak_step :: "tak_cfg \<Rightarrow> bridge \<Rightarrow> bridge \<Rightarrow> bool" for cfg where
  mqtt_message: "handle_mqtt_message cfg m b = (r, b') \<Longrightarrow> tak_step cfg b b'"
| heartbeat: "heartbeat_tick cfg b = (r, b') \<Longrightarrow> tak_step cfg b b'"
| connect: "br_link b = Down \<Longrightarrow> sink_connect cfg b = (r, b') \<Longrightarrow> tak_step cfg b b'"
| take_event: "br_link b = Up \<Longrightarrow> get_nowait (br_queue b) = Some (x, q) \<Longrightarrow>
    tak_step cfg b (b\<lparr>br_queue := q, br_link := Writing x, br_wire := hand_over x (br_wire b)\<rparr>)"
| written: "br_link b = Writing x \<Longrightarrow> tak_step cfg b (b\<lparr>br_link := Up\<rparr>)"
| write_failed: "br_link b = Writing x \<Longrightarrow>
    tak_step cfg b (b\<lparr>br_queue := requeue (br_queue b) x, br_link := Down\<rparr>)"
| link_lost: "tak_step cfg b (b\<lparr>br_link := Down\<rparr>)"

inductive_cases tak_stepE: "tak_step cfg b b'"

definition fresh_bridge :: "(nat \<Rightarrow> real) \<Rightarrow> bridge" where
  "fresh_bridge clock = \<lparr>br_clock = clock, br_tick = 0, br_state = [], br_offline = [], br_queue = [],
     br_was_connected = False, br_link = Down, br_wire = []\<rparr>"

inductive tak_reachable :: "tak_cfg \<Rightarrow> bridge \<Rightarrow> bool" for cfg where
  start: "tak_reachable cfg (fresh_bridge clock)"
| step: "tak_reachable cfg b \<Longrightarrow> tak_step cfg b b' \<Longrightarrow> tak_reachable cfg b'"

section \<open>Events are well-formed lines\<close>

definition is_event :: "string \<Rightarrow> bool" where
  "is_event b \<longleftrightarrow> (\<exists>x. b = xml_bytes x \<and> xml_ok x \<and> one_line x \<and> xml_tag x = ''event'')"

lemma is_eventD:
  assumes "is_event b"
  shows "\<exists>x l. read_xml b = Some x \<and> xml_tag x = ''event'' \<and> (xml10 b = Some x \<longleftrightarrow> legal_tree x) \<and>
     b = l @ [newline] \<and> newline \<notin> set l"
proof -
  obtain x where x: "b = xml_bytes x" "xml_ok x" "one_line x" "xml_tag x = ''event''"
    using assms unfolding is_event_def by blast
  have "newline \<notin> set (utf8 (xml_text x))" using newline_utf8 newline_xml_text x(3) by blast
  with x read_xml_bytes [OF x(2)] xml10_bytes [OF x(2)] show ?thesis
    by (intro exI [of _ x] exI [of _ "utf8 (xml_text x)"]) (simp add: xml_bytes_def)
qed

lemma newline_digit: "newline \<noteq> digit n"
proof
  assume "newline = digit n"
  then have "(of_char (digit n) :: nat) = of_char newline" by simp
  moreover have "(of_char (digit n) :: nat) = 48 + n mod 10" by (simp add: digit_def)
  ultimately show False by (simp add: newline_def)
qed

lemma newline_str_nat: "newline \<notin> set (str_nat n)"
proof (induction n rule: str_nat.induct)
  case (1 n)
  then show ?case using newline_digit by (subst str_nat.simps) auto
qed

lemma newline_str_int: "newline \<notin> set (str_int n)"
  using newline_str_nat by (auto simp: str_int_def newline_def)

lemma newline_fixed_point: "newline \<notin> set (fixed_point d f)"
  using newline_str_int by (auto simp: fixed_point_def pad_def Let_def newline_def split: pyfloat.splits xreal.splits)

lemma newline_join:
  "newline \<notin> set sep \<Longrightarrow> \<forall>s\<in>set ss. newline \<notin> set s \<Longrightarrow> newline \<notin> set (join sep ss)"
  by (induction sep ss rule: join.induct) auto

lemma int_remark_line: "int_remark label u v = Inr ss \<Longrightarrow> newline \<notin> set label \<Longrightarrow> newline \<notin> set u \<Longrightarrow>
    \<forall>s\<in>set ss. newline \<notin> set s"
  using newline_str_int by (auto simp: int_remark_def ebind_Inr_iff newline_def split: if_splits)

lemma snr_remark_line: "snr_remark v = Inr ss \<Longrightarrow> \<forall>s\<in>set ss. newline \<notin> set s"
  using newline_fixed_point by (auto simp: snr_remark_def ebind_Inr_iff newline_def split: if_splits)

lemma remarks_line:
  assumes "remarks_for key r = Inr (Some t)"
  shows "newline \<notin> set t"
proof -
  obtain a b c d where parts: "int_remark ''last_seen_age'' ''s'' (dget r ''last_seen_age_s'') = Inr a"
      "int_remark ''battery'' ''%'' (dget r ''bat_pct'') = Inr b"
      "int_remark ''rssi'' [] (dget r ''rssi'') = Inr c" "snr_remark (dget r ''snr'') = Inr d"
    and t: "t = join ''; '' (a @ b @ c @ d)"
    using assms by (auto simp: remarks_for_def ebind_Inr_iff simp del: append_is_Nil_conv split: if_splits)
  have "\<forall>s\<in>set (a @ b @ c @ d). newline \<notin> set s"
    using int_remark_line [OF parts(1)] int_remark_line [OF parts(2)] int_remark_line [OF parts(3)]
      snr_remark_line [OF parts(4)] by (auto simp: newline_def)
  moreover have "newline \<notin> set ''; ''" by (simp add: newline_def)
  ultimately show ?thesis unfolding t by (intro newline_join)
qed

lemma track_names:
  "list_all (\<lambda>kv. list_all name_char (fst kv)) (track_attrs s c)"
  "list_all (\<lambda>kv. newline \<notin> set (fst kv)) (track_attrs s c)"
  by (auto simp: track_attrs_def name_char_def newline_def split: option.splits)

lemma detail_kids_ok:
  assumes "\<And>t. c_remarks c = Some t \<Longrightarrow> newline \<notin> set t"
  shows "list_all xml_ok (detail_kids c)" "list_all one_line (detail_kids c)"
  using assms track_names [of "c_speed c" "c_course c"]
  by (auto simp: detail_kids_def name_char_def newline_def split: option.splits)

lemma cot_tree_ok:
  assumes "\<And>t. c_remarks c = Some t \<Longrightarrow> newline \<notin> set t"
  shows "xml_ok (cot_tree c stale)" "one_line (cot_tree c stale)"
  using detail_kids_ok [OF assms]
  by (simp_all add: cot_tree_def event_attrs_def point_attrs_def name_char_def newline_def)

lemma drop_tree_ok: "xml_ok (drop_tree u ty lat lon now stale)" "one_line (drop_tree u ty lat lon now stale)"
  by (simp_all add: drop_tree_def event_attrs_def point_attrs_def name_char_def newline_def)

lemma build_cot_event:
  assumes "build_cot c = Inr b" "\<And>t. c_remarks c = Some t \<Longrightarrow> newline \<notin> set t"
  shows "is_event b"
proof -
  obtain stale where "b = xml_bytes (cot_tree c stale)"
    using assms(1) by (auto simp: build_cot_def ebind_Inr_iff)
  moreover have "xml_tag (cot_tree c stale) = ''event''" by (simp add: cot_tree_def)
  ultimately show ?thesis using cot_tree_ok [OF assms(2)] unfolding is_event_def by blast
qed

lemma build_drop_event:
  assumes "build_drop_cot u ty lat lon now = Inr b"
  shows "is_event b"
proof -
  obtain stale where "b = xml_bytes (drop_tree u ty lat lon now stale)"
    using assms by (auto simp: build_drop_cot_def ebind_Inr_iff)
  moreover have "xml_tag (drop_tree u ty lat lon now stale) = ''event''" by (simp add: drop_tree_def)
  ultimately show ?thesis using drop_tree_ok unfolding is_event_def by blast
qed

section \<open>The invariant\<close>

definition pending :: "bridge \<Rightarrow> string list" where
  "pending w = (case br_link w of Writing x \<Rightarrow> [x] | _ \<Rightarrow> [])"

definition sink_ok :: "bridge \<Rightarrow> bool" where
  "sink_ok w \<longleftrightarrow> length (br_queue w) \<le> QUEUE_CAP \<and>
     (\<forall>e \<in> set (br_queue w) \<union> set (pending w) \<union> set (concat (br_wire w)). is_event e)"

lemma set_hand_over: "set (concat (hand_over x wire)) = insert x (set (concat wire))"
  by (cases wire) (auto simp: hand_over_def)

text \<open>What only touches the maps and the clock keeps it, and so does sending an event.\<close>

lemma sink_ok_frame:
  "br_queue w' = br_queue w \<Longrightarrow> br_link w' = br_link w \<Longrightarrow> br_wire w' = br_wire w \<Longrightarrow> sink_ok w' = sink_ok w"
  by (simp add: sink_ok_def pending_def)

lemma keeps_modify:
  "(\<And>w. br_queue (f w) = br_queue w \<and> br_link (f w) = br_link w \<and> br_wire (f w) = br_wire w) \<Longrightarrow>
     evolves (kept sink_ok) (modify f)"
  by (rule evolvesI) (metis kept_def modify_apply prod.inject sink_ok_frame)

lemma keeps_br_time [evolves_intros]: "evolves (kept sink_ok) br_time"
  unfolding evolves_def kept_def br_time_def by (simp add: sink_ok_def pending_def)

lemma sink_ok_send: "sink_ok w \<Longrightarrow> is_event e \<Longrightarrow> sink_ok (w\<lparr>br_queue := sink_send (br_queue w) e\<rparr>)"
  using sink.send_bounded [of "br_queue w" e] sink.send_set [of "br_queue w" e]
  by (auto simp: sink_ok_def pending_def)

lemma keeps_send: "is_event e \<Longrightarrow> evolves (kept sink_ok) (send_event e)"
  unfolding send_event_def evolves_def kept_def using sink_ok_send by simp

lemma keeps_lift_send:
  "(\<And>b. r = Inr b \<Longrightarrow> is_event b) \<Longrightarrow> evolves (kept sink_ok) (andthen (lift r) send_event)"
  by (cases r) (auto simp: andthen_lift_Inr andthen_lift_Inl intro: keeps_send kept.evolves_raise)

lemma keeps_event_time [evolves_intros]: "evolves (kept sink_ok) (event_time v)"
  unfolding event_time_def now_utc_def by (intro evolves_intros)

lemma keeps_lift_andthen:
  "(\<And>x. r = Inr x \<Longrightarrow> evolves (kept I) (f x)) \<Longrightarrow> evolves (kept I) (andthen (lift r) f)"
  by (cases r) (auto intro: kept.evolves_raise)

lemma keeps_publish_one [evolves_intros]: "evolves (kept sink_ok) (publish_one cfg key)"
  unfolding publish_one_def
proof (rule kept.evolves_andthen, rule kept.evolves_gets, rule evolves_case_option, rule kept.evolves_ret,
    rule evolves_if, rule kept.evolves_ret, rule keeps_lift_andthen, rule kept.evolves_andthen,
    rule keeps_event_time, rule keeps_lift_andthen, rule keeps_lift_andthen, rule keeps_lift_send)
  fix w r cs time remarks c b
  assume parts: "remarks_for key r = Inr remarks" "cot_for cfg key r cs time remarks = Inr c"
    and b: "build_cot c = Inr b"
  from parts have "c_remarks c = Some t \<Longrightarrow> newline \<notin> set t" for t
    using remarks_line by (auto simp: cot_for_def ebind_Inr_iff)
  with b show "is_event b" by (rule build_cot_event)
qed

lemma keeps_publish_drop [evolves_intros]: "evolves (kept sink_ok) (publish_drop cfg key)"
  unfolding publish_drop_def now_utc_def
proof (rule kept.evolves_andthen, rule kept.evolves_gets, rule evolves_case_option, rule kept.evolves_ret,
    rule evolves_if, rule kept.evolves_ret, rule kept.evolves_andthen, rule kept.evolves_lift,
    rule kept.evolves_andthen, rule kept.evolves_lift, rule kept.evolves_andthen,
    rule kept.evolves_andthen, rule keeps_br_time, rule kept.evolves_lift, rule keeps_lift_send)
qed (rule build_drop_event)

lemma keeps_publish_keys [evolves_intros]: "evolves (kept sink_ok) (publish_keys cfg ks)"
proof (induction ks)
  case Nil
  show ?case unfolding publish_keys.simps by (rule kept.evolves_ret)
next
  case (Cons k ks)
  then show ?case unfolding publish_keys.simps by (intro evolves_intros)
qed

lemma keeps_republish_all [evolves_intros]: "evolves (kept sink_ok) (republish_all cfg)"
  unfolding republish_all_def by (intro evolves_intros)

lemma keeps_evict_nodes [evolves_intros]: "evolves (kept sink_ok) (evict_nodes cfg ks)"
proof (induction ks)
  case Nil
  show ?case unfolding evict_nodes.simps by (rule kept.evolves_ret)
next
  case (Cons k ks)
  then show ?case unfolding evict_nodes.simps by (intro evolves_intros keeps_modify) simp_all
qed

lemma keeps_heartbeat: "evolves (kept sink_ok) (heartbeat_tick cfg)"
  unfolding heartbeat_tick_def evict_long_offline_def by (intro evolves_intros)

lemma keeps_merge [evolves_intros]: "evolves (kept sink_ok) (merge_state key data kind)"
  unfolding merge_state_def Let_def by (intro evolves_intros keeps_modify) simp

lemma keeps_tracking [evolves_intros]: "evolves (kept sink_ok) (update_offline_tracking n data)"
  unfolding update_offline_tracking_def by (intro evolves_intros keeps_modify) simp_all

lemma keeps_handle: "evolves (kept sink_ok) (handle_mqtt_message cfg m)"
  unfolding handle_mqtt_message_def handle_node_def
  by (intro evolves_intros) (auto split: pyval.split intro!: evolves_intros)

lemma keeps_connect: "evolves (kept sink_ok) (sink_connect cfg)"
proof -
  have "evolves (kept sink_ok) (modify (\<lambda>w. w\<lparr>br_queue := snd (drain 0 (br_queue w))\<rparr>))"
    "evolves (kept sink_ok) (modify (\<lambda>w. w\<lparr>br_was_connected := True, br_link := Up, br_wire := [] # br_wire w\<rparr>))"
    by (auto simp: evolves_def kept_def sink_ok_def pending_def drain_all)
  then show ?thesis
    unfolding sink_connect_def by (intro evolves_intros) assumption+
qed

lemma tak_step_ok: "tak_step cfg b b' \<Longrightarrow> sink_ok b \<Longrightarrow> sink_ok b'"
proof (induction rule: tak_step.induct)
  case (mqtt_message m b r b')
  then show ?case using evolves_keptD [OF keeps_handle] by blast
next
  case (heartbeat b r b')
  then show ?case using evolves_keptD [OF keeps_heartbeat] by blast
next
  case (connect b r b')
  then show ?case using evolves_keptD [OF keeps_connect] by blast
next
  case (take_event b x q)
  then have "br_queue b = x # q" by (simp add: get_nowait_def split: list.splits)
  with take_event.prems show ?case
    unfolding sink_ok_def by (auto simp: pending_def set_hand_over simp del: set_concat)
next
  case (written b x)
  then show ?case by (auto simp: sink_ok_def pending_def)
next
  case (write_failed b x)
  then show ?case
    using requeue_bounded [of "br_queue b" x] requeue_set [of "br_queue b" x]
    by (auto simp: sink_ok_def pending_def)
next
  case (link_lost b)
  then show ?case by (auto simp: sink_ok_def pending_def)
qed

lemma tak_reachable_ok: "tak_reachable cfg b \<Longrightarrow> sink_ok b"
proof (induction rule: tak_reachable.induct)
  case (start clock)
  show ?case by (simp add: sink_ok_def pending_def fresh_bridge_def)
next
  case (step b b')
  then show ?case using tak_step_ok by blast
qed

end
