(* ===== verification/TakLaws.thy ===== *)
theory TakLaws
  imports TakSystem
begin

text \<open>
  What the bridge's operations do on records it can publish: numbers a float can hold and time
  stamps inside the calendar. \<open>publishes\<close> describes a coroutine that sends one event for each of
  some keys and leaves the maps alone.
\<close>

section \<open>Sane values\<close>

definition sane_time :: "real \<Rightarrow> bool" where
  "sane_time t \<longleftrightarrow> 0 \<le> t \<and> t \<le> 253402000000"

fun sane_val :: "pyval \<Rightarrow> bool" where
  "sane_val (VInt n) = (\<bar>n\<bar> < 2 ^ 53)"
| "sane_val (VFloat (Flt (Fin a))) = True"
| "sane_val (VFloat f) = False"
| "sane_val v = True"

fun sane_ts :: "pyval \<Rightarrow> bool" where
  "sane_ts (VInt n) = sane_time (of_int n)"
| "sane_ts (VFloat (Flt (Fin a))) = sane_time a"
| "sane_ts (VFloat f) = False"
| "sane_ts v = True"

definition sane_record :: "pydict \<Rightarrow> bool" where
  "sane_record r \<longleftrightarrow> (\<forall>k. sane_val (dget r k)) \<and> sane_ts (dget r ''ts'')"

definition sane_cfg :: "tak_cfg \<Rightarrow> bool" where
  "sane_cfg cfg \<longleftrightarrow> (\<forall>k. \<exists>cs. t_callsign cfg k = Inr cs) \<and> 0 \<le> t_stale_after cfg \<and> t_stale_after cfg \<le> 100000"

definition sane_bridge :: "tak_cfg \<Rightarrow> bridge \<Rightarrow> bool" where
  "sane_bridge cfg w \<longleftrightarrow> sane_cfg cfg \<and> (\<forall>i. sane_time (br_clock w i)) \<and>
     (\<forall>k r. map_of (br_state w) k = Some r \<longrightarrow> sane_record r)"

lemma sane_float: "sane_val v \<Longrightarrow> is_num v \<Longrightarrow> \<exists>a. as_float v = Inr (Flt (Fin a)) \<and> num_val v = Flt (Fin a)"
proof (induction v rule: sane_val.induct)
  case (1 n)
  have "(2 :: int) ^ 53 < 2 ^ 1024 - 2 ^ 970" by simp
  with 1 show ?case by (simp add: float_of_int_def)
qed simp_all

lemma sane_int: "sane_val v \<Longrightarrow> is_num v \<Longrightarrow> \<exists>n. int_of v = Inr n"
  by (induction v rule: sane_val.induct) simp_all

lemma sane_opt_float: "sane_val v \<Longrightarrow> \<exists>x. opt_float v = Inr x"
  using sane_float [of v] by (auto simp: opt_float_def)

lemma sane_micros:
  assumes "sane_time t"
  shows "0 \<le> round_even (t * 1000000)" "round_even (t * 1000000) \<le> 253402000000000001"
    "datetime_ok (round_even (t * 1000000))"
proof -
  have t: "0 \<le> t * 1000000" "t * 1000000 \<le> 253402000000000000" using assms by (auto simp: sane_time_def)
  show 1: "0 \<le> round_even (t * 1000000)" using t(1) by (rule round_even_nonneg)
  have "real_of_int (round_even (t * 1000000)) \<le> 253402000000000001"
    using round_even_bounds(1) [of "t * 1000000"] t by linarith
  then show 2: "round_even (t * 1000000) \<le> 253402000000000001" by linarith
  show "datetime_ok (round_even (t * 1000000))" using 1 2 by (simp add: datetime_ok_def)
qed

lemma sane_ts_micros:
  assumes "sane_ts v" "is_num v"
  shows "\<exists>us. utc_micros v = Inr us \<and> 0 \<le> us \<and> us \<le> 253402000000000001"
proof -
  obtain t where t: "num_val v = Flt (Fin t)" "sane_time t"
    using assms by (induction v rule: sane_ts.induct) (auto simp: sane_time_def)
  with sane_micros [OF t(2)] show ?thesis by (simp add: utc_micros_def Let_def)
qed

lemma sane_int_remark: "sane_val v \<Longrightarrow> \<exists>ss. int_remark l u v = Inr ss"
  using sane_int [of v] by (auto simp: int_remark_def)

lemma sane_snr_remark: "sane_val v \<Longrightarrow> \<exists>ss. snr_remark v = Inr ss"
  using sane_float [of v] by (auto simp: snr_remark_def)

lemma sane_remarks:
  assumes "sane_record r"
  shows "\<exists>t. remarks_for key r = Inr t"
proof -
  have v: "sane_val (dget r k)" for k using assms by (simp add: sane_record_def)
  obtain a b c d where "int_remark ''last_seen_age'' ''s'' (dget r ''last_seen_age_s'') = Inr a"
    "int_remark ''battery'' ''%'' (dget r ''bat_pct'') = Inr b"
    "int_remark ''rssi'' [] (dget r ''rssi'') = Inr c" "snr_remark (dget r ''snr'') = Inr d"
    using sane_int_remark [OF v] sane_snr_remark [OF v] by metis
  then show ?thesis by (simp add: remarks_for_def)
qed

section \<open>The event of a record\<close>

text \<open>What a reader of the event finds: whom it is about, and where.\<close>

definition reads_as :: "string \<Rightarrow> string \<Rightarrow> string \<Rightarrow> string \<Rightarrow> bool" where
  "reads_as b uid lat lon \<longleftrightarrow> (\<exists>x. read_xml b = Some x \<and> xml_tag x = ''event'' \<and>
     map_of (xml_attrs x) ''uid'' = Some uid \<and>
     map_of (xml_attrs (hd (xml_kids x))) ''lat'' = Some lat \<and>
     map_of (xml_attrs (hd (xml_kids x))) ''lon'' = Some lon)"

lemma sane_cot:
  assumes "sane_record r" "has_position r" "sane_cfg cfg" "0 \<le> us" "us \<le> 253402000000000001"
    "remarks_for key r = Inr remarks"
    "as_float (dget r ''lat'') = Inr lat" "as_float (dget r ''lon'') = Inr lon"
  shows "\<exists>c b. cot_for cfg key r cs us remarks = Inr c \<and> build_cot c = Inr b \<and>
     reads_as b (uid_for key) (fixed_point 7 lat) (fixed_point 7 lon)"
proof -
  have v: "sane_val (dget r k)" for k using assms(1) by (simp add: sane_record_def)
  obtain alt spd hdg acc where opts: "opt_float (dget r ''alt'') = Inr alt" "opt_float (dget r ''spd'') = Inr spd"
    "opt_float (dget r ''hdg'') = Inr hdg" "opt_float (dget r ''acc'') = Inr acc"
    using sane_opt_float [OF v] by metis
  define c where "c = \<lparr>c_uid = uid_for key, c_type = cot_type_for cfg key, c_lat = lat, c_lon = lon,
    c_time = us, c_stale_after = t_stale_after cfg, c_callsign = Some cs,
    c_alt = alt, c_speed = spd, c_course = hdg, c_acc = acc, c_remarks = remarks\<rparr>"
  have cot: "cot_for cfg key r cs us remarks = Inr c"
    using opts assms(7,8) by (simp add: cot_for_def c_def)
  have "datetime_ok (us + t_stale_after cfg * 1000000)"
    using assms(3-5) by (simp add: sane_cfg_def datetime_ok_def)
  then have build: "build_cot c = Inr (xml_bytes (cot_tree c (us + t_stale_after cfg * 1000000)))"
    by (simp add: build_cot_def add_seconds_def c_def)
  have "c_remarks c = Some t \<Longrightarrow> newline \<notin> set t" for t
    using assms(6) remarks_line by (simp add: c_def)
  then have "read_xml (xml_bytes (cot_tree c stale)) = Some (cot_tree c stale)" for stale
    by (intro read_xml_bytes cot_tree_ok)
  then have "reads_as (xml_bytes (cot_tree c stale)) (uid_for key) (fixed_point 7 lat) (fixed_point 7 lon)" for stale
    unfolding reads_as_def by (intro exI [of _ "cot_tree c stale"])
      (simp add: cot_tree_def event_attrs_def point_attrs_def c_def)
  with cot build show ?thesis by blast
qed

definition event_for :: "string \<Rightarrow> pydict \<Rightarrow> string \<Rightarrow> bool" where
  "event_for key r b \<longleftrightarrow> (\<exists>lat lon. as_float (dget r ''lat'') = Inr lat \<and> as_float (dget r ''lon'') = Inr lon \<and>
     reads_as b (uid_for key) (fixed_point 7 lat) (fixed_point 7 lon))"

text \<open>The maps are left alone; only the clock and the queue move.\<close>

definition only_sent :: "string list \<Rightarrow> bridge \<Rightarrow> bridge \<Rightarrow> bool" where
  "only_sent bs w w' \<longleftrightarrow> (\<exists>n. w' = w\<lparr>br_tick := n, br_queue := foldl sink_send (br_queue w) bs\<rparr>)"

lemma only_sent_refl: "only_sent [] w w"
  unfolding only_sent_def by (rule exI [of _ "br_tick w"]) simp

lemma only_sent_trans: "only_sent as u v \<Longrightarrow> only_sent bs v w \<Longrightarrow> only_sent (as @ bs) u w"
  unfolding only_sent_def by auto

lemma only_sentD:
  "only_sent bs w w' \<Longrightarrow> br_state w' = br_state w" "only_sent bs w w' \<Longrightarrow> br_offline w' = br_offline w"
  "only_sent bs w w' \<Longrightarrow> br_clock w' = br_clock w"
  "only_sent bs w w' \<Longrightarrow> br_queue w' = foldl sink_send (br_queue w) bs"
  "only_sent bs w w' \<Longrightarrow> br_was_connected w' = br_was_connected w"
  by (auto simp: only_sent_def)

lemma only_sent_sane: "only_sent bs w w' \<Longrightarrow> sane_bridge cfg w \<Longrightarrow> sane_bridge cfg w'"
  by (auto simp: sane_bridge_def only_sent_def)

lemma sane_event_time:
  assumes "sane_ts v" "\<forall>i. sane_time (br_clock w i)"
  shows "\<exists>us w'. event_time v w = (Inr us, w') \<and> only_sent [] w w' \<and> 0 \<le> us \<and> us \<le> 253402000000000001"
proof (cases "is_num v")
  case True
  then obtain us where "utc_micros v = Inr us" "0 \<le> us" "us \<le> 253402000000000001"
    using sane_ts_micros assms by blast
  with True show ?thesis
    by (intro exI [of _ us] exI [of _ w]) (simp add: event_time_def only_sent_refl)
next
  case False
  obtain us where "utc_micros (VFloat (Flt (Fin (br_clock w (br_tick w))))) = Inr us" "0 \<le> us" "us \<le> 253402000000000001"
    using sane_ts_micros [of "VFloat (Flt (Fin (br_clock w (br_tick w))))"] assms by auto
  moreover have "only_sent [] w (w\<lparr>br_tick := Suc (br_tick w)\<rparr>)"
    unfolding only_sent_def by (rule exI [of _ "Suc (br_tick w)"]) simp
  ultimately show ?thesis using False
    by (intro exI [of _ us] exI [of _ "w\<lparr>br_tick := Suc (br_tick w)\<rparr>"])
      (simp add: event_time_def now_utc_def br_time_def andthen_def)
qed

section \<open>Publishing\<close>

definition located :: "(string \<times> pydict) list \<Rightarrow> string \<Rightarrow> bool" where
  "located st k \<longleftrightarrow> (case map_of st k of None \<Rightarrow> False | Some r \<Rightarrow> has_position r)"

lemma no_position_Nil [simp]: "\<not> has_position []"
  by (simp add: has_position_def)

lemma sane_position:
  assumes "sane_record r" "has_position r"
  obtains (nums) lat lon where "as_float (dget r ''lat'') = Inr (Flt (Fin lat))" "as_float (dget r ''lon'') = Inr (Flt (Fin lon))"
proof -
  have v: "sane_val (dget r k)" for k using assms(1) by (simp add: sane_record_def)
  obtain lat lon where "as_float (dget r ''lat'') = Inr (Flt (Fin lat))" "as_float (dget r ''lon'') = Inr (Flt (Fin lon))"
    using sane_float [OF v, of "''lat''"] sane_float [OF v, of "''lon''"] assms(2)
    unfolding has_position_def by blast
  then show thesis by (rule nums)
qed

lemma sane_callsign: "sane_cfg cfg \<Longrightarrow> \<exists>cs. callsign_for cfg key = Inr cs"
  by (simp add: sane_cfg_def callsign_for_def)

lemma send_only_sent: "only_sent [] w v \<Longrightarrow> send_event b v = (Inr (), v') \<Longrightarrow> only_sent [b] w v'"
proof -
  assume "only_sent [] w v" "send_event b v = (Inr (), v')"
  then obtain n where "v = w\<lparr>br_tick := n, br_queue := br_queue w\<rparr>"
    and v': "v' = v\<lparr>br_queue := sink_send (br_queue v) b\<rparr>"
    unfolding only_sent_def send_event_def by auto
  then have "v' = w\<lparr>br_tick := n, br_queue := sink_send (br_queue w) b\<rparr>" by simp
  then show "only_sent [b] w v'" unfolding only_sent_def by (intro exI [of _ n]) simp
qed

lemma publish_one_sane:
  assumes "sane_bridge cfg w" "map_of (br_state w) k = Some r" "has_position r"
  shows "\<exists>b w'. publish_one cfg k w = (Inr (), w') \<and> only_sent [b] w w' \<and> event_for k r b"
proof -
  from assms have r: "sane_record r" and cfg: "sane_cfg cfg" and clock: "\<forall>i. sane_time (br_clock w i)"
    unfolding sane_bridge_def by blast+
  obtain cs where cs: "callsign_for cfg k = Inr cs" using sane_callsign [OF cfg] by blast
  obtain us v where time: "event_time (dget r ''ts'') w = (Inr us, v)" "only_sent [] w v"
    and us: "0 \<le> us" "us \<le> 253402000000000001"
    using sane_event_time [OF _ clock, of "dget r ''ts''"] r unfolding sane_record_def by blast
  obtain rem where rem: "remarks_for k r = Inr rem" using sane_remarks [OF r] by blast
  obtain lat lon where pos: "as_float (dget r ''lat'') = Inr (Flt (Fin lat))"
    "as_float (dget r ''lon'') = Inr (Flt (Fin lon))" using sane_position [OF r assms(3)] .
  obtain c b where c: "cot_for cfg k r cs us rem = Inr c" "build_cot c = Inr b"
    and reads: "reads_as b (uid_for k) (fixed_point 7 (Flt (Fin lat))) (fixed_point 7 (Flt (Fin lon)))"
    using sane_cot [OF r assms(3) cfg us rem pos] by blast
  have bind: "andthen (event_time (dget r ''ts'')) f w = f us v" for f :: "int \<Rightarrow> (bridge, unit) prog"
    using time(1) by (rule andthen_Inr)
  define v' where "v' = v\<lparr>br_queue := sink_send (br_queue v) b\<rparr>"
  have sent: "send_event b v = (Inr (), v')" by (simp add: send_event_def v'_def)
  have "r \<noteq> []" using assms(3) by auto
  then have "publish_one cfg k w = (Inr (), v')"
    using assms(2,3) cs rem c sent by (simp add: publish_one_def bind)
  moreover have "only_sent [b] w v'" using send_only_sent [OF time(2) sent] .
  moreover have "event_for k r b" using pos reads unfolding event_for_def by blast
  ultimately show ?thesis by blast
qed

lemma publish_one_idle: "\<not> located (br_state w) k \<Longrightarrow> publish_one cfg k w = (Inr (), w)"
  by (cases "map_of (br_state w) k") (simp_all add: publish_one_def located_def)

definition events_for :: "(string \<times> pydict) list \<Rightarrow> string list \<Rightarrow> string list \<Rightarrow> bool" where
  "events_for st ks bs \<longleftrightarrow>
     list_all2 (\<lambda>k b. \<exists>r. map_of st k = Some r \<and> event_for k r b) (filter (located st) ks) bs"

lemma publish_keys_sane:
  "sane_bridge cfg w \<Longrightarrow> \<exists>bs w'. publish_keys cfg ks w = (Inr (), w') \<and> only_sent bs w w' \<and>
     events_for (br_state w) ks bs"
proof (induction ks arbitrary: w)
  case Nil
  have "events_for (br_state w) [] []" by (simp add: events_for_def)
  with only_sent_refl [of w] show ?case by (intro exI [of _ "[]"] exI [of _ w]) simp
next
  case (Cons k ks)
  show ?case
  proof (cases "located (br_state w) k")
    case False
    with Cons.IH [OF Cons.prems] publish_one_idle [OF False] show ?thesis
      by (simp add: andthen_Inr events_for_def)
  next
    case True
    then obtain r where r: "map_of (br_state w) k = Some r" "has_position r"
      by (auto simp: located_def split: option.splits)
    obtain b v where one: "publish_one cfg k w = (Inr (), v)" "only_sent [b] w v" "event_for k r b"
      using publish_one_sane [OF Cons.prems r] by blast
    obtain bs w' where rest: "publish_keys cfg ks v = (Inr (), w')" "only_sent bs v w'" "events_for (br_state v) ks bs"
      using Cons.IH [OF only_sent_sane [OF one(2) Cons.prems]] by blast
    have st: "br_state v = br_state w" using only_sentD(1) [OF one(2)] .
    have "publish_keys cfg (k # ks) w = (Inr (), w')" using one rest by (simp add: andthen_Inr)
    moreover have "only_sent (b # bs) w w'" using only_sent_trans [OF one(2) rest(2)] by simp
    moreover have "events_for (br_state w) (k # ks) (b # bs)"
      using True r(1) one(3) rest(3) unfolding events_for_def st by auto
    ultimately show ?thesis by blast
  qed
qed

section \<open>Dropping\<close>

text \<open>An event that is stale before it starts, which takes the marker off the map.\<close>

definition lapsed :: "string \<Rightarrow> bool" where
  "lapsed b \<longleftrightarrow> (\<exists>x now. read_xml b = Some x \<and> map_of (xml_attrs x) ''start'' = Some (isoz now) \<and>
     map_of (xml_attrs x) ''stale'' = Some (isoz (now - 1000000)))"

lemma publish_drop_sane:
  assumes "sane_bridge cfg w" "map_of (br_state w) k = Some r" "has_position r"
  shows "\<exists>b w'. publish_drop cfg k w = (Inr (), w') \<and> only_sent [b] w w' \<and> event_for k r b \<and> lapsed b"
proof -
  from assms have r: "sane_record r" and clock: "sane_time (br_clock w (br_tick w))"
    unfolding sane_bridge_def by blast+
  define us where "us = round_even (br_clock w (br_tick w) * 1000000)"
  define v where "v = w\<lparr>br_tick := Suc (br_tick w)\<rparr>"
  have us: "0 \<le> us" "us \<le> 253402000000000001" "datetime_ok us"
    using sane_micros [OF clock] by (simp_all add: us_def)
  then have now: "now_utc w = (Inr us, v)"
    by (simp add: now_utc_def br_time_def andthen_def utc_micros_def us_def v_def)
  obtain lat lon where pos: "as_float (dget r ''lat'') = Inr (Flt (Fin lat))"
    "as_float (dget r ''lon'') = Inr (Flt (Fin lon))" using sane_position [OF r assms(3)] .
  let ?lat = "Flt (Fin lat)" and ?lon = "Flt (Fin lon)"
  define x where "x = drop_tree (uid_for k) (cot_type_for cfg k) ?lat ?lon us (us - 1000000)"
  have "datetime_ok (us - 1000000)" using us by (simp add: datetime_ok_def)
  then have build: "build_drop_cot (uid_for k) (cot_type_for cfg k) ?lat ?lon us = Inr (xml_bytes x)"
    by (simp add: build_drop_cot_def add_seconds_def x_def)
  have read: "read_xml (xml_bytes x) = Some x" unfolding x_def by (intro read_xml_bytes drop_tree_ok)
  have bind: "andthen now_utc f w = f us v" for f :: "int \<Rightarrow> (bridge, unit) prog"
    using now by (rule andthen_Inr)
  define v' where "v' = v\<lparr>br_queue := sink_send (br_queue v) (xml_bytes x)\<rparr>"
  have sent: "send_event (xml_bytes x) v = (Inr (), v')" by (simp add: send_event_def v'_def)
  have idle: "only_sent [] w v" unfolding only_sent_def v_def by (rule exI [of _ "Suc (br_tick w)"]) simp
  have "r \<noteq> []" using assms(3) by auto
  then have "publish_drop cfg k w = (Inr (), v')"
    using assms(2,3) pos build sent by (simp add: publish_drop_def bind)
  moreover have "only_sent [xml_bytes x] w v'" using send_only_sent [OF idle sent] .
  moreover have "event_for k r (xml_bytes x)"
    unfolding event_for_def reads_as_def using pos read
    by (simp add: x_def drop_tree_def event_attrs_def point_attrs_def)
  moreover have "lapsed (xml_bytes x)"
    unfolding lapsed_def using read
    by (intro exI [of _ x] exI [of _ us]) (simp add: x_def drop_tree_def event_attrs_def)
  ultimately show ?thesis by blast
qed

lemma publish_drop_idle: "\<not> located (br_state w) k \<Longrightarrow> publish_drop cfg k w = (Inr (), w)"
  by (cases "map_of (br_state w) k") (simp_all add: publish_drop_def located_def)

end
