(* ===== verification/SweepProps.thy ===== *)
theory SweepProps
  imports Liveness
begin

text \<open>
  The two background activities of the service: the retention sweeper and the throttled
  republication of the GPS base location.
\<close>

section \<open>Retention\<close>

text \<open>
  C38. One retention sweep on a database that answers. A row of \<open>requests\<close> stays exactly when it is
  pending or was completed no earlier than \<open>days\<close> days before the clock reading at the sweep (a row of
  exactly that age stays), in the old order; the number reported is that of the rows that went. An
  event stays when it is no older than that or its request is still there, a snapshot when it is no
  older. The registry of nodes, the locations, the batteries and the base location are untouched.
\<close>

theorem sweep_removes_old_requests:
  assumes "healthy w" "cutoff = h_clock (w_host w) (w_tick w) - of_int (sw_days s) * 86400"
  shows "\<exists>n w'. run_once s w = (Inr n, w') \<and>
     t_requests (w_db w') =
       filter (\<lambda>r. case r_completed r of None \<Rightarrow> True | Some t \<Rightarrow> cutoff \<le> t) (t_requests (w_db w)) \<and>
     n = int (length (t_requests (w_db w))) - int (length (t_requests (w_db w'))) \<and>
     t_events (w_db w') = filter (\<lambda>e. cutoff \<le> e_ts e \<or> e_request e \<in> r_id ` set (t_requests (w_db w')))
       (t_events (w_db w)) \<and>
     t_snapshots (w_db w') = filter (\<lambda>g. cutoff \<le> g_ts g) (t_snapshots (w_db w)) \<and>
     t_nodes (w_db w') = t_nodes (w_db w) \<and> t_locations (w_db w') = t_locations (w_db w) \<and>
     t_battery (w_db w') = t_battery (w_db w) \<and> t_base (w_db w') = t_base (w_db w)"
proof -
  define w1 where "w1 = w\<lparr>w_tick := Suc (w_tick w)\<rparr>"
  have h1: "healthy w1" using assms(1) by (simp add: w1_def)
  have keep: "(\<lambda>r. \<not> purgeable cutoff r) =
      (\<lambda>r. case r_completed r of None \<Rightarrow> True | Some t \<Rightarrow> cutoff \<le> t)"
    by (auto simp: fun_eq_iff purgeable_def split: option.splits)
  obtain n d where nd: "sync_purge_before cutoff (w_db w1) = Inr (n, d)"
    by (simp add: sync_purge_before_def Let_def)
  have "purge_before cutoff w1 = (Inr n, w1\<lparr>w_tick := Suc (w_tick w1), w_db := d\<rparr>)"
    unfolding purge_before_def by (rule store_call_healthy [OF h1]) (rule nd)
  then have run: "run_once s w = (Inr n, w1\<lparr>w_tick := Suc (w_tick w1), w_db := d\<rparr>)"
    by (simp add: run_once_def time_time_def andthen_def catch_exception_def catch_def w1_def
        assms(2) SECONDS_PER_DAY_def)
  have rows: "t_requests d =
      filter (\<lambda>r. case r_completed r of None \<Rightarrow> True | Some t \<Rightarrow> cutoff \<le> t) (t_requests (w_db w))"
    using nd by (auto simp: sync_purge_before_def Let_def w1_def keep)
  have "n = int (length (filter (purgeable cutoff) (t_requests (w_db w))))"
    using nd by (auto simp: sync_purge_before_def Let_def w1_def)
  then have count: "n = int (length (t_requests (w_db w))) - int (length (t_requests d))"
    using length_filter_split [of "purgeable cutoff" "t_requests (w_db w)"] unfolding rows keep by linarith
  have rest: "t_events d = filter (\<lambda>e. cutoff \<le> e_ts e \<or> e_request e \<in> r_id ` set (t_requests d)) (t_events (w_db w))"
      "t_snapshots d = filter (\<lambda>g. cutoff \<le> g_ts g) (t_snapshots (w_db w))"
      "t_nodes d = t_nodes (w_db w)" "t_locations d = t_locations (w_db w)"
      "t_battery d = t_battery (w_db w)" "t_base d = t_base (w_db w)"
    using nd by (auto simp: sync_purge_before_def Let_def w1_def not_less intro!: filter_cong)
  show ?thesis
    using run rows count rest by simp
qed

definition aged_world :: world where
  "aged_world = sample_world\<lparr>w_db := sample_completed, w_host := sample_host\<lparr>h_clock := (\<lambda>t. 100000)\<rparr>\<rparr>"

text \<open>Four rows at a cutoff of 13600: completed just before it, completed at it, completed after it,
  and pending; with an event of a row that goes and one of a row that stays.\<close>

definition boundary_store :: store where
  "boundary_store = empty_store\<lparr>
     t_requests := [(new_row 1 (sample_request\<lparr>q_id := ''a''\<rparr>) 30)\<lparr>r_completed := Some 13599\<rparr>,
       (new_row 1 (sample_request\<lparr>q_id := ''b''\<rparr>) 30)\<lparr>r_completed := Some 13600\<rparr>,
       (new_row 1 (sample_request\<lparr>q_id := ''c''\<rparr>) 30)\<lparr>r_completed := Some 20000\<rparr>,
       new_row 1 (sample_request\<lparr>q_id := ''d''\<rparr>) 30],
     t_events := [new_event 1 ''a'' ''n1'' RECEIVED None, new_event 1 ''b'' ''n1'' RECEIVED None]\<rparr>"

theorem sweep_removes_old_requests_witness:
  "\<exists>w'. run_once \<lparr>sw_days = 1, sw_interval_s = Flt (Fin 3600)\<rparr> (aged_world\<lparr>w_db := boundary_store\<rparr>) = (Inr 1, w') \<and>
     map r_id (t_requests (w_db w')) = [''b'', ''c'', ''d''] \<and> map e_request (t_events (w_db w')) = [''b'']"
proof -
  let ?w = "aged_world\<lparr>w_db := boundary_store\<rparr>"
  have h: "healthy ?w" by (simp add: aged_world_def healthy_def sample_world_def sample_host_def)
  have c: "(13600 :: real) = h_clock (w_host ?w) (w_tick ?w)
      - of_int (sw_days \<lparr>sw_days = 1, sw_interval_s = Flt (Fin 3600)\<rparr>) * 86400"
    by (simp add: aged_world_def)
  from sweep_removes_old_requests [OF h c] show ?thesis
    by (auto simp: boundary_store_def new_row_def new_event_def empty_store_def)
qed

text \<open>
  A sweep never raises: when the database fails it returns 0 and leaves every table as it was.
  The sweeper refuses to be built with fewer than one day or an interval under a second, but a NaN
  interval passes the check.
\<close>

theorem sweep_never_raises:
  assumes "w_budget w = None"
  shows "(\<exists>n w'. run_once s w = (Inr n, w') \<and> 0 \<le> n \<and>
       (\<not> h_db_ok (w_host w) (Suc (w_tick w)) \<longrightarrow> n = 0 \<and> w_db w' = w_db w)) \<and>
     (make_sweeper 0 i = Inl (PyExn ''ValueError'')) \<and>
     (\<exists>sw. make_sweeper 1 NaN = Inr sw)"
  using assms
  by (auto simp: run_once_def time_time_def andthen_def catch_exception_def catch_def purge_before_def
      store_call_def Let_def sync_purge_before_def make_sweeper_def)

theorem sweep_never_raises_witness:
  "\<exists>n w'. run_once \<lparr>sw_days = 1, sw_interval_s = NaN\<rparr> (sample_world\<lparr>w_host := sample_host\<lparr>h_db_ok :=
     (\<lambda>t. False)\<rparr>\<rparr>) = (Inr n, w') \<and> n = 0 \<and> w_db w' = empty_store"
  using sweep_never_raises [of "sample_world\<lparr>w_host := sample_host\<lparr>h_db_ok := (\<lambda>t. False)\<rparr>\<rparr>"
      "\<lparr>sw_days = 1, sw_interval_s = NaN\<rparr>"]
  by (auto simp: sample_world_def)

section \<open>The GPS base location\<close>

text \<open>
  The throttle of the GPS base location, for finite positions and a finite quiet period: a fix
  is dropped, with nothing stored and nothing published, exactly when both coordinates are within
  4.5e-5 degrees of the last published ones and the quiet period has not passed; every other fix is
  handed to the aggregator and becomes the new reference once that succeeded.
\<close>

theorem gps_fix_throttled:
  assumes "th_last_pos th = Some (Flt (Fin a), Flt (Fin b))" "f_lat fx = Flt (Fin x)"
    "f_lon fx = Flt (Fin y)" "now = h_clock (w_host w) (w_tick w)"
  shows "on_fix (Flt (Fin quiet_s)) th fx w =
     (if \<bar>x - a\<bar> \<le> 45 / 1000000 \<and> \<bar>y - b\<bar> \<le> 45 / 1000000 \<and> now - th_last_publish th < quiet_s
      then (Inr th, w\<lparr>w_tick := Suc (w_tick w)\<rparr>)
      else andthen (apply_base_location fx ''gpsd'') (\<lambda>_.
        ret \<lparr>th_last_publish = now, th_last_pos = Some (f_lat fx, f_lon fx)\<rparr>)
        (w\<lparr>w_tick := Suc (w_tick w)\<rparr>))"
proof -
  have m: "moved_enough (Flt (Fin u)) (Flt (Fin v)) = (\<not> \<bar>u - v\<bar> \<le> 45 / 1000000)" for u v
    by (auto simp: moved_enough_def fabs_def)
  show ?thesis
    using assms by (simp add: on_fix_def time_time_def andthen_def fix_moved_def m not_le)
qed

theorem gps_fix_throttled_witness:
  "on_fix (Flt (Fin 30)) \<lparr>th_last_publish = 90, th_last_pos = Some (Flt (Fin 28), Flt (Fin (- 82)))\<rparr>
     sample_fix sample_world =
   (Inr \<lparr>th_last_publish = 90, th_last_pos = Some (Flt (Fin 28), Flt (Fin (- 82)))\<rparr>,
     sample_world\<lparr>w_tick := 1\<rparr>)"
proof -
  let ?th = "\<lparr>th_last_publish = 90, th_last_pos = Some (Flt (Fin 28), Flt (Fin (- 82)))\<rparr>"
  have p: "th_last_pos ?th = Some (Flt (Fin 28), Flt (Fin (- 82)))" "f_lat sample_fix = Flt (Fin 28)"
      "f_lon sample_fix = Flt (Fin (- 82))" "100 = h_clock (w_host sample_world) (w_tick sample_world)"
      "w_tick sample_world = 0"
    by (simp_all add: sample_fix_def sample_world_def sample_host_def)
  show ?thesis
    by (subst gps_fix_throttled [OF p(1-4)]) (simp add: p(5))
qed

end
