(* ===== verification/PureProps.thy ===== *)
theory PureProps
  imports SweepProps
begin

text \<open>
  The properties of the pure parts (the time-out policy, the router, the geometry) and of the
  aggregator's order of effects.
\<close>

section \<open>The time-out policy\<close>

text \<open>
  With a sane policy (a minimum of at least one second that does not exceed the maximum) every
  resolved time to live lies between the minimum and the maximum, so it is at least one second; a
  requested value in that range is taken as it is; and a larger request never gets a shorter limit.
\<close>

theorem resolved_ttl_in_bounds:
  assumes "sane_policy p"
  shows "1 \<le> resolve_ttl p t q \<and> min_s p \<le> resolve_ttl p t q \<and> resolve_ttl p t q \<le> max_s p \<and>
     (\<forall>n. min_s p \<le> n \<and> n \<le> max_s p \<longrightarrow> resolve_ttl p t (Some n) = n) \<and>
     (\<forall>m n. m \<le> n \<longrightarrow> resolve_ttl p t (Some m) \<le> resolve_ttl p t (Some n))"
proof -
  have "1 \<le> min_s p" "min_s p \<le> max_s p" using assms by (simp_all add: sane_policy_def)
  with resolve_ttl_min [of p t q] resolve_ttl_max [of p t q] resolve_ttl_requested [of p]
    resolve_ttl_mono [of _ _ p t] show ?thesis by auto
qed

theorem resolved_ttl_in_bounds_witness:
  "resolve_ttl default_policy ''ping'' (Some 1000) \<le> 300 \<and> 1 \<le> resolve_ttl default_policy ''ping'' None"
  using resolved_ttl_in_bounds [of default_policy "''ping''" "Some 1000"]
    resolved_ttl_in_bounds [of default_policy "''ping''" None]
  by (simp add: sane_policy_def default_policy_def)

text \<open>
  The policy does not check its own bounds: with a minimum of zero a resolved time to live can
  be zero, although it is documented as at least one.
\<close>

theorem unchecked_policy_gives_zero:
  "resolve_ttl (default_policy\<lparr>min_s := 0, default_s := 0\<rparr>) t None = 0"
  by (simp add: resolve_ttl_def default_policy_def)

section \<open>The router\<close>

text \<open>
  The router over the default handlers: building it succeeds, it knows exactly the ten request
  types of the service, in sorted order for listing, and resolves a type to the handler registered
  under it and to nothing else; registering a type twice is refused.
\<close>

theorem default_router_complete:
  "make_router DEFAULT_HANDLERS = Inr DEFAULT_HANDLERS \<and>
   (resolve DEFAULT_HANDLERS t = Some h \<longleftrightarrow> (t, h) \<in> set DEFAULT_HANDLERS) \<and>
   types DEFAULT_HANDLERS =
     [''base.location'', ''echo'', ''gateway.status'', ''node.last_seen'', ''node.location'',
      ''node.location.report'', ''node.status'', ''ping'', ''return_to_base'', ''time.now''] \<and>
   make_router (DEFAULT_HANDLERS @ [(''ping'', h)]) = Inl (PyExn ''ValueError'')"
proof (intro conjI)
  show "make_router DEFAULT_HANDLERS = Inr DEFAULT_HANDLERS" by (rule default_router)
  show "resolve DEFAULT_HANDLERS t = Some h \<longleftrightarrow> (t, h) \<in> set DEFAULT_HANDLERS"
    by (rule resolve_make_router [OF default_router])
  show "make_router (DEFAULT_HANDLERS @ [(''ping'', h)]) = Inl (PyExn ''ValueError'')"
    by (rule make_router_duplicate) (simp add: DEFAULT_HANDLERS_def)
  show "types DEFAULT_HANDLERS =
     [''base.location'', ''echo'', ''gateway.status'', ''node.last_seen'', ''node.location'',
      ''node.location.report'', ''node.status'', ''ping'', ''return_to_base'', ''time.now'']"
    unfolding types_def DEFAULT_HANDLERS_def by (simp add: list_less_def)
qed

section \<open>Geometry\<close>

text \<open>
  On finite coordinates, in range or not, the distance is defined, symmetric, zero from a point
  to itself and at most half the circumference of the earth, and the bearing is defined and lies in
  [0, 360): the arguments of the square root and of the arc sine never leave their domains.
\<close>

theorem geometry_defined:
  "\<exists>d b. haversine_m (Flt (Fin lat1)) (Flt (Fin lon1)) (Flt (Fin lat2)) (Flt (Fin lon2)) = Inr (Flt (Fin d)) \<and>
     haversine_m (Flt (Fin lat2)) (Flt (Fin lon2)) (Flt (Fin lat1)) (Flt (Fin lon1)) = Inr (Flt (Fin d)) \<and>
     haversine_m (Flt (Fin lat1)) (Flt (Fin lon1)) (Flt (Fin lat1)) (Flt (Fin lon1)) = Inr (Flt (Fin 0)) \<and>
     0 \<le> d \<and> d \<le> pi * EARTH_RADIUS_M \<and>
     initial_bearing_deg (Flt (Fin lat1)) (Flt (Fin lon1)) (Flt (Fin lat2)) (Flt (Fin lon2)) = Inr (Flt (Fin b)) \<and>
     0 \<le> b \<and> b < 360"
  using haversine_range [of lat1 lon1 lat2 lon2] bearing_range [of lat1 lon1 lat2 lon2]
    haversine_sym [of lat2 lon2 lat1 lon1] haversine_same [of lat1 lon1]
  by (simp add: haversine_m_Fin initial_bearing_deg_Fin)

section \<open>The aggregator\<close>

text \<open>
  The database has the truth: whatever happens during \<open>apply_location\<close>, if it published
  anything at all then the node's row already holds the fix; a failing broker or a later failing
  statement never leaves a published location that was not stored.
\<close>

theorem location_stored_before_published:
  assumes "apply_location n fx src rssi snr w = (res, w')"
  shows "w_sent w' = w_sent w \<or>
     t_locations (w_db w') (SText n) = Some (the (location_of_fix fx (Some src) rssi snr))"
proof -
  define rest where "rest = andthen (mark_node_seen (VStr n) (VFloat (f_ts fx))) (\<lambda>_.
     andthen (note_radio (VStr n) rssi snr (VFloat (f_ts fx))) (\<lambda>_.
     andthen (bus_publish (node_location_topic n)
                (compact_json (location_body n fx src rssi snr)) True) (\<lambda>_.
       republish_state (VStr n))))"
  have run: "andthen (upsert_node_location (VStr n) fx (Some src) rssi snr) (\<lambda>_. rest) w = (res, w')"
    using assms by (simp add: apply_location_def rest_def)
  have frame: "evolves (same places) rest" unfolding rest_def by (intro evolves_intros)
  from run show ?thesis
  proof (cases rule: andthenE)
    case (fails e)
    have "evolves (same w_sent) (upsert_node_location (VStr n) fx (Some src) rssi snr)"
      unfolding upsert_node_location_def by (rule evolves_store_call) (simp_all add: same_def)
    from evolves_sameD [OF this fails(1)] show ?thesis by simp
  next
    case (goes x v)
    from evolves_sameD [OF frame goes(2)] have "t_locations (w_db w') = t_locations (w_db v)"
      by (simp add: places_def)
    with store_call_Inr [OF goes(1) [unfolded upsert_node_location_def]] show ?thesis
      by (auto simp: upsert_node_location_Inr)
  qed
qed

theorem location_stored_before_published_witness:
  "w_sent (snd (apply_location ''n1'' sample_fix ''report'' None None
      (sample_world\<lparr>w_host := sample_host\<lparr>h_mqtt_ok := (\<lambda>t. False)\<rparr>\<rparr>))) = [] \<or>
   t_locations (w_db (snd (apply_location ''n1'' sample_fix ''report'' None None
      (sample_world\<lparr>w_host := sample_host\<lparr>h_mqtt_ok := (\<lambda>t. False)\<rparr>\<rparr>)))) (SText ''n1'') =
     Some (the (location_of_fix sample_fix (Some ''report'') None None))"
  using location_stored_before_published [OF prod.collapse [symmetric], of "''n1''" sample_fix "''report''"
      None None "sample_world\<lparr>w_host := sample_host\<lparr>h_mqtt_ok := (\<lambda>t. False)\<rparr>\<rparr>"]
  by (simp add: sample_world_def)

end
