(* ===== verification/TakProps.thy ===== *)
theory TakProps
  imports TakLaws PureProps
begin

text \<open>
  The properties of the TAK bridge: what reaches the TAK server, what a reconnect and an eviction
  do, and how one record with a time stamp outside the calendar stops the bridge.
\<close>

section \<open>The stream\<close>

fun lines_of :: "string \<Rightarrow> string \<Rightarrow> string list" where
  "lines_of acc [] = (if acc = [] then [] else [acc])"
| "lines_of acc (c # cs) = (if c = newline then (acc @ [c]) # lines_of [] cs else lines_of (acc @ [c]) cs)"

lemma lines_of_line: "newline \<notin> set l \<Longrightarrow> lines_of acc (l @ newline # rest) = (acc @ l @ [newline]) # lines_of [] rest"
  by (induction l arbitrary: acc) auto

lemma lines_of_events:
  "\<forall>e \<in> set es. is_event e \<Longrightarrow> lines_of [] (concat es) = es"
proof (induction es)
  case (Cons e es)
  then obtain l where "e = l @ [newline]" "newline \<notin> set l" using is_eventD [of e] by auto
  with Cons show ?case by (simp add: lines_of_line)
qed simp

text \<open>
  \<open>whole_but_last es got\<close>: split at the line ends, the bytes \<open>got\<close> are the first of the events \<open>es\<close>,
  complete, and after them at most the beginning of the next one, which no line end closes.
\<close>

definition whole_but_last :: "string list \<Rightarrow> string \<Rightarrow> bool" where
  "whole_but_last es got \<longleftrightarrow> (\<exists>k part. k \<le> length es \<and>
     lines_of [] got = take k es @ (if part = [] then [] else [part]) \<and> newline \<notin> set part \<and>
     (part \<noteq> [] \<longrightarrow> k < length es \<and> (\<exists>rest. rest \<noteq> [] \<and> es ! k = part @ rest)))"

lemma lines_of_part: "newline \<notin> set p \<Longrightarrow> lines_of acc p = (if acc @ p = [] then [] else [acc @ p])"
  by (induction p arbitrary: acc) auto

lemma cut_events: "\<forall>e \<in> set es. is_event e \<Longrightarrow> whole_but_last es (take n (concat es))"
proof (induction es arbitrary: n)
  case Nil
  show ?case by (simp add: whole_but_last_def)
next
  case (Cons e es)
  then obtain l where e: "e = l @ [newline]" "newline \<notin> set l" using is_eventD [of e] by auto
  show ?case
  proof (cases "length e \<le> n")
    case True
    then have got: "take n (concat (e # es)) = l @ newline # take (n - length e) (concat es)"
      by (simp add: e take_Cons' Suc_diff_le)
    obtain k part where k: "k \<le> length es"
      "lines_of [] (take (n - length e) (concat es)) = take k es @ (if part = [] then [] else [part])"
      "newline \<notin> set part" "part \<noteq> [] \<longrightarrow> k < length es \<and> (\<exists>rest. rest \<noteq> [] \<and> es ! k = part @ rest)"
      using Cons.IH [of "n - length e"] Cons.prems unfolding whole_but_last_def by auto
    have "lines_of [] (take n (concat (e # es))) = e # lines_of [] (take (n - length e) (concat es))"
      unfolding got lines_of_line [OF e(2)] by (simp add: e(1))
    with k show ?thesis
      unfolding whole_but_last_def by (intro exI [of _ "Suc k"] exI [of _ part]) simp
  next
    case False
    define part where "part = take n e"
    have "e = part @ drop n e" "drop n e \<noteq> []" using False by (simp_all add: part_def)
    then have split: "\<exists>rest. rest \<noteq> [] \<and> e = part @ rest" by blast
    have "take n (concat (e # es)) = part" using False by (simp add: part_def)
    moreover have "newline \<notin> set part"
    proof -
      have "part = take n l" using False by (simp add: part_def e(1))
      with e(2) show ?thesis by (auto dest: in_set_takeD)
    qed
    ultimately show ?thesis
      unfolding whole_but_last_def using split lines_of_part [of part "[]"]
      by (intro exI [of _ 0] exI [of _ part]) (simp del: lines_of.simps)
  qed
qed


section \<open>Reconnecting\<close>

text \<open>
  C25. On a reconnect the backlog is forgotten: afterwards the queue holds the newest 256 of the events
  for the nodes with a position, in the order of the state, one for each, from the current records.
\<close>

theorem reconnect_sends_current_state:
  assumes "sane_bridge cfg w" "br_was_connected w"
  shows "\<exists>bs w'. sink_connect cfg w = (Inr (), w') \<and> br_link w' = Up \<and> br_state w' = br_state w \<and>
     events_for (br_state w) (map fst (br_state w)) bs \<and> br_queue w' = newest QUEUE_CAP bs"
proof -
  define v where "v = w\<lparr>br_queue := []\<rparr>"
  have sane: "sane_bridge cfg v" using assms(1) by (simp add: sane_bridge_def v_def)
  have st: "br_state v = br_state w" by (simp add: v_def)
  obtain bs u where pub: "publish_keys cfg (map fst (br_state w)) v = (Inr (), u)" "only_sent bs v u"
    and ev: "events_for (br_state v) (map fst (br_state w)) bs"
    using publish_keys_sane [OF sane] by blast
  have "republish_all cfg v = (Inr (), u)" using pub(1) st by (simp add: republish_all_def)
  then have rep: "catch_exception (republish_all cfg) (ret ()) v = (Inr (), u)"
    by (simp add: catch_exception_def catch_def)
  have bind: "andthen (catch_exception (republish_all cfg) (ret ())) f (w\<lparr>br_queue := []\<rparr>) = f () u"
    for f :: "unit \<Rightarrow> (bridge, unit) prog"
    using rep unfolding v_def by (rule andthen_Inr)
  have "sink_connect cfg w = (Inr (), u\<lparr>br_was_connected := True, br_link := Up, br_wire := [] # br_wire u\<rparr>)"
    using assms(2) by (simp add: sink_connect_def drain_all andthen_assoc bind)
  moreover have "br_queue u = newest QUEUE_CAP bs"
    using only_sentD(4) [OF pub(2)] sink.sends_newest [of "[]" bs] by (simp add: v_def)
  moreover have "br_state u = br_state w" using only_sentD(1) [OF pub(2)] st by simp
  ultimately show ?thesis using ev unfolding st by auto
qed

section \<open>Evicting\<close>

lemma delete_filter: "AList.delete k xs = filter (\<lambda>p. fst p \<noteq> k) xs"
  by (auto simp: AList.delete_eq intro!: filter_cong)

lemma map_of_others: "j \<noteq> k \<Longrightarrow> map_of (filter (\<lambda>p. fst p \<noteq> k) xs) j = map_of xs j"
  by (induction xs) auto

lemma map_of_gone: "map_of (filter (\<lambda>p. fst p \<noteq> k) xs) k = None"
  by (induction xs) auto

lemma events_for_cong:
  assumes "\<And>k. k \<in> set ks \<Longrightarrow> map_of st k = map_of st' k"
  shows "events_for st ks bs = events_for st' ks bs"
proof -
  have flt: "filter (located st) ks = filter (located st') ks"
    using assms by (intro filter_cong) (simp_all add: located_def)
  show ?thesis
    unfolding events_for_def flt by (intro list.rel_cong refl) (use assms in auto)
qed

definition forget :: "string \<Rightarrow> bridge \<Rightarrow> bridge" where
  "forget k w = w\<lparr>br_state := AList.delete k (br_state w), br_offline := AList.delete k (br_offline w)\<rparr>"

lemma forget_sane: "sane_bridge cfg w \<Longrightarrow> sane_bridge cfg (forget k w)"
  unfolding sane_bridge_def forget_def
  by (auto simp: delete_filter) (metis map_of_gone map_of_others option.distinct(1))

lemma drop_if_located:
  assumes "sane_bridge cfg w"
  shows "\<exists>bs v. publish_drop cfg k w = (Inr (), v) \<and> only_sent bs w v \<and> events_for (br_state w) [k] bs \<and>
     list_all lapsed bs"
proof (cases "located (br_state w) k")
  case True
  then obtain r where r: "map_of (br_state w) k = Some r" "has_position r"
    by (auto simp: located_def split: option.splits)
  from publish_drop_sane [OF assms r] obtain b v where
    "publish_drop cfg k w = (Inr (), v)" "only_sent [b] w v" "event_for k r b" "lapsed b" by blast
  with True r show ?thesis by (intro exI [of _ "[b]"] exI [of _ v]) (simp add: events_for_def)
next
  case False
  with publish_drop_idle [OF False] only_sent_refl [of w] show ?thesis
    by (intro exI [of _ "[]"] exI [of _ w]) (simp add: events_for_def)
qed

lemma events_for_append:
  "events_for st ks bs \<Longrightarrow> events_for st ks' bs' \<Longrightarrow> events_for st (ks @ ks') (bs @ bs')"
  by (simp add: events_for_def list_all2_appendI)

lemma evict_nodes_sane:
  "sane_bridge cfg w \<Longrightarrow> distinct ks \<Longrightarrow>
     \<exists>bs w'. evict_nodes cfg ks w = (Inr (), w') \<and>
       br_state w' = filter (\<lambda>p. fst p \<notin> set ks) (br_state w) \<and>
       br_offline w' = filter (\<lambda>p. fst p \<notin> set ks) (br_offline w) \<and>
       br_queue w' = foldl sink_send (br_queue w) bs \<and>
       events_for (br_state w) ks bs \<and> list_all lapsed bs"
proof (induction ks arbitrary: w)
  case Nil
  show ?case by (intro exI [of _ "[]"] exI [of _ w]) (simp add: events_for_def)
next
  case (Cons k ks)
  obtain bs v where drop: "publish_drop cfg k w = (Inr (), v)" "only_sent bs w v"
    "events_for (br_state w) [k] bs" "list_all lapsed bs"
    using drop_if_located [OF Cons.prems(1)] by blast
  note v = only_sentD [OF drop(2)]
  have "sane_bridge cfg (forget k v)"
    using forget_sane [OF only_sent_sane [OF drop(2) Cons.prems(1)]] .
  then obtain cs w' where rest: "evict_nodes cfg ks (forget k v) = (Inr (), w')"
    "br_state w' = filter (\<lambda>p. fst p \<notin> set ks) (br_state (forget k v))"
    "br_offline w' = filter (\<lambda>p. fst p \<notin> set ks) (br_offline (forget k v))"
    "br_queue w' = foldl sink_send (br_queue (forget k v)) cs"
    "events_for (br_state (forget k v)) ks cs" "list_all lapsed cs"
    using Cons.IH Cons.prems(2) by fastforce
  have bind: "andthen (publish_drop cfg k) f w = f () v" for f :: "unit \<Rightarrow> (bridge, unit) prog"
    using drop(1) by (rule andthen_Inr)
  have "evict_nodes cfg (k # ks) w = (Inr (), w')"
    using rest(1) by (simp add: bind forget_def)
  moreover have "br_state w' = filter (\<lambda>p. fst p \<notin> set (k # ks)) (br_state w)"
    using rest(2) v(1) by (auto simp: forget_def delete_filter intro!: filter_cong)
  moreover have "br_offline w' = filter (\<lambda>p. fst p \<notin> set (k # ks)) (br_offline w)"
    using rest(3) v(2) by (auto simp: forget_def delete_filter intro!: filter_cong)
  moreover have "br_queue w' = foldl sink_send (br_queue w) (bs @ cs)"
    using rest(4) v(4) by (simp add: forget_def)
  moreover have "events_for (br_state w) (k # ks) (bs @ cs)"
  proof -
    have "events_for (br_state w) ks cs"
    proof -
      have "map_of (br_state w) j = map_of (br_state (forget k v)) j" if "j \<in> set ks" for j
      proof -
        have "j \<noteq> k" using that Cons.prems(2) by auto
        then show ?thesis using v(1) by (simp add: forget_def delete_filter map_of_others)
      qed
      with rest(5) show ?thesis using events_for_cong by blast
    qed
    with events_for_append [OF drop(3)] show ?thesis by fastforce
  qed
  ultimately show ?case using drop(4) rest(6) by fastforce
qed

lemma in_overdue:
  assumes "distinct (map fst off)" "p \<in> set off"
  shows "fst p \<in> set (overdue th now off) \<longleftrightarrow> of_int th \<le> now - snd p"
proof
  assume "fst p \<in> set (overdue th now off)"
  then obtain q where q: "q \<in> set off" "fst q = fst p" "of_int th \<le> now - snd q"
    by (auto simp: overdue_def)
  then have "q = p" using distinct_map_inj_point [OF assms(1)] assms(2) by blast
  with q show "of_int th \<le> now - snd p" by simp
next
  assume "of_int th \<le> now - snd p"
  with assms(2) have "p \<in> set (filter (\<lambda>(k, since). of_int th \<le> now - since) off)"
    by (simp add: case_prod_beta)
  then show "fst p \<in> set (overdue th now off)"
    unfolding overdue_def by (simp only: set_map imageI)
qed

text \<open>
  C26. An eviction takes exactly the nodes that have been offline for at least the configured time out
  of the state, sends one event for each of them that has a position, and each of these events is
  stale before it starts.
\<close>

theorem eviction_removes_long_offline:
  assumes "sane_bridge cfg w" "distinct (map fst (br_offline w))" "0 < t_remove_after cfg"
    "gone = overdue (t_remove_after cfg) (br_clock w (br_tick w)) (br_offline w)"
  shows "\<exists>bs w'. evict_long_offline cfg w = (Inr (), w') \<and>
     br_state w' = filter (\<lambda>p. fst p \<notin> set gone) (br_state w) \<and>
     br_offline w' = filter (\<lambda>(k, since). br_clock w (br_tick w) - since < of_int (t_remove_after cfg)) (br_offline w) \<and>
     br_queue w' = foldl sink_send (br_queue w) bs \<and> events_for (br_state w) gone bs \<and> list_all lapsed bs"
proof -
  define now where "now = br_clock w (br_tick w)"
  define v where "v = w\<lparr>br_tick := Suc (br_tick w)\<rparr>"
  have v: "br_state v = br_state w" "br_offline v = br_offline w" "br_queue v = br_queue w" by (simp_all add: v_def)
  have "sane_bridge cfg v" using assms(1) by (simp add: sane_bridge_def v_def)
  moreover have "distinct gone" using assms(2,4) by (simp add: overdue_def distinct_map_filter)
  ultimately obtain bs w' where ev: "evict_nodes cfg gone v = (Inr (), w')"
    "br_state w' = filter (\<lambda>p. fst p \<notin> set gone) (br_state v)"
    "br_offline w' = filter (\<lambda>p. fst p \<notin> set gone) (br_offline v)"
    "br_queue w' = foldl sink_send (br_queue v) bs" "events_for (br_state v) gone bs" "list_all lapsed bs"
    using evict_nodes_sane by blast
  have "evict_long_offline cfg w = (Inr (), w')"
    using ev(1) assms(3,4) by (simp add: evict_long_offline_def br_time_def andthen_def v_def)
  moreover have "filter (\<lambda>p. fst p \<notin> set gone) (br_offline w) =
      filter (\<lambda>(k, since). now - since < of_int (t_remove_after cfg)) (br_offline w)"
    using in_overdue [OF assms(2), of _ "t_remove_after cfg" now] assms(4)
    by (intro filter_cong) (auto simp: now_def)
  ultimately show ?thesis using ev(2-6) unfolding v now_def by (intro exI [of _ bs] exI [of _ w']) simp
qed

section \<open>A location message\<close>

lemma dict_update_lookup:
  "distinct (map fst kvs) \<Longrightarrow>
     map_of (dict_update d kvs) k = (case map_of kvs k of Some v \<Rightarrow> Some v | None \<Rightarrow> map_of d k)"
proof (induction kvs arbitrary: d)
  case (Cons kv kvs)
  obtain j v where kv: "kv = (j, v)" by (cases kv)
  with Cons.prems have "map_of kvs j = None" by (simp add: map_of_eq_None_iff)
  with Cons.IH [of "AList.update j v d"] Cons.prems kv show ?case
    by (auto simp: dict_update_def update_conv' split: option.splits)
qed (simp add: dict_update_def)

definition merged :: "string \<Rightarrow> real \<Rightarrow> pydict option \<Rightarrow> pydict \<Rightarrow> pydict" where
  "merged kind now old data =
     AList.update ''_updated'' (VFloat (Flt (Fin now)))
       (dict_update (case old of None \<Rightarrow> [(''_kind'', VStr kind)] | Some d \<Rightarrow> d) (filter (\<lambda>(k, v). \<not> is_none v) data))"

definition after_merge :: "string \<Rightarrow> pydict \<Rightarrow> string \<Rightarrow> bridge \<Rightarrow> bridge" where
  "after_merge key data kind w = w\<lparr>br_tick := Suc (br_tick w),
     br_state := AList.update key (merged kind (br_clock w (br_tick w)) (map_of (br_state w) key) data) (br_state w)\<rparr>"

lemma merge_state_eq: "merge_state key data kind w = (Inr (), after_merge key data kind w)"
  by (simp add: merge_state_def br_time_def andthen_def after_merge_def merged_def Let_def)

lemma map_of_filter_values:
  "distinct (map fst kvs) \<Longrightarrow>
     map_of (filter (\<lambda>(k, v). \<not> is_none v) kvs) k = (case map_of kvs k of Some v \<Rightarrow> if v = VNone then None else Some v | None \<Rightarrow> None)"
proof (induction kvs)
  case (Cons kv kvs)
  then show ?case by (cases kv) (auto simp: map_of_eq_None_iff split: option.splits)
qed simp

lemma dget_filtered:
  "distinct (map fst kvs) \<Longrightarrow>
     map_of (filter (\<lambda>(k, v). \<not> is_none v) kvs) k = (if dget kvs k = VNone then None else Some (dget kvs k))"
  by (simp only: map_of_filter_values dget_def) (simp split: option.split)

lemma merged_lookup:
  assumes "distinct (map fst data)" "k \<noteq> ''_updated''"
  shows "dget (merged kind now old data) k = (if dget data k \<noteq> VNone then dget data k
     else dget (case old of None \<Rightarrow> [(''_kind'', VStr kind)] | Some d \<Rightarrow> d) k)"
proof -
  have dist: "distinct (map fst (filter (\<lambda>(k, v). \<not> is_none v) data))" using assms(1) by (rule distinct_map_filter)
  define d where "d = (case old of None \<Rightarrow> [(''_kind'', VStr kind)] | Some d \<Rightarrow> d)"
  have "map_of (merged kind now old data) k = map_of (dict_update d (filter (\<lambda>(k, v). \<not> is_none v) data)) k"
    using assms(2) unfolding merged_def d_def update_conv' by (rule fun_upd_other)
  also have "\<dots> = (if dget data k = VNone then map_of d k else Some (dget data k))"
    unfolding dict_update_lookup [OF dist] dget_filtered [OF assms(1)] by simp
  finally show ?thesis unfolding d_def [symmetric] by (simp add: dget_def)
qed

lemma merged_updated: "dget (merged kind now old data) ''_updated'' = VFloat (Flt (Fin now))"
  by (simp add: merged_def dget_def update_conv')

lemma merged_sane:
  assumes "distinct (map fst data)" "sane_record data" "\<And>d. old = Some d \<Longrightarrow> sane_record d"
  shows "sane_record (merged kind now old data)"
proof -
  have old: "sane_record (case old of None \<Rightarrow> [(''_kind'', VStr kind)] | Some d \<Rightarrow> d)"
    using assms(3) by (cases old) (simp_all add: sane_record_def)
  have "sane_val (dget (merged kind now old data) k)" for k
  proof (cases "k = ''_updated''")
    case True
    show ?thesis unfolding True merged_updated by simp
  next
    case False
    then show ?thesis
      using assms(2) old merged_lookup [OF assms(1) False] unfolding sane_record_def by simp
  qed
  moreover have "sane_ts (dget (merged kind now old data) ''ts'')"
    using assms(2) old merged_lookup [OF assms(1), of "''ts''"] unfolding sane_record_def by simp
  ultimately show ?thesis unfolding sane_record_def by blast
qed

lemma location_topic_parts:
  assumes "n \<noteq> []" "CHR ''/'' \<notin> set n"
  shows "startswith (node_location_topic n) node_slash" "endswith (node_location_topic n) ''/location''"
    "extract_node_id (node_location_topic n) ''/location'' = Some n" "key_for (node_location_topic n) data = n"
proof -
  have stop: "takeWhile (\<lambda>c. c \<noteq> CHR ''/'') (n @ ''/location'') = n"
    using assms(2) by (subst takeWhile_append2) auto
  show "startswith (node_location_topic n) node_slash" "endswith (node_location_topic n) ''/location''"
    "extract_node_id (node_location_topic n) ''/location'' = Some n" "key_for (node_location_topic n) data = n"
    using assms stop by (simp_all add: startswith_def endswith_def node_slash_def topic_defs extract_node_id_def
        key_for_def Let_def)
qed

lemma location_message:
  assumes "n \<noteq> []" "CHR ''/'' \<notin> set n"
  shows "handle_mqtt_message cfg (node_location_topic n, Inr (VDict data)) w =
     publish_one cfg n (after_merge n data ''node'' w)"
proof -
  have "andthen (handle_node n data False) (\<lambda>_. publish_one cfg n) w = publish_one cfg n (after_merge n data ''node'' w)"
    by (simp add: handle_node_def andthen_def merge_state_eq)
  then show ?thesis
    using location_topic_parts [OF assms] by (simp add: handle_mqtt_message_def)
qed

lemma after_merge_lookup:
  "map_of (br_state (after_merge k data kind w)) j =
     (if j = k then Some (merged kind (br_clock w (br_tick w)) (map_of (br_state w) k) data) else map_of (br_state w) j)"
  by (simp add: after_merge_def update_conv')

lemma after_merge_sane:
  assumes "sane_bridge cfg w" "distinct (map fst data)" "sane_record data"
  shows "sane_bridge cfg (after_merge k data kind w)"
proof -
  have "sane_record (merged kind (br_clock w (br_tick w)) (map_of (br_state w) k) data)"
    using assms by (intro merged_sane) (auto simp: sane_bridge_def)
  then show ?thesis
    using assms(1) unfolding sane_bridge_def after_merge_lookup by (auto simp: after_merge_def)
qed

lemma location_message_effect:
  assumes "sane_bridge cfg w" "n \<noteq> []" "CHR ''/'' \<notin> set n" "distinct (map fst data)" "sane_record data"
    "dget data ''lat'' = VFloat (Flt (Fin lat))" "dget data ''lon'' = VFloat (Flt (Fin lon))"
  shows "\<exists>b w'. handle_mqtt_message cfg (node_location_topic n, Inr (VDict data)) w = (Inr (), w') \<and>
     only_sent [b] (after_merge n data ''node'' w) w' \<and>
     reads_as b (uid_for n) (fixed_point 7 (Flt (Fin lat))) (fixed_point 7 (Flt (Fin lon)))"
proof -
  define v where "v = after_merge n data ''node'' w"
  define r where "r = merged ''node'' (br_clock w (br_tick w)) (map_of (br_state w) n) data"
  have r: "map_of (br_state v) n = Some r" by (simp add: v_def r_def after_merge_lookup)
  have pos: "dget r ''lat'' = VFloat (Flt (Fin lat))" "dget r ''lon'' = VFloat (Flt (Fin lon))"
    using merged_lookup [OF assms(4)] assms(6,7) by (simp_all add: r_def)
  then have "has_position r" by (simp add: has_position_def)
  from publish_one_sane [OF after_merge_sane [OF assms(1,4,5)] r [unfolded v_def] this] obtain b w' where
    one: "publish_one cfg n v = (Inr (), w')" "only_sent [b] v w'" "event_for n r b"
    unfolding v_def by blast
  have "reads_as b (uid_for n) (fixed_point 7 (Flt (Fin lat))) (fixed_point 7 (Flt (Fin lon)))"
    using one(3) pos by (simp add: event_for_def)
  then show ?thesis
    using location_message [OF assms(2,3)] one unfolding v_def by auto
qed

text \<open>
  C22. A location message of a node is merged into the record of that node only, and one event goes to
  the queue from which a reader gets back the node and the reported position to seven decimals.
\<close>

theorem location_message_sends_event:
  assumes "sane_bridge cfg w" "n \<noteq> []" "CHR ''/'' \<notin> set n" "distinct (map fst data)" "sane_record data"
    "dget data ''lat'' = VFloat (Flt (Fin lat))" "dget data ''lon'' = VFloat (Flt (Fin lon))"
  shows "\<exists>b w'. handle_mqtt_message cfg (node_location_topic n, Inr (VDict data)) w = (Inr (), w') \<and>
     (\<forall>k. k \<noteq> n \<longrightarrow> map_of (br_state w') k = map_of (br_state w) k) \<and>
     br_queue w' = sink_send (br_queue w) b \<and>
     reads_as b (uid_for n) (fixed_point 7 (Flt (Fin lat))) (fixed_point 7 (Flt (Fin lon)))"
proof -
  obtain b w' where run: "handle_mqtt_message cfg (node_location_topic n, Inr (VDict data)) w = (Inr (), w')"
    and sent: "only_sent [b] (after_merge n data ''node'' w) w'"
    and b: "reads_as b (uid_for n) (fixed_point 7 (Flt (Fin lat))) (fixed_point 7 (Flt (Fin lon)))"
    using location_message_effect [OF assms] by blast
  have "br_queue w' = sink_send (br_queue w) b"
    using only_sentD(4) [OF sent] by (simp add: after_merge_def)
  moreover have "k \<noteq> n \<Longrightarrow> map_of (br_state w') k = map_of (br_state w) k" for k
    using only_sentD(1) [OF sent] by (simp add: after_merge_lookup)
  ultimately show ?thesis using run b by blast
qed

section \<open>A time stamp outside the calendar\<close>

text \<open>A position whose time stamp is past the year 9999, as milliseconds taken for seconds are.\<close>

definition beyond_calendar :: "pydict \<Rightarrow> bool" where
  "beyond_calendar r \<longleftrightarrow> has_position r \<and>
     (case num_val (dget r ''ts'') of Flt (Fin t) \<Rightarrow> 253402300800 \<le> t | _ \<Rightarrow> False)"

lemma beyond_calendar_raises:
  assumes "beyond_calendar r"
  shows "event_time (dget r ''ts'') w = (Inl (PyExn ''ValueError''), w)"
proof -
  obtain t where t: "num_val (dget r ''ts'') = Flt (Fin t)" "253402300800 \<le> t"
    using assms by (auto simp: beyond_calendar_def split: pyfloat.splits xreal.splits)
  then have "is_num (dget r ''ts'')" by (cases "dget r ''ts''") auto
  moreover have "real_of_int (round_even (t * 1000000)) \<ge> 253402300800000000 - 1 / 2"
    using round_even_bounds(2) [of "t * 1000000"] t(2) by linarith
  then have "253402300800000000 \<le> round_even (t * 1000000)" by linarith
  then have "\<not> datetime_ok (round_even (t * 1000000))" by (simp add: datetime_ok_def)
  ultimately show ?thesis using t(1) by (simp add: event_time_def utc_micros_def)
qed

definition blocks :: "tak_cfg \<Rightarrow> string \<Rightarrow> bridge \<Rightarrow> bool" where
  "blocks cfg n w \<longleftrightarrow> (\<exists>cs. callsign_for cfg n = Inr cs) \<and>
     (\<exists>r. map_of (br_state w) n = Some r \<and> beyond_calendar r)"

lemma publish_one_blocked:
  assumes "blocks cfg n w"
  shows "publish_one cfg n w = (Inl (PyExn ''ValueError''), w)"
proof -
  obtain cs r where cs: "callsign_for cfg n = Inr cs" and r: "map_of (br_state w) n = Some r" "beyond_calendar r"
    using assms by (auto simp: blocks_def)
  have "has_position r" "r \<noteq> []" using r(2) by (auto simp: beyond_calendar_def)
  moreover have "andthen (event_time (dget r ''ts'')) f w = (Inl (PyExn ''ValueError''), w)" for f :: "int \<Rightarrow> (bridge, unit) prog"
    using beyond_calendar_raises [OF r(2), of w] by (rule andthen_Inl)
  ultimately show ?thesis using cs r(1) by (simp add: publish_one_def)
qed

lemma publish_one_state [evolves_intros]: "evolves (same br_state) (publish_one cfg k)"
proof -
  have "evolves (same br_state) br_time" "evolves (same br_state) (send_event b)" for b
    by (simp_all add: evolves_def same_def br_time_def send_event_def)
  then show ?thesis
    unfolding publish_one_def event_time_def now_utc_def by (intro evolves_intros) assumption+
qed

lemma publish_keys_blocked:
  "blocks cfg n w \<Longrightarrow> n \<in> set ks \<Longrightarrow> \<exists>e v. publish_keys cfg ks w = (Inl e, v)"
proof (induction ks arbitrary: w)
  case (Cons k ks)
  show ?case
  proof (cases "publish_one cfg k w")
    case (Pair res v)
    have "blocks cfg n v"
      using evolves_sameD [OF publish_one_state Pair] Cons.prems(1) by (simp add: blocks_def)
    with Cons.IH Cons.prems Pair publish_one_blocked [OF Cons.prems(1)] show ?thesis
      by (cases res; cases "k = n") (auto simp: andthen_def)
  qed
qed simp

lemma beyond_calendar_merged:
  assumes "beyond_calendar data" "distinct (map fst data)"
  shows "beyond_calendar (merged kind now old data)"
proof -
  have "dget data ''lat'' \<noteq> VNone" "dget data ''lon'' \<noteq> VNone" "dget data ''ts'' \<noteq> VNone"
    using assms(1) by (auto simp: beyond_calendar_def has_position_def)
  then show ?thesis
    using assms merged_lookup [OF assms(2)] by (simp add: beyond_calendar_def has_position_def)
qed

lemma blocking_message:
  assumes "n \<noteq> []" "CHR ''/'' \<notin> set n" "distinct (map fst data)" "beyond_calendar data" "callsign_for cfg n = Inr cs"
  shows "mqtt_session cfg ((node_location_topic n, Inr (VDict data)) # ms) w =
     (Inl (PyExn ''ValueError''), after_merge n data ''node'' w)"
    and "blocks cfg n (after_merge n data ''node'' w)"
proof -
  show blocked: "blocks cfg n (after_merge n data ''node'' w)"
    using assms beyond_calendar_merged [OF assms(4,3)] unfolding blocks_def after_merge_lookup by simp
  have "handle_mqtt_message cfg (node_location_topic n, Inr (VDict data)) w =
      (Inl (PyExn ''ValueError''), after_merge n data ''node'' w)"
    unfolding location_message [OF assms(1,2)] by (rule publish_one_blocked [OF blocked])
  then show "mqtt_session cfg ((node_location_topic n, Inr (VDict data)) # ms) w =
      (Inl (PyExn ''ValueError''), after_merge n data ''node'' w)"
    unfolding mqtt_session.simps by (rule andthen_Inl)
qed

text \<open>
  Once a location with such a time stamp is retained on the broker and comes first on every
  connection, no connection gets past it: nothing is queued, no other node enters the state, and
  each later heartbeat fails as well, since republishing raises at that record.
\<close>

lemma blocked_loop:
  assumes "n \<noteq> []" "CHR ''/'' \<notin> set n" "distinct (map fst data)" "beyond_calendar data"
    "callsign_for cfg n = Inr cs" "mss \<noteq> []"
  shows "\<exists>w'. mqtt_loop cfg (map ((#) (node_location_topic n, Inr (VDict data))) mss) w = (Inr (), w') \<and>
     br_queue w' = br_queue w \<and> (\<forall>k. k \<noteq> n \<longrightarrow> map_of (br_state w') k = map_of (br_state w) k) \<and>
     (\<exists>e v. republish_all cfg w' = (Inl e, v))"
  using assms(6)
proof (induction mss arbitrary: w)
  case (Cons ms mss)
  define v where "v = after_merge n data ''node'' w"
  have v: "br_queue v = br_queue w" "\<And>k. k \<noteq> n \<Longrightarrow> map_of (br_state v) k = map_of (br_state w) k"
    by (auto simp: v_def after_merge_lookup) (simp add: after_merge_def)
  have first: "catch_exception (mqtt_session cfg ((node_location_topic n, Inr (VDict data)) # ms)) (ret ()) w = (Inr (), v)"
    using blocking_message(1) [OF assms(1-5)] by (simp add: catch_exception_def catch_def v_def del: mqtt_session.simps)
  have step: "mqtt_loop cfg (map ((#) (node_location_topic n, Inr (VDict data))) (ms # mss)) w =
      mqtt_loop cfg (map ((#) (node_location_topic n, Inr (VDict data))) mss) v"
    unfolding list.map mqtt_loop.simps using first by (rule andthen_Inr)
  show ?case
  proof (cases "mss = []")
    case True
    have blocked: "blocks cfg n v" using blocking_message(2) [OF assms(1-5)] by (simp add: v_def)
    then obtain r where "map_of (br_state v) n = Some r" by (auto simp: blocks_def)
    then have "n \<in> set (map fst (br_state v))" by (metis domI dom_map_of_conv_image_fst list.set_map)
    then have "\<exists>e u. republish_all cfg v = (Inl e, u)"
      using publish_keys_blocked [OF blocked] by (simp add: republish_all_def)
    with True step v show ?thesis by auto
  next
    case False
    from Cons.IH [OF False, of v] step v show ?thesis by auto
  qed
qed simp

section \<open>Witnesses\<close>

definition sample_cfg :: tak_cfg where
  "sample_cfg = \<lparr>t_callsign = (\<lambda>i. Inr (''MC-'' @ i)), t_field_type = ''a-f-G-U-C'',
     t_base_type = ''a-f-G-U-C-I'', t_stale_after = 300, t_remove_after = 600\<rparr>"

definition sample_pos :: "pyval \<Rightarrow> pydict" where
  "sample_pos ts = [(''lat'', VFloat (Flt (Fin 48))), (''lon'', VFloat (Flt (Fin 11))), (''ts'', ts)]"

definition sample_bridge :: bridge where
  "sample_bridge = (fresh_bridge (\<lambda>i. 1700000000))
     \<lparr>br_state := [(''n1'', sample_pos (VInt 1690000000)), (''n2'', sample_pos (VInt 1690000000))],
      br_offline := [(''n1'', 1699999000), (''n2'', 1699999999)], br_was_connected := True\<rparr>"

lemma sample_sane: "sane_cfg sample_cfg" "sane_record (sample_pos (VInt 1690000000))" "sane_bridge sample_cfg sample_bridge"
  "sane_bridge sample_cfg (fresh_bridge (\<lambda>i. 1700000000))"
proof -
  show cfg: "sane_cfg sample_cfg" by (simp add: sane_cfg_def sample_cfg_def)
  show r: "sane_record (sample_pos (VInt 1690000000))"
    by (simp add: sane_record_def sample_pos_def sane_time_def)
  show "sane_bridge sample_cfg sample_bridge" "sane_bridge sample_cfg (fresh_bridge (\<lambda>i. 1700000000))"
    using cfg r by (auto simp: sane_bridge_def sample_bridge_def fresh_bridge_def sane_time_def)
qed

lemma sample_keys: "distinct (map fst (sample_pos v))"
  by (simp add: sample_pos_def)

lemma sample_located: "located (br_state sample_bridge) ''n1''" "located (br_state sample_bridge) ''n2''"
  by (simp_all add: located_def sample_bridge_def has_position_def sample_pos_def)

lemma location_message_sends_event_witness:
  "\<exists>b w'. handle_mqtt_message sample_cfg (node_location_topic ''n1'', Inr (VDict (sample_pos (VInt 1690000000))))
       (fresh_bridge (\<lambda>i. 1700000000)) = (Inr (), w') \<and> br_queue w' = [b] \<and>
     reads_as b ''meshcore.n1'' (fixed_point 7 (Flt (Fin 48))) (fixed_point 7 (Flt (Fin 11)))"
proof -
  have pos: "dget (sample_pos (VInt 1690000000)) ''lat'' = VFloat (Flt (Fin 48))"
    "dget (sample_pos (VInt 1690000000)) ''lon'' = VFloat (Flt (Fin 11))" by (simp_all add: sample_pos_def)
  have n: "''n1'' \<noteq> []" "CHR ''/'' \<notin> set ''n1''" by simp_all
  obtain b w' where run: "handle_mqtt_message sample_cfg (node_location_topic ''n1'', Inr (VDict (sample_pos (VInt 1690000000))))
       (fresh_bridge (\<lambda>i. 1700000000)) = (Inr (), w')"
    and q: "br_queue w' = sink_send (br_queue (fresh_bridge (\<lambda>i. 1700000000))) b"
    and b: "reads_as b (uid_for ''n1'') (fixed_point 7 (Flt (Fin 48))) (fixed_point 7 (Flt (Fin 11)))"
    using location_message_sends_event [OF sample_sane(4) n sample_keys sample_sane(2) pos] by blast
  have "br_queue w' = [b]"
    using q by (simp add: fresh_bridge_def sink_send_def put_nowait_def QUEUE_CAP_def)
  moreover have "uid_for ''n1'' = ''meshcore.n1''" by (simp add: uid_for_def BASE_KEY_def)
  ultimately show ?thesis using run b by auto
qed

lemma reconnect_sends_current_state_witness:
  "\<exists>bs w'. sink_connect sample_cfg sample_bridge = (Inr (), w') \<and> length bs = 2 \<and> br_queue w' = bs"
proof -
  have was: "br_was_connected sample_bridge" by (simp add: sample_bridge_def)
  obtain bs w' where run: "sink_connect sample_cfg sample_bridge = (Inr (), w')"
    and ev: "events_for (br_state sample_bridge) (map fst (br_state sample_bridge)) bs"
    and q: "br_queue w' = newest QUEUE_CAP bs"
    using reconnect_sends_current_state [OF sample_sane(3) was] by blast
  have "filter (located (br_state sample_bridge)) (map fst (br_state sample_bridge)) = [''n1'', ''n2'']"
    using sample_located by (simp add: sample_bridge_def)
  with ev have "length bs = 2" by (auto simp: events_for_def dest: list_all2_lengthD)
  with q have "br_queue w' = bs" by (simp add: newest_def QUEUE_CAP_def)
  with run \<open>length bs = 2\<close> show ?thesis by blast
qed

lemma eviction_removes_long_offline_witness:
  "\<exists>bs w'. evict_long_offline sample_cfg sample_bridge = (Inr (), w') \<and> map fst (br_state w') = [''n2''] \<and>
     length bs = 1 \<and> br_queue w' = foldl sink_send [] bs \<and> list_all lapsed bs"
proof -
  have dist: "distinct (map fst (br_offline sample_bridge))" and thr: "0 < t_remove_after sample_cfg"
    by (simp_all add: sample_bridge_def sample_cfg_def)
  have gone: "[''n1''] = overdue (t_remove_after sample_cfg)
      (br_clock sample_bridge (br_tick sample_bridge)) (br_offline sample_bridge)"
    by (simp add: overdue_def sample_cfg_def sample_bridge_def fresh_bridge_def)
  obtain bs w' where run: "evict_long_offline sample_cfg sample_bridge = (Inr (), w')"
    and st: "br_state w' = filter (\<lambda>p. fst p \<notin> set [''n1'']) (br_state sample_bridge)"
    and q: "br_queue w' = foldl sink_send (br_queue sample_bridge) bs"
    and ev: "events_for (br_state sample_bridge) [''n1''] bs" and lapsed: "list_all lapsed bs"
    using eviction_removes_long_offline [OF sample_sane(3) dist thr gone] by blast
  have "map fst (br_state w') = [''n2'']" using st by (simp add: sample_bridge_def)
  moreover have "length bs = 1" using ev sample_located by (auto simp: events_for_def dest: list_all2_lengthD)
  moreover have "br_queue w' = foldl sink_send [] bs" using q by (simp add: sample_bridge_def fresh_bridge_def)
  ultimately show ?thesis using run lapsed by (intro exI [of _ bs] exI [of _ w'] conjI)
qed


lemma illegal_attr: "map_of (xml_attrs x) k = Some v \<Longrightarrow> \<not> list_all xml_char v \<Longrightarrow> \<not> legal_tree x"
  by (cases x) (auto dest!: map_of_SomeD simp: list_all_iff)

text \<open>
  C21. A node whose id holds a control character makes the bridge send an event that is no XML: the
  attribute \<open>uid\<close> holds the id as it is, since \<open>ElementTree\<close> writes such characters unchanged.
\<close>

theorem control_character_is_sent:
  assumes "sane_bridge cfg w" "n \<noteq> []" "CHR ''/'' \<notin> set n" "distinct (map fst data)" "sane_record data"
    "dget data ''lat'' = VFloat (Flt (Fin lat))" "dget data ''lon'' = VFloat (Flt (Fin lon))"
    "\<not> list_all xml_char n" "tak_reachable cfg w"
  shows "\<exists>b w'. handle_mqtt_message cfg (node_location_topic n, Inr (VDict data)) w = (Inr (), w') \<and>
     br_queue w' = sink_send (br_queue w) b \<and> xml10 b = None"
proof -
  obtain b w' where run: "handle_mqtt_message cfg (node_location_topic n, Inr (VDict data)) w = (Inr (), w')"
    and sent: "only_sent [b] (after_merge n data ''node'' w) w'"
    and b: "reads_as b (uid_for n) (fixed_point 7 (Flt (Fin lat))) (fixed_point 7 (Flt (Fin lon)))"
    using location_message_effect [OF assms(1-7)] by blast
  have q: "br_queue w' = sink_send (br_queue w) b"
    using only_sentD(4) [OF sent] by (simp add: after_merge_def)
  have "n \<noteq> BASE_KEY" using assms(8) by (auto simp: BASE_KEY_def xml_char_def)
  then have uid: "\<not> list_all xml_char (uid_for n)" using assms(8) by (simp add: uid_for_def)
  have "sink_ok w" using assms(9) by (rule tak_reachable_ok)
  then have "sink_ok w'" using evolves_keptD [OF keeps_handle run] by blast
  moreover have "b \<in> set (br_queue w')"
    using sink.send_last [of "br_queue w" b] \<open>sink_ok w\<close> unfolding q
    by (metis QUEUE_CAP_def last_in_set sink_ok_def zero_less_numeral)
  ultimately have "is_event b" by (simp add: sink_ok_def)
  then obtain x where x: "read_xml b = Some x" "xml10 b = Some x \<longleftrightarrow> legal_tree x"
    using is_eventD by blast
  have "map_of (xml_attrs x) ''uid'' = Some (uid_for n)" using b x(1) by (auto simp: reads_as_def)
  with illegal_attr [OF _ uid] x(2) have "xml10 b \<noteq> Some x" by blast
  then have "xml10 b = None" using x(1) by (auto simp: xml10_def split: if_splits)
  with run q show ?thesis by blast
qed

theorem control_character_is_sent_witness:
  "\<exists>b w'. handle_mqtt_message sample_cfg
       (node_location_topic [CHR 0x01], Inr (VDict (sample_pos (VInt 1690000000))))
       (fresh_bridge (\<lambda>i. 1700000000)) = (Inr (), w') \<and> br_queue w' = [b] \<and> xml10 b = None"
proof -
  have pos: "dget (sample_pos (VInt 1690000000)) ''lat'' = VFloat (Flt (Fin 48))"
    "dget (sample_pos (VInt 1690000000)) ''lon'' = VFloat (Flt (Fin 11))" by (simp_all add: sample_pos_def)
  have n: "[CHR 0x01] \<noteq> []" "CHR ''/'' \<notin> set [CHR 0x01]" "\<not> list_all xml_char [CHR 0x01]"
    by (simp_all add: xml_char_def)
  have "br_queue w' = sink_send (br_queue (fresh_bridge c)) b \<Longrightarrow> br_queue w' = [b]" for w' b c
    by (simp add: fresh_bridge_def sink_send_def put_nowait_def QUEUE_CAP_def)
  with control_character_is_sent [OF sample_sane(4) n(1,2) sample_keys sample_sane(2) pos n(3) tak_reachable.start]
  show ?thesis by blast
qed

end
