(* ===== verification/EndToEnd.thy ===== *)
theory EndToEnd
  imports TakProps
begin

text \<open>
  The two processes composed: what the service publishes on the retained topics is what the bridge
  reads. The broker hands a message on as it was published.
\<close>

section \<open>What the service publishes\<close>

definition grows :: "world \<Rightarrow> world \<Rightarrow> bool" where
  "grows w w' \<longleftrightarrow> set (w_sent w) \<subseteq> set (w_sent w')"

interpretation grows: evolution grows
  by unfold_locales (auto simp: grows_def)

declare grows.evolves_rules [evolves_intros]

lemma grows_basic [evolves_intros]:
  "evolves grows (store_call f)" "evolves grows (store_query g)" "evolves grows (bus_publish t p b)"
  "evolves grows time_time"
  by (rule evolves_store_call evolves_store_query evolves_bus_publish evolves_time_time; auto simp: grows_def)+

lemma grows_radio [evolves_intros]: "evolves grows (note_radio n r s t)"
  unfolding note_radio_def by (rule evolves_modify) (auto simp: grows_def split: pyval.split)

lemma grows_republish [evolves_intros]: "evolves grows (republish_state n)"
  unfolding republish_state_def get_node_state_def store_api_defs by (intro evolves_intros)

lemma apply_location_publishes:
  assumes "apply_location n fx src rssi snr w = (Inr (), w')"
  shows "\<lparr>msg_topic = node_location_topic n, msg_payload = compact_json (location_body n fx src rssi snr),
     msg_retain = True\<rparr> \<in> set (w_sent w')"
proof -
  let ?m = "\<lparr>msg_topic = node_location_topic n, msg_payload = compact_json (location_body n fx src rssi snr),
     msg_retain = True\<rparr>"
  obtain u v where pub: "bus_publish (node_location_topic n) (compact_json (location_body n fx src rssi snr)) True u
        = (Inr (), v)" and rest: "republish_state (VStr n) v = (Inr (), w')"
    using assms unfolding apply_location_def by (auto elim!: andthenE)
  from pub have "?m \<in> set (w_sent v)"
    by (auto simp: bus_publish_def awaiting_def Let_def split: if_splits option.splits)
  with evolvesD [OF grows_republish rest] show ?thesis by (auto simp: grows_def)
qed

section \<open>What the bridge can publish\<close>

lemma sane_opt_float_Some: "opt_float v = Inr (Some f) \<Longrightarrow> sane_val v \<Longrightarrow> \<exists>a. f = Flt (Fin a)"
  using sane_float [of v] by (auto simp: opt_float_def ebind_Inr_iff split: if_splits)

lemma sane_opt_int_Some: "opt_int v = Inr (Some n) \<Longrightarrow> sane_val v \<Longrightarrow> \<bar>n\<bar> < 2 ^ 53"
  by (cases v) (auto simp: opt_int_def split: if_splits)

lemma sane_of_opt:
  "opt_float v = Inr f \<Longrightarrow> sane_val v \<Longrightarrow> sane_val (of_opt VFloat f)"
  "opt_int v = Inr i \<Longrightarrow> sane_val v \<Longrightarrow> sane_val (of_opt VInt i)"
  using sane_opt_float_Some [of v] sane_opt_int_Some [of v] by (cases f; cases i; fastforce)+

lemma dget_compact: "dget (filter (\<lambda>(k, v). \<not> is_none v) d) k = dget d k" if "distinct (map fst d)" for d
  using that
proof (induction d)
  case (Cons x d)
  obtain k' v where x: "x = (k', v)" by (cases x)
  have "k' \<notin> fst ` set d" using Cons.prems x by auto
  then have "map_of (filter (\<lambda>(k, v). \<not> is_none v) d) k' = None" "map_of d k' = None"
    by (auto simp: map_of_eq_None_iff)
  with Cons x show ?case by (auto simp: dget_def split: option.splits)
qed simp

definition sane_report :: "world \<Rightarrow> pydict \<Rightarrow> bool" where
  "sane_report w a \<longleftrightarrow> sane_record a \<and> \<not> is_str (dget a ''ts'') \<and> sane_time (h_clock (w_host w) (w_tick w))"

lemma report_time_sane:
  assumes "sane_report w a" "or_now (dget a ''ts'') w = (Inr tv, v)" "float_of tv = Inr ts"
  shows "sane_ts (VFloat ts)"
proof (cases "truthy (dget a ''ts'')")
  case True
  then have "tv = dget a ''ts''" using assms(2) by (simp add: or_now_def)
  moreover have "sane_ts (dget a ''ts'')" "sane_val (dget a ''ts'')" "\<not> is_str (dget a ''ts'')"
    using assms(1) by (simp_all add: sane_report_def sane_record_def)
  ultimately show ?thesis
    using assms(3) by (cases "dget a ''ts''")
      (auto simp: float_of_int_def sane_time_def split: if_splits)
next
  case False
  then have "tv = fin_ts (h_clock (w_host w) (w_tick w))"
    using assms(2) by (auto simp: or_now_def time_time_def andthen_def)
  with assms(1,3) show ?thesis by (auto simp: sane_report_def)
qed

lemma report_body_sane:
  assumes "sane_report w a" "or_now (dget a ''ts'') w = (Inr tv, v)" "report_fix a tv = Inr fx"
    and "f_lat fx = Flt (Fin lat)" "f_lon fx = Flt (Fin lon)"
  shows "sane_record (filter (\<lambda>(k, v). \<not> is_none v) (location_body n fx src None None))"
proof -
  have vals: "sane_val (dget a k)" for k using assms(1) by (simp add: sane_report_def sane_record_def)
  obtain alt acc fi spd hdg where fields: "float_of tv = Inr (f_ts fx)"
      "opt_float (dget a ''alt'') = Inr alt" "opt_float (dget a ''acc'') = Inr acc"
      "opt_int (dget a ''fix'') = Inr fi" "opt_float (dget a ''spd'') = Inr spd" "opt_float (dget a ''hdg'') = Inr hdg"
      "f_alt fx = alt" "f_acc fx = acc" "f_fix fx = fi" "f_spd fx = spd" "f_hdg fx = hdg"
    using assms(3) by (auto simp: report_fix_def ebind_Inr_iff)
  have ts: "sane_ts (VFloat (f_ts fx))" by (rule report_time_sane [OF assms(1,2) fields(1)])
  then have tv: "sane_val (VFloat (f_ts fx))"
    by (cases "f_ts fx") (simp_all, rename_tac x, case_tac x, simp_all)
  have opts: "sane_val (of_opt VFloat alt)" "sane_val (of_opt VFloat acc)" "sane_val (of_opt VInt fi)"
      "sane_val (of_opt VFloat spd)" "sane_val (of_opt VFloat hdg)"
    using fields sane_of_opt vals by metis+
  have "distinct (map fst (location_body n fx src None None))" by (simp add: location_body_def)
  note eq = dget_compact [OF this]
  have "sane_val (dget (location_body n fx src None None) k)" for k
    using opts tv fields(7-11) assms(4,5) by (simp add: location_body_def)
  with ts show ?thesis unfolding sane_record_def eq by (simp add: location_body_def)
qed

section \<open>From the report to the event\<close>

text \<open>
  C23. The whole way of a position: when the service has acknowledged a location report with usable
  numbers, the broker holds a retained message which the bridge, in any state it can publish from,
  turns into one event, and a reader of that event finds the sender's node and the reported position
  to seven decimals.
\<close>

theorem reported_position_reaches_tak:
  assumes "handle_node_location_report r w = (Inr p, w')" "sane_report w (q_args r)"
    and "as_float (dget (q_args r) ''lat'') = Inr (Flt (Fin lat))" "as_float (dget (q_args r) ''lon'') = Inr (Flt (Fin lon))"
    and "q_from r \<noteq> []" "CHR ''/'' \<notin> set (q_from r)" "sane_bridge cfg b"
  shows "\<exists>m ev b'. m \<in> set (w_sent w') \<and> msg_retain m \<and>
     handle_mqtt_message cfg (msg_topic m, Inr (msg_payload m)) b = (Inr (), b') \<and>
     br_queue b' = sink_send (br_queue b) ev \<and>
     reads_as ev (uid_for (q_from r)) (fixed_point 7 (Flt (Fin lat))) (fixed_point 7 (Flt (Fin lon)))"
proof -
  from assms(1) obtain tv v fx where tv: "or_now (dget (q_args r) ''ts'') w = (Inr tv, v)"
      and fx: "report_fix (q_args r) tv = Inr fx"
      and ap: "apply_location (q_from r) fx ''report'' None None v = (Inr (), w')"
    by (rule report_acknowledged_run)
  have pos: "f_lat fx = Flt (Fin lat)" "f_lon fx = Flt (Fin lon)"
    using fx assms(3,4) by (auto simp: report_fix_def ebind_Inr_iff)
  define body where "body = location_body (q_from r) fx ''report'' None None"
  define data where "data = filter (\<lambda>(k, v). \<not> is_none v) body"
  have d: "distinct (map fst body)" by (simp add: body_def location_body_def)
  have distinct: "distinct (map fst data)" unfolding data_def by (rule distinct_map_filter [OF d])
  have sane: "sane_record data"
    unfolding data_def body_def by (rule report_body_sane [OF assms(2) tv fx pos])
  have lat: "dget data ''lat'' = VFloat (Flt (Fin lat))" "dget data ''lon'' = VFloat (Flt (Fin lon))"
    unfolding data_def dget_compact [OF d] by (simp_all add: body_def location_body_def pos)
  obtain ev b' where run: "handle_mqtt_message cfg (node_location_topic (q_from r), Inr (VDict data)) b = (Inr (), b')"
    and sent: "only_sent [ev] (after_merge (q_from r) data ''node'' b) b'"
    and ev: "reads_as ev (uid_for (q_from r)) (fixed_point 7 (Flt (Fin lat))) (fixed_point 7 (Flt (Fin lon)))"
    using location_message_effect [OF assms(7,5,6) distinct sane lat] by blast
  have "br_queue b' = sink_send (br_queue b) ev"
    using only_sentD(4) [OF sent] by (simp add: after_merge_def)
  with run ev apply_location_publishes [OF ap] show ?thesis
    unfolding compact_json_def body_def [symmetric] data_def [symmetric]
    by (intro exI [of _ "\<lparr>msg_topic = node_location_topic (q_from r), msg_payload = VDict data, msg_retain = True\<rparr>"]
        exI [of _ ev] exI [of _ b']) simp
qed

text \<open>
  C24. One request is enough to stop the bridge: an acknowledged location report whose time stamp is
  beyond the year 9999 leaves a retained message with which no connection of the bridge gets past
  its beginning and every republish raises.
\<close>

theorem acknowledged_report_blocks_bridge:
  assumes "handle_node_location_report r w = (Inr p, w')" "dget (q_args r) ''ts'' = VInt t" "253402300800 \<le> t"
    and "q_from r \<noteq> []" "CHR ''/'' \<notin> set (q_from r)" "callsign_for cfg (q_from r) = Inr cs" "mss \<noteq> []"
  shows "\<exists>m b'. m \<in> set (w_sent w') \<and> msg_retain m \<and>
     mqtt_loop cfg (map ((#) (msg_topic m, Inr (msg_payload m))) mss) b = (Inr (), b') \<and>
     br_queue b' = br_queue b \<and> (\<forall>k. k \<noteq> q_from r \<longrightarrow> map_of (br_state b') k = map_of (br_state b) k) \<and>
     (\<exists>e v. republish_all cfg b' = (Inl e, v))"
proof -
  from assms(1) obtain tv v fx where ok: "acceptable_position (q_args r)"
      and tv: "or_now (dget (q_args r) ''ts'') w = (Inr tv, v)" and fx: "report_fix (q_args r) tv = Inr fx"
      and ap: "apply_location (q_from r) fx ''report'' None None v = (Inr (), w')"
    by (rule report_acknowledged_run)
  have "tv = VInt t" using tv assms(2,3) by (simp add: or_now_def)
  with fx have ts: "f_ts fx = Flt (Fin (of_int t))"
    by (auto simp: report_fix_def ebind_Inr_iff float_of_int_def split: if_splits)
  define body where "body = location_body (q_from r) fx ''report'' None None"
  define data where "data = filter (\<lambda>(k, v). \<not> is_none v) body"
  have d: "distinct (map fst body)" by (simp add: body_def location_body_def)
  have distinct: "distinct (map fst data)" unfolding data_def by (rule distinct_map_filter [OF d])
  have "beyond_calendar data"
    unfolding beyond_calendar_def has_position_def data_def dget_compact [OF d]
    using ts assms(3) by (simp add: body_def location_body_def)
  from blocked_loop [OF assms(4,5) distinct this assms(6,7)] apply_location_publishes [OF ap] show ?thesis
    unfolding compact_json_def body_def [symmetric] data_def [symmetric]
    by (intro exI [of _ "\<lparr>msg_topic = node_location_topic (q_from r), msg_payload = VDict data, msg_retain = True\<rparr>"])
      simp
qed

section \<open>Witnesses\<close>

theorem reported_position_reaches_tak_witness:
  "\<exists>m ev b' w' p. handle_node_location_report sample_report sample_world = (Inr p, w') \<and> m \<in> set (w_sent w') \<and>
     handle_mqtt_message sample_cfg (msg_topic m, Inr (msg_payload m)) (fresh_bridge (\<lambda>i. 1700000000)) = (Inr (), b') \<and>
     reads_as ev (uid_for ''n1'') (fixed_point 7 (Flt (Fin 28))) (fixed_point 7 (Flt (Fin (- 82))))"
proof -
  obtain w' where run: "handle_node_location_report sample_report sample_world =
      (Inr (response_ok sample_report [(''ack'', VBool True), (''ts'', VFloat (Flt (Fin 90)))]), w')"
    by (rule sample_report_run)
  have "sane_report sample_world (q_args sample_report)"
    by (simp add: sane_report_def sane_record_def sample_report_def sane_time_def sample_world_def sample_host_def)
  moreover have "as_float (dget (q_args sample_report) ''lat'') = Inr (Flt (Fin 28))"
      "as_float (dget (q_args sample_report) ''lon'') = Inr (Flt (Fin (- 82)))"
      "q_from sample_report = ''n1''"
    by (simp_all add: sample_report_def float_of_int_def)
  ultimately show ?thesis
    using reported_position_reaches_tak [OF run _ _ _ _ _ sample_sane(4), of 28 "- 82"] run by fastforce
qed

definition milliseconds_report :: request where
  "milliseconds_report = sample_report\<lparr>q_args :=
     [(''lat'', VInt 28), (''lon'', VInt (- 82)), (''ts'', VInt 1700000000000)]\<rparr>"

lemma milliseconds_run:
  obtains p w' where "handle_node_location_report milliseconds_report sample_world = (Inr p, w')"
proof (rule report_runs [OF sample_healthy sample_live])
  show "finite_seen sample_world (q_from milliseconds_report)"
    by (simp add: finite_seen_def sample_world_def empty_store_def)
  show "acceptable_position (q_args milliseconds_report)" "truthy (dget (q_args milliseconds_report) ''ts'')"
    by (simp_all add: acceptable_position_def in_range_def milliseconds_report_def)
  show "report_fix (q_args milliseconds_report) (dget (q_args milliseconds_report) ''ts'') = Inr
    \<lparr>f_lat = Flt (Fin 28), f_lon = Flt (Fin (- 82)), f_ts = Flt (Fin 1700000000000), f_alt = None,
      f_acc = None, f_fix = None, f_spd = None, f_hdg = None\<rparr>"
    by (simp add: report_fix_def milliseconds_report_def float_of_int_def opt_float_def opt_int_def)
qed (simp_all add: admits_location_def opt_fits64_def, rule that)

theorem acknowledged_report_blocks_bridge_witness:
  "\<exists>m p w' b'. handle_node_location_report milliseconds_report sample_world = (Inr p, w') \<and> m \<in> set (w_sent w') \<and>
     mqtt_loop sample_cfg [[(msg_topic m, Inr (msg_payload m)), (node_location_topic ''n4'', Inr (VDict (sample_pos (VInt 1690000000))))],
       [(msg_topic m, Inr (msg_payload m))]] sample_bridge = (Inr (), b') \<and>
     br_queue b' = [] \<and> map_of (br_state b') ''n4'' = None \<and> (\<exists>e v. republish_all sample_cfg b' = (Inl e, v))"
proof -
  obtain p w' where run: "handle_node_location_report milliseconds_report sample_world = (Inr p, w')"
    by (rule milliseconds_run)
  let ?rest = "[[(node_location_topic ''n4'', Inr (VDict (sample_pos (VInt 1690000000))))], []]"
  have n: "q_from milliseconds_report = ''n1''" and t: "dget (q_args milliseconds_report) ''ts'' = VInt 1700000000000"
    by (simp_all add: milliseconds_report_def sample_report_def)
  have cs: "callsign_for sample_cfg ''n1'' = Inr ''MC-n1''"
    by (simp add: callsign_for_def sample_cfg_def BASE_KEY_def)
  obtain m b' where m: "m \<in> set (w_sent w')"
    and loop: "mqtt_loop sample_cfg (map ((#) (msg_topic m, Inr (msg_payload m))) ?rest) sample_bridge = (Inr (), b')"
    and q: "br_queue b' = br_queue sample_bridge"
    and others: "\<forall>k. k \<noteq> ''n1'' \<longrightarrow> map_of (br_state b') k = map_of (br_state sample_bridge) k"
    and rep: "\<exists>e v. republish_all sample_cfg b' = (Inl e, v)"
    using acknowledged_report_blocks_bridge [OF run t, of sample_cfg "''MC-n1''" ?rest sample_bridge] n cs by auto
  have "br_queue b' = []" using q by (simp add: sample_bridge_def fresh_bridge_def)
  moreover have "map_of (br_state b') ''n4'' = None" using others by (simp add: sample_bridge_def)
  ultimately show ?thesis using run m loop rep by (intro exI [of _ m] exI [of _ p] exI [of _ w'] exI [of _ b']) simp
qed

end
