(* ===== verification/Connection.thy ===== *)
theory Connection
  imports SqlStore
begin

text \<open>
  persistence/sqlite.py below the level of whole operations: one connection, opened with
  \<open>check_same_thread=False\<close>, on which the worker threads of \<open>asyncio.to_thread\<close> run their
  \<open>with self._conn:\<close> blocks. A connection has one transaction. A statement changes its working
  state, the end of a block commits it, an exception in a block rolls it back; all of it, whoever
  the changes belong to. Alone, a block is the atomic operation of SqlStore.
\<close>

section \<open>Blocks\<close>

text \<open>A block executes a statement, which fails or yields what is left of the block, or it is at
  its end with a value.\<close>

datatype 'r block = Leave 'r | Exec "store \<Rightarrow> exn + (store \<times> 'r block)"

definition received_block :: "request \<Rightarrow> int \<Rightarrow> real \<Rightarrow> bool block" where
  "received_block r ttl now = Exec (\<lambda>d.
     if \<not> fits64 ttl then Inl (PyExn ''OverflowError'')
     else if has_request d (q_from r) (q_id r) then Inr (d, Leave False)
     else Inr (d\<lparr>t_requests := t_requests d @ [new_row now r ttl]\<rparr>,
       Exec (\<lambda>d. Inr (d\<lparr>t_events := t_events d @ [new_event now (q_id r) (q_from r) RECEIVED None]\<rparr>,
         Leave True))))"

definition purge_block :: "real \<Rightarrow> int block" where
  "purge_block cutoff = Exec (\<lambda>d.
     let left = filter (\<lambda>r. \<not> purgeable cutoff r) (t_requests d);
         deleted = length (filter (purgeable cutoff) (t_requests d))
     in Inr (d\<lparr>t_requests := left\<rparr>, Exec (\<lambda>d.
        Inr (d\<lparr>t_events := filter (\<lambda>e. \<not> (e_ts e < cutoff \<and> e_request e \<notin> set (map r_id (t_requests d)))) (t_events d)\<rparr>,
       Exec (\<lambda>d. Inr (d\<lparr>t_snapshots := filter (\<lambda>g. \<not> g_ts g < cutoff) (t_snapshots d)\<rparr>,
         Leave (int deleted)))))))"

text \<open>A block of a single statement, as all other operations that write have.\<close>

definition single_block :: "(store \<Rightarrow> exn + ('r \<times> store)) \<Rightarrow> 'r block" where
  "single_block f = Exec (\<lambda>d. case f d of Inl e \<Rightarrow> Inl e | Inr (x, d') \<Rightarrow> Inr (d', Leave x))"

text \<open>
  SQLite may fail under any statement (the disk is full, another process holds the lock): the block
  whose \<open>k\<close>-th statement, raises what the script has for it instead of being executed.
\<close>

primrec with_faults :: "'r block \<Rightarrow> (nat \<Rightarrow> exn option) \<Rightarrow> nat \<Rightarrow> 'r block" where
  "with_faults (Leave x) = (\<lambda>F k. Leave x)"
| "with_faults (Exec f) = (\<lambda>F k. Exec (\<lambda>d. case F k of
      Some e \<Rightarrow> Inl e
    | None \<Rightarrow> (case (map_sum id (map_prod id with_faults) \<circ> f) d of
        Inl e \<Rightarrow> Inl e
      | Inr (d', g) \<Rightarrow> Inr (d', g F (Suc k)))))"

section \<open>The connection\<close>

record conn =
  c_committed :: store
  c_working :: store

datatype 'r thread = In_block "'r block" | Rolling_back exn | Returned "exn + 'r"

text \<open>One step of a thread. A thread that has returned makes none.\<close>

fun thread_step :: "'r thread \<Rightarrow> conn \<Rightarrow> 'r thread \<times> conn" where
  "thread_step (In_block (Leave x)) c = (Returned (Inr x), c\<lparr>c_committed := c_working c\<rparr>)"
| "thread_step (In_block (Exec f)) c = (case f (c_working c) of
      Inl e \<Rightarrow> (Rolling_back e, c)
    | Inr (d, b) \<Rightarrow> (In_block b, c\<lparr>c_working := d\<rparr>))"
| "thread_step (Rolling_back e) c = (Returned (Inl e), c\<lparr>c_working := c_committed c\<rparr>)"
| "thread_step (Returned out) c = (Returned out, c)"

definition quiescent :: "store \<Rightarrow> conn" where
  "quiescent d = \<lparr>c_committed = d, c_working = d\<rparr>"

text \<open>A schedule of two threads: which of them makes the next step.\<close>

fun schedule :: "bool list \<Rightarrow> 'r thread \<times> 's thread \<times> conn \<Rightarrow> 'r thread \<times> 's thread \<times> conn" where
  "schedule [] s = s"
| "schedule (True # bs) (a, b, c) = (case thread_step a c of (a', c') \<Rightarrow> schedule bs (a', b, c'))"
| "schedule (False # bs) (a, b, c) = (case thread_step b c of (b', c') \<Rightarrow> schedule bs (a, b', c'))"

section \<open>A block on its own\<close>

primrec run_block :: "'r block \<Rightarrow> store \<Rightarrow> exn + ('r \<times> store)" where
  "run_block (Leave x) = (\<lambda>d. Inr (x, d))"
| "run_block (Exec f) = (\<lambda>d. case (map_sum id (map_prod id run_block) \<circ> f) d of
      Inl e \<Rightarrow> Inl e
    | Inr (d', g) \<Rightarrow> g d')"

lemma run_Exec: "run_block (Exec f) d = (case f d of Inl e \<Rightarrow> Inl e | Inr (d', b) \<Rightarrow> run_block b d')"
  by (simp split: sum.split prod.split)

lemma run_faulty_Leave [simp]: "run_block (with_faults (Leave x) F k) d = Inr (x, d)"
  by simp

lemma run_faulty_Exec [simp]: "run_block (with_faults (Exec f) F k) d = (case F k of
      Some e \<Rightarrow> Inl e
    | None \<Rightarrow> (case f d of Inl e \<Rightarrow> Inl e | Inr (d', b) \<Rightarrow> run_block (with_faults b F (Suc k)) d'))"
  by (simp add: run_Exec del: run_block.simps split: option.split sum.split prod.split)

lemma received_block_op: "run_block (received_block r ttl now) d = sync_record_received r ttl now d"
  by (simp add: received_block_def run_Exec sync_record_received_def del: run_block.simps(2))

lemma purge_block_op: "run_block (purge_block cutoff) d = sync_purge_before cutoff d"
  by (simp add: purge_block_def run_Exec sync_purge_before_def Let_def del: run_block.simps(2))

lemma single_block_op: "run_block (single_block f) d = f d"
  by (simp add: single_block_def run_Exec del: run_block.simps(2) split: sum.split prod.split)

inductive block_runs :: "'r thread \<times> conn \<Rightarrow> 'r thread \<times> conn \<Rightarrow> bool" where
  stay: "block_runs s s"
| go_on: "block_runs (thread_step t c) s \<Longrightarrow> block_runs (t, c) s"

lemma lone_block:
  "c_working c = d \<Longrightarrow> (case run_block b d of
      Inr (x, d') \<Rightarrow> block_runs (In_block b, c) (Returned (Inr x), quiescent d')
    | Inl e \<Rightarrow> block_runs (In_block b, c) (Returned (Inl e), quiescent (c_committed c)))"
proof (induction b arbitrary: c d)
  case (Leave x)
  then have "thread_step (In_block (Leave x)) c = (Returned (Inr x), quiescent d)"
    by (cases c) (simp add: quiescent_def)
  then have "block_runs (In_block (Leave x), c) (Returned (Inr x), quiescent d)"
    by (metis go_on stay)
  then show ?case by simp
next
  case (Exec f)
  show ?case
  proof (cases "f d")
    case (Inl e)
    have "thread_step (Rolling_back e :: 'a thread) c = (Returned (Inl e), quiescent (c_committed c))"
      by (cases c) (simp add: quiescent_def)
    then have "block_runs (Rolling_back e :: 'a thread, c) (Returned (Inl e), quiescent (c_committed c))"
      by (metis go_on stay)
    then have "block_runs (In_block (Exec f), c) (Returned (Inl e), quiescent (c_committed c))"
      using Inl Exec.prems by (intro go_on) simp
    with Inl show ?thesis by (simp add: run_Exec del: run_block.simps(2))
  next
    case (Inr p)
    obtain d' b where p: "p = (d', b)" by (cases p)
    have "f d \<in> range f" by simp
    then have "case run_block b d' of
        Inr (x, d'') \<Rightarrow> block_runs (In_block b, c\<lparr>c_working := d'\<rparr>) (Returned (Inr x), quiescent d'')
      | Inl e \<Rightarrow> block_runs (In_block b, c\<lparr>c_working := d'\<rparr>) (Returned (Inl e), quiescent (c_committed c))"
      using Exec.IH [of "f d" p b "c\<lparr>c_working := d'\<rparr>" d'] unfolding Inr p
      by (simp add: setr.intros snds.intros split: sum.splits prod.splits)
    moreover have "thread_step (In_block (Exec f)) c = (In_block b, c\<lparr>c_working := d'\<rparr>)"
      using Inr p Exec.prems by simp
    ultimately show ?thesis
      using Inr p by (auto simp: run_Exec simp del: run_block.simps(2) intro: go_on split: sum.splits prod.splits)
  qed
qed

end
