(* ===== verification/PersistProps.thy ===== *)
theory PersistProps
  imports Connection Migrations TaskProps
begin

text \<open>
  Properties of the database below the operations: what the shared connection makes of blocks of
  statements, alone and interleaved, and what opening a database does after a crash.
\<close>

text \<open>
  On its own a block without faults does what the operation of the model says: \<open>record_received\<close> and
  \<open>purge_before\<close> end with the committed and the working state both at the result, or, after an
  exception, both as before.
\<close>

lemma lone_block_is_atomic:
  "(case sync_record_received r ttl now d of
      Inr (x, d') \<Rightarrow> block_runs (In_block (received_block r ttl now), quiescent d) (Returned (Inr x), quiescent d')
    | Inl e \<Rightarrow> block_runs (In_block (received_block r ttl now), quiescent d) (Returned (Inl e), quiescent d)) \<and>
   (case sync_purge_before cutoff d of
      Inr (n, d') \<Rightarrow> block_runs (In_block (purge_block cutoff), quiescent d) (Returned (Inr n), quiescent d')
    | Inl e \<Rightarrow> block_runs (In_block (purge_block cutoff), quiescent d) (Returned (Inl e), quiescent d))"
proof -
  have q: "c_working (quiescent d) = d" "c_committed (quiescent d) = d" by (simp_all add: quiescent_def)
  show ?thesis
    using lone_block [OF q(1), of "received_block r ttl now"] lone_block [OF q(1), of "purge_block cutoff"]
    unfolding received_block_op purge_block_op q(2) by blast
qed

lemma lone_block_outcome:
  "run_block b d = out \<Longrightarrow> (case out of
      Inr (x, d') \<Rightarrow> block_runs (In_block b, quiescent d) (Returned (Inr x), quiescent d')
    | Inl e \<Rightarrow> block_runs (In_block b, quiescent d) (Returned (Inl e), quiescent d))"
  using lone_block [of "quiescent d" d b] by (auto simp: quiescent_def split: sum.splits prod.splits)

text \<open>
  C15. A retention sweep is all or nothing against failures of the database. If SQLite raises under one
  of the three deletions of \<open>purge_before\<close>, the first such exception is raised and the database is as
  before, whatever the deletions before it had removed. Otherwise all three are committed: the
  requests completed before the cutoff, the older events without a request, the older snapshots.
\<close>

theorem purge_is_all_or_nothing:
  "block_runs (In_block (with_faults (purge_block cutoff) F 0), quiescent d)
     (case List.map_filter F [0, 1, 2] of
        e # _ \<Rightarrow> (Returned (Inl e), quiescent d)
      | [] \<Rightarrow> (let kept = filter (\<lambda>r. \<forall>t. r_completed r = Some t \<longrightarrow> cutoff \<le> t) (t_requests d)
         in (Returned (Inr (int (length (t_requests d)) - int (length kept))), quiescent (d\<lparr>
           t_requests := kept,
           t_events := filter (\<lambda>e. cutoff \<le> e_ts e \<or> e_request e \<in> r_id ` set kept) (t_events d),
           t_snapshots := filter (\<lambda>g. cutoff \<le> g_ts g) (t_snapshots d)\<rparr>))))"
proof -
  let ?b = "with_faults (purge_block cutoff) F 0"
  let ?kept = "filter (\<lambda>r. \<forall>t. r_completed r = Some t \<longrightarrow> cutoff \<le> t) (t_requests d)"
  have p: "(\<lambda>r. \<not> purgeable cutoff r) = (\<lambda>r. \<forall>t. r_completed r = Some t \<longrightarrow> cutoff \<le> t)"
    by (auto simp: fun_eq_iff purgeable_def split: option.splits)
  have n: "int (length (filter (purgeable cutoff) (t_requests d))) =
      int (length (t_requests d)) - int (length ?kept)"
    using length_filter_split [of "purgeable cutoff" "t_requests d"] unfolding p by linarith
  have ev: "(\<lambda>e. e_ts e < cutoff \<longrightarrow> e_request e \<in> r_id ` {r \<in> set (t_requests d).
        \<forall>t. r_completed r = Some t \<longrightarrow> cutoff \<le> t}) =
      (\<lambda>e. cutoff \<le> e_ts e \<or> e_request e \<in> r_id ` set ?kept)"
    by (auto simp: fun_eq_iff)
  have "run_block ?b d = (case List.map_filter F [0, 1, 2] of e # _ \<Rightarrow> Inl e | [] \<Rightarrow>
      Inr (int (length (t_requests d)) - int (length ?kept), d\<lparr>t_requests := ?kept,
           t_events := filter (\<lambda>e. cutoff \<le> e_ts e \<or> e_request e \<in> r_id ` set ?kept) (t_events d),
           t_snapshots := filter (\<lambda>g. cutoff \<le> g_ts g) (t_snapshots d)\<rparr>))"
    by (simp add: purge_block_def Let_def p n ev [symmetric] List.map_filter_simps not_less
        numeral_2_eq_2 split: option.split)
  from lone_block_outcome [OF this] show ?thesis
    by (cases "List.map_filter F [0, 1, 2]") (simp_all add: Let_def)
qed

text \<open>
  C16. The same for \<open>record_received\<close>: a time to live beyond 64 bits raises, a request on record makes
  no difference, and a new one gets its row and its event together or, when SQLite raises under either
  insertion, neither.
\<close>

theorem reception_is_all_or_nothing:
  "block_runs (In_block (with_faults (received_block r ttl now) F 0), quiescent d)
     (case F 0 of Some e \<Rightarrow> (Returned (Inl e), quiescent d) | None \<Rightarrow>
      if ttl < - (2 ^ 63) \<or> 2 ^ 63 \<le> ttl then (Returned (Inl (PyExn ''OverflowError'')), quiescent d)
      else if list_ex (\<lambda>row. r_node row = q_from r \<and> r_id row = q_id r) (t_requests d)
      then (Returned (Inr False), quiescent d)
      else (case F 1 of Some e \<Rightarrow> (Returned (Inl e), quiescent d) | None \<Rightarrow>
        (Returned (Inr True), quiescent (d\<lparr>
          t_requests := t_requests d @ [\<lparr>r_id = q_id r, r_node = q_from r, r_type = q_type r, r_ttl = ttl,
            r_received = now, r_completed = None, r_final = None, r_error = None,
            r_request = request_dump r, r_response = None\<rparr>],
          t_events := t_events d @ [\<lparr>e_request = q_id r, e_node = q_from r, e_state = ''received'',
            e_detail = None, e_ts = now\<rparr>]\<rparr>))))"
proof -
  have known: "has_request d (q_from r) (q_id r) \<longleftrightarrow>
      list_ex (\<lambda>row. r_node row = q_from r \<and> r_id row = q_id r) (t_requests d)"
    by (auto simp: has_request_def row_key_def list_ex_iff intro!: rev_image_eqI)
  have fits: "\<not> fits64 ttl \<longleftrightarrow> ttl < - (2 ^ 63) \<or> 2 ^ 63 \<le> ttl"
    by (auto simp: fits64_def)
  have "run_block (with_faults (received_block r ttl now) F 0) d = (case F 0 of Some e \<Rightarrow> Inl e | None \<Rightarrow>
      if ttl < - (2 ^ 63) \<or> 2 ^ 63 \<le> ttl then Inl (PyExn ''OverflowError'')
      else if list_ex (\<lambda>row. r_node row = q_from r \<and> r_id row = q_id r) (t_requests d)
      then Inr (False, d)
      else (case F 1 of Some e \<Rightarrow> Inl e | None \<Rightarrow> Inr (True, d\<lparr>
          t_requests := t_requests d @ [new_row now r ttl],
          t_events := t_events d @ [new_event now (q_id r) (q_from r) RECEIVED None]\<rparr>)))"
    unfolding known [symmetric] fits [symmetric] by (simp add: received_block_def split: option.split)
  from lone_block_outcome [OF this] show ?thesis
    unfolding new_row_def new_event_def RECEIVED_def by (auto split: option.splits if_splits)
qed

text \<open>
  C17. Two blocks on the shared connection are not isolated: a location report whose time stamp is NaN
  fails, and its rollback undoes the rows another thread has just inserted. There is a schedule in
  which \<open>record_received\<close> reports a fresh request and commits, and the database holds no trace of it.
\<close>

theorem rollback_undoes_reception:
  assumes "fits64 ttl" "\<not> has_request d (q_from r) (q_id r)"
    and "f_ts fx = NaN" "opt_fits64 (f_fix fx)" "opt_fits64 rssi"
  shows "schedule [True, True, False, False, True]
     (In_block (received_block r ttl now),
      In_block (single_block (sync_upsert_node_location st (VStr n) fx src rssi snr)), quiescent d) =
     (Returned (Inr True), Returned (Inl (PyExn ''IntegrityError'')), quiescent d)"
proof -
  have "location_of_fix fx src rssi snr = None"
    using assms(3) by (simp add: location_of_fix_def split: option.split)
  then show ?thesis
    using assms(1,2,4,5)
    by (simp add: received_block_def single_block_def sync_upsert_node_location_def quiescent_def)
qed

text \<open>
  C18. Opening a database of an earlier version brings it to the latest schema, and after a crash during
  that the next opening does so too, unless the crash came after the first \<open>ALTER TABLE\<close> and before
  the new version was stored: then opening fails, with nothing changed, now and always.
\<close>

theorem open_after_crash_or_never:
  assumes "old_schema s"
  shows "(wedged (crashed_open n s) \<and>
       open_store (crashed_open n s) = (Some (PyExn ''OperationalError''), crashed_open n s)) \<or>
     (\<exists>t. open_store (crashed_open n s) = (None, t) \<and> latest t \<and> open_store t = (None, t))"
  using open_after_crash [OF assms, of n] open_latest by (auto split: if_splits)

section \<open>Witnesses\<close>

definition nan_fix :: location_fix where
  "nan_fix = \<lparr>f_lat = Flt (Fin 48), f_lon = Flt (Fin 11), f_ts = NaN, f_alt = None, f_acc = None,
     f_fix = None, f_spd = None, f_hdg = None\<rparr>"

text \<open>The second deletion of a sweep fails, after the first has removed the only request.\<close>

definition disk_full :: "nat \<Rightarrow> exn option" where
  "disk_full k = (if k = 1 then Some (PyExn ''OperationalError'') else None)"

theorem purge_is_all_or_nothing_witness:
  "t_requests (c_working (snd (thread_step (In_block (with_faults (purge_block 12) disk_full 0))
     (quiescent sample_completed)))) = [] \<and>
   block_runs (In_block (with_faults (purge_block 12) disk_full 0), quiescent sample_completed)
     (Returned (Inl (PyExn ''OperationalError'')), quiescent sample_completed) \<and>
   t_requests sample_completed \<noteq> []"
  using purge_is_all_or_nothing [of 12 disk_full sample_completed]
  by (simp add: disk_full_def List.map_filter_simps purge_block_def quiescent_def sample_completed_def
      complete_row_def purgeable_def)

theorem reception_is_all_or_nothing_witness:
  "t_requests (c_working (snd (thread_step (In_block (with_faults (received_block sample_request 30 100) disk_full 0))
     (quiescent empty_store)))) \<noteq> [] \<and>
   block_runs (In_block (with_faults (received_block sample_request 30 100) disk_full 0), quiescent empty_store)
     (Returned (Inl (PyExn ''OperationalError'')), quiescent empty_store)"
  using reception_is_all_or_nothing [of sample_request 30 100 disk_full empty_store]
  by (simp add: disk_full_def received_block_def quiescent_def empty_store_def fits64_def has_request_def)

theorem rollback_undoes_reception_witness:
  "schedule [True, True, False, False, True]
     (In_block (received_block sample_request 30 100),
      In_block (single_block (sync_upsert_node_location (\<lambda>x. []) (VStr ''n2'') nan_fix None None None)),
      quiescent empty_store) =
     (Returned (Inr True), Returned (Inl (PyExn ''IntegrityError'')), quiescent empty_store)"
  by (rule rollback_undoes_reception)
    (simp_all add: fits64_def opt_fits64_def has_request_def empty_store_def nan_fix_def)

theorem open_after_crash_or_never_witness:
  "wedged (crashed_open 3 \<lparr>s_versions = [1], s_snapshot_columns = Some BASE_COLUMNS\<rparr>) \<and>
   fst (open_store (crashed_open 3 \<lparr>s_versions = [1], s_snapshot_columns = Some BASE_COLUMNS\<rparr>)) \<noteq> None"
proof -
  let ?s = "\<lparr>s_versions = [1], s_snapshot_columns = Some BASE_COLUMNS\<rparr>"
  have "old_schema ?s" by (simp add: old_schema_def)
  moreover have w: "wedged (crashed_open 3 ?s)" by code_simp
  moreover have "fst (open_store (crashed_open 3 ?s)) \<noteq> None" by code_simp
  ultimately show ?thesis using open_after_crash_or_never [of ?s 3] by blast
qed

end
