(* ===== verification/Codes.thy ===== *)
theory Codes
  imports LiveProps
begin

text \<open>
  The vocabulary of the responses. The handlers raise \<open>RpcError\<close> with three of the codes of
  errors.py (Raises); the pipeline adds the other four. So everything the service puts on a response
  topic is a response of the declared shape with a declared code.
\<close>

section \<open>What goes out\<close>

definition ALL_CODES :: "string list" where
  "ALL_CODES = [BAD_REQUEST, UNKNOWN_TYPE, DUPLICATE, TIMEOUT_CODE, INTERNAL, STALE, UNAVAILABLE]"

definition sound_response :: "response \<Rightarrow> bool" where
  "sound_response p \<longleftrightarrow> response_shape p \<and> (case p_error p of None \<Rightarrow> True | Some e \<Rightarrow> eb_code e \<in> set ALL_CODES)"

lemma all_codes [simp]:
  "UNKNOWN_TYPE \<in> set ALL_CODES" "DUPLICATE \<in> set ALL_CODES" "TIMEOUT_CODE \<in> set ALL_CODES"
  "INTERNAL \<in> set ALL_CODES" "BAD_REQUEST \<in> set ALL_CODES"
  by (simp_all add: ALL_CODES_def)

lemma handler_codes_sub: "c \<in> set HANDLER_CODES \<Longrightarrow> c \<in> set ALL_CODES"
  by (auto simp: HANDLER_CODES_def ALL_CODES_def)

lemma sound_error [simp]: "c \<in> set ALL_CODES \<Longrightarrow> sound_response (make_error i t n c m)"
  by (simp add: sound_response_def make_error_def response_shape_def)

lemma sound_ok: "answers r p \<Longrightarrow> p_status p = ''ok'' \<Longrightarrow> sound_response p"
  by (auto simp: sound_response_def answers_def response_shape_def)

definition typed :: "world \<Rightarrow> world \<Rightarrow> bool" where
  "typed w w' \<longleftrightarrow> (\<exists>ps. responses w' = responses w @ map response_message ps \<and> list_all sound_response ps)"

interpretation typed: evolution typed
proof unfold_locales
  show "typed w w" for w by (simp add: typed_def exI [of _ "[]"])
  show "typed u w" if uv: "typed u v" and vw: "typed v w" for u v w
  proof -
    obtain ps qs where "responses v = responses u @ map response_message ps" "list_all sound_response ps"
        "responses w = responses v @ map response_message qs" "list_all sound_response qs"
      using uv vw by (auto simp: typed_def)
    then show ?thesis unfolding typed_def by (intro exI [of _ "ps @ qs"]) simp
  qed
qed

lemma quiet_typed: "quiet m \<Longrightarrow> evolves typed m"
  by (rule evolvesI) (auto simp: typed_def exI [of _ "[]"] dest: evolves_sameD)

lemma emit_typed:
  assumes "sound_response p" "p_to p \<noteq> [] \<or> n = p_to p"
  shows "evolves typed (service_emit n p)"
proof (rule evolvesI)
  fix w out w'
  assume emit: "service_emit n p w = (out, w')"
  show "typed w w'"
  proof (cases "p_to p = []")
    case True
    with emit assms(2) have "w' = w" by (cases rule: service_emit_cases) (auto simp: rpc_response_topic_def)
    then show ?thesis by (simp add: typed.evo_refl)
  next
    case False
    with emit dflt.emit_sent [of n p w w'] dflt.emit_unsent [of n p w _ w']
    have "responses w' = responses w @ [response_message p] \<or> responses w' = responses w" by (cases out) auto
    then show ?thesis
      unfolding typed_def using assms(1)
      by (auto intro: exI [of _ "[]"] exI [of _ "[p]"])
  qed
qed

lemmas moves_step_outcome = all_step

lemma publish_typed:
  assumes "sound_response p" "p_to p \<noteq> []"
  shows "each_move typed (publish_task service_emit r p f e)"
  unfolding publish_task_def Let_def
  using assms
  by (auto split: sum.split intro!: moves_step moves_Ended emit_typed quiet_rows [THEN quiet_typed])

lemma error_typed: "c \<in> set ALL_CODES \<Longrightarrow> q_from r \<noteq> [] \<Longrightarrow> each_move typed (error_task service_emit r c m)"
  unfolding error_task_def by (rule publish_typed) (simp, simp add: make_error_def)

lemma finish_typed:
  assumes "q_from r \<noteq> []" "\<And>p. out = Inr p \<Longrightarrow> answers r p \<and> p_status p = ''ok''"
    and "\<And>c m. out = Inl (RpcError c m) \<Longrightarrow> c \<in> set HANDLER_CODES"
  shows "each_move typed (finish_task service_emit r ttl out)"
proof (cases out)
  case (Inr p)
  with assms(1,2) show ?thesis
    by (auto simp: finish_task_def answers_def intro!: publish_typed sound_ok [of r])
next
  case (Inl e)
  with assms(1,3) show ?thesis
    by (cases e)
      (auto simp: finish_task_def handler_codes_sub
        intro!: error_typed moves_step moves_ok_then moves_Ended quiet_typed quiet_rows)
qed

lemma fresh_typed:
  assumes "q_from r \<noteq> []"
  shows "each_move typed (fresh_task CUT_HANDLERS service_emit ttl r)"
proof -
  have run: "each_move typed (co_then (co_run_with_timeout (h r) ttl) (finish_task service_emit r ttl))"
    if h: "resolve CUT_HANDLERS (q_type r) = Some h" for h
  proof (rule all_then [OF timeout_all])
    show "serene (\<lambda>p. answers r p \<and> p_status p = ''ok'') (h r)"
      using cut_handlers_ok [OF h] by (simp add: cut_ok_def)
    show "typed w w'" if "same surroundings w w'" for w w'
      using that by (auto simp: typed_def same_def surroundings_def exI [of _ "[]"])
    show "evolves typed inc_in_flight" "evolves typed dec_in_flight"
      unfolding inc_in_flight_def dec_in_flight_def
      by (rule quiet_typed, rule evolves_modify, simp add: same_def responses_def)+
    show "each_move typed (finish_task service_emit r ttl out)"
      if "fine (\<lambda>p. answers r p \<and> p_status p = ''ok'') out" for out
      using that by (intro finish_typed assms) (auto simp: fine_def)
  qed
  have seen: "evolves typed (andthen time_time (\<lambda>now. mark_node_seen v (fin_ts now)))" for v
    by (rule quiet_typed) (intro evolves_intros quiet_rows)
  show ?thesis
    unfolding fresh_task_def
    by (auto split: option.split
        intro!: moves_step moves_ok_then quiet_typed [OF quiet_rows(1)] seen error_typed assms run)
qed

lemma request_typed: "q_from r \<noteq> [] \<Longrightarrow> each_move typed (service_task policy r)"
  unfolding request_task_def Let_def received_task_def
  by (auto split: sum.split
      intro!: moves_step moves_ok_then moves_Ended quiet_typed quiet_rows error_typed fresh_typed)

lemma message_typed: "each_move typed (message_task policy m)"
  unfolding message_task_def
proof (rule moves_step_outcome)
  let ?env = "\<lambda>h. inbound_to_request (h_lax_int h) (h_float_repr h) (in_topic m) (in_json m)"
  show "evolves typed (andthen (gets w_host) (\<lambda>h. lift (?env h)))"
    by (rule quiet_typed) (intro evolves_intros)
  fix w out w'
  assume "andthen (gets w_host) (\<lambda>h. lift (?env h)) w = (out, w')"
  then have out: "out = ?env (w_host w)" by (auto simp: andthen_def split: sum.splits)
  show "each_move typed (case out of
      Inl e \<Rightarrow> Ended (Inl e)
    | Inr env \<Rightarrow> (case env_request env of
        None \<Rightarrow> (case env_error env of None \<Rightarrow> Ended (Inr ()) | Some err \<Rightarrow> refusal_task err)
      | Some r \<Rightarrow> service_task policy r))"
  proof (cases out)
    case (Inl e)
    then show ?thesis by (simp add: moves_Ended)
  next
    case (Inr env)
    then have "?env (w_host w) = Inr env" using out by simp
    then show ?thesis
    proof (cases rule: inbound_cases)
      case (request r data)
      then have "q_from r \<noteq> []"
        using validate_request_well_formed [OF request(2)] by (auto simp: well_formed_request_def)
      with request Inr show ?thesis by (simp add: request_typed)
    next
      case (refused data)
      have "each_move typed (refusal_task err)" if "try_build_bad_request fr data = Some err" for fr err
      proof -
        have "sound_response err"
          using bad_request_shape [OF that] by (simp add: sound_response_def)
        then have "evolves typed (service_emit (p_to err) err)" by (simp add: emit_typed)
        then show ?thesis
          unfolding refusal_task_def by (intro moves_step moves_Ended typed.evolves_rules)
      qed
      with refused Inr show ?thesis by (auto split: option.split intro: moves_Ended)
    next
      case garbled
      with Inr show ?thesis by (simp add: moves_Ended)
    qed
  qed
qed

interpretation typed_run: live_frame typed
proof unfold_locales
  have "typed w w'" if "same around_consumer w w'" for w w'
    using that by (auto simp: typed_def same_def around_consumer_def exI [of _ "[]"])
  then show "each_move typed (co_consume m)" for m by (rule consumer_steps)
qed (auto intro: message_typed beat_frames(2) [THEN quiet_typed]
      fix_frames(2) [THEN quiet_typed] sweep_frames(2) [THEN quiet_typed] leave_frames(2) [THEN quiet_typed])

text \<open>
  C8. Everything the running service puts on the response topics, under any schedule and any failure, is
  a response as schemas.py declares it: either ok with a body and no error, or an error without a
  body whose code is one of the seven of errors.py. No exception of a handler escapes into a
  response under another name.
\<close>

theorem responses_well_typed:
  assumes "live_reach policy sw (Waiting, [], w0) (p, ts, w)"
  shows "\<exists>ps. responses w = responses w0 @ map response_message ps \<and>
     (\<forall>x \<in> set ps. response_shape x \<and>
       (p_status x = ''error'' \<longrightarrow> eb_code (the (p_error x)) \<in>
          {BAD_REQUEST, UNKNOWN_TYPE, DUPLICATE, TIMEOUT_CODE, INTERNAL, STALE, UNAVAILABLE}))"
proof -
  obtain ps where ps: "responses w = responses w0 @ map response_message ps" "list_all sound_response ps"
    using typed_run.run_frame [OF assms] by (auto simp: typed_def)
  have "response_shape x \<and> (p_status x = ''error'' \<longrightarrow> eb_code (the (p_error x)) \<in>
      {BAD_REQUEST, UNKNOWN_TYPE, DUPLICATE, TIMEOUT_CODE, INTERNAL, STALE, UNAVAILABLE})" if "x \<in> set ps" for x
  proof -
    have "sound_response x" using ps(2) that by (simp add: list_all_iff)
    then show ?thesis by (auto simp: sound_response_def response_shape_def ALL_CODES_def)
  qed
  with ps(1) show ?thesis by blast
qed

theorem responses_well_typed_witness:
  "\<exists>w ps. live_reach default_policy daily_sweeper (Waiting, [], sample_world)
       (Draining, [message_task default_policy (request_message_of sample_request)], w) \<and>
     responses w = map response_message ps \<and> (\<forall>x \<in> set ps. response_shape x)"
proof -
  obtain w where w: "live_reach default_policy daily_sweeper (Waiting, [], sample_world)
     (Draining, [message_task default_policy (request_message_of sample_request)], w)"
    using sample_shutdown by blast
  have "responses sample_world = []" by (simp add: responses_def sample_world_def)
  with responses_well_typed [OF w] w show ?thesis by auto
qed

end
