(* ===== verification/ConfigProps.thy ===== *)
theory ConfigProps
  imports Config PureProps
begin

text \<open>
  Properties of the configuration and of the maintenance commands.
\<close>

lemma make_sweeper_cases:
  "make_sweeper days interval = (if days < 1 \<or> flt interval (Flt (Fin 1)) then Inl (PyExn ''ValueError'')
     else Inr \<lparr>sw_days = days, sw_interval_s = interval\<rparr>)"
  by (simp add: make_sweeper_def)

text \<open>
  C40. What a configuration must satisfy is little: the service starts exactly when the retention is at
  least one day and its interval not below one second. Then every time to live lies between
  \<open>min_s\<close> and \<open>max_s\<close>; but nothing checks these two, and when they are the wrong way round every
  request gets \<open>min_s\<close>, above the maximum.
\<close>

theorem accepted_configuration:
  "case service_init cfg of
     Inl e \<Rightarrow> e = PyExn ''ValueError'' \<and>
       (rc_days (sc_retention (ac_service cfg)) < 1 \<or>
        flt (rc_interval_s (sc_retention (ac_service cfg))) (Flt (Fin 1)))
   | Inr (p, sw) \<Rightarrow> 1 \<le> sw_days sw \<and> \<not> flt (sw_interval_s sw) (Flt (Fin 1)) \<and>
       (let tc = sc_timeouts (ac_service cfg) in
         if tc_min_s tc \<le> tc_max_s tc
         then tc_min_s tc \<le> resolve_ttl p t requested \<and> resolve_ttl p t requested \<le> tc_max_s tc
         else resolve_ttl p t requested = tc_min_s tc)"
  by (auto simp: service_init_def make_sweeper_cases resolve_ttl_def policy_of_def Let_def)

text \<open>A configuration file that does not exist is taken for an empty one.\<close>

lemma missing_file_is_ignored: "read p = None \<Longrightarrow> app_load settings read (Some p) = app_load settings read None"
  by (simp add: app_load_def)

text \<open>The defaults are accepted, and are those the classes of the service have themselves.\<close>

lemma default_service_init:
  "service_init default_app = Inr (default_policy, \<lparr>sw_days = 30, sw_interval_s = Flt (Fin 3600)\<rparr>)"
  by (simp add: service_init_def Let_def make_sweeper_cases default_app_def default_service_def
      default_retention_def policy_of_def default_timeouts_def default_policy_def)

text \<open>
  The command \<open>purge\<close>, once the configuration is read and the database open, and for at least one
  day: it reports the number of requests it has removed, and those are the old ones. When the
  database fails it has removed none and reports, as a success, that it has purged 0.
\<close>

theorem purge_command_outcome:
  assumes "days = (case override of Some n \<Rightarrow> n | None \<Rightarrow> rc_days (sc_retention (ac_service cfg)))" "1 \<le> days"
    and "open_store s = (None, s')" "w_budget w = None"
    and "cutoff = h_clock (w_host w) (w_tick w) - of_int days * 86400"
  shows "\<exists>n w'. purge (Inr cfg) override s w = (Purged n days, w') \<and>
     (if h_db_ok (w_host w) (Suc (w_tick w))
      then n = int (length (filter (purgeable cutoff) (t_requests (w_db w)))) \<and>
        t_requests (w_db w') = filter (\<lambda>r. \<not> purgeable cutoff r) (t_requests (w_db w))
      else n = 0 \<and> w_db w' = w_db w)"
proof -
  let ?sw = "\<lparr>sw_days = days, sw_interval_s = Flt (Fin 3600)\<rparr>"
  have run: "purge (Inr cfg) override s w = (case run_once ?sw w of
      (Inl e, w') \<Rightarrow> (Traceback e, w') | (Inr n, w') \<Rightarrow> (Purged n days, w'))"
    using assms(2,3) by (simp add: purge_def load_config_def open_database_def make_sweeper_cases Let_def
        assms(1) [symmetric])
  show ?thesis
    unfolding run using assms(4,5)
    by (auto simp: run_once_def time_time_def andthen_def catch_exception_def catch_def purge_before_def
        store_call_def Let_def sync_purge_before_def SECONDS_PER_DAY_def)
qed

section \<open>Witnesses\<close>

theorem purge_command_outcome_witness:
  "\<exists>w'. purge (Inr default_app) (Some 1) \<lparr>s_versions = [], s_snapshot_columns = None\<rparr> aged_world = (Purged 1 1, w') \<and>
     t_requests (w_db w') = []"
proof -
  let ?s = "\<lparr>s_versions = [], s_snapshot_columns = None\<rparr>"
  obtain s' where s': "open_store ?s = (None, s')" using open_old [of ?s] by (auto simp: old_schema_def)
  have "int (length (filter (purgeable 13600) (t_requests (w_db aged_world)))) = 1"
    "filter (\<lambda>r. \<not> purgeable 13600 r) (t_requests (w_db aged_world)) = []"
    by (simp_all add: aged_world_def sample_completed_def complete_row_def purgeable_def)
  with purge_command_outcome [where days = 1 and override = "Some 1" and cfg = default_app and w = aged_world
      and cutoff = 13600, OF _ _ s'] show ?thesis
    by (auto simp: aged_world_def sample_world_def sample_host_def)
qed

end
