(* ===== verification/LastSeen.thy ===== *)
theory LastSeen
  imports LiveProps
begin

text \<open>
  The time a node was last seen, under any schedule. The column only ever takes the maximum of what
  it has and what it is given, in SQLite's order, and no activity of the service deletes a node.
\<close>

section \<open>SQLite's order\<close>

lemma sql_le_refl: "sql_le v v"
  by (cases v) simp_all

lemma lexord_codes_trans:
  "(s, t) \<in> lexord {(a, b). (of_char a :: nat) < of_char b} \<Longrightarrow> (t, u) \<in> lexord {(a, b). (of_char a :: nat) < of_char b} \<Longrightarrow>
     (s, u) \<in> lexord {(a, b). (of_char a :: nat) < of_char b}"
  by (rule lexord_trans) (auto intro: transI)

lemma lexord_codes_total:
  "s = t \<or> (s, t) \<in> lexord {(a, b). (of_char a :: nat) < of_char b} \<or> (t, s) \<in> lexord {(a, b). (of_char a :: nat) < of_char b}"
proof -
  have "\<forall>a b :: char. (a, b) \<in> {(a, b). (of_char a :: nat) < of_char b} \<or> a = b \<or> (b, a) \<in> {(a, b). (of_char a :: nat) < of_char b}"
    using linorder_less_linear of_char_eq_iff by (metis case_prodI mem_Collect_eq)
  from lexord_linear [OF this, of s t] show ?thesis by blast
qed

lemma xreal_le_Fin_trans: "(x :: xreal) \<le> y \<Longrightarrow> y \<le> z \<Longrightarrow> x \<le> z"
  by (rule order_trans)

lemma sql_le_trans: "sql_le u v \<Longrightarrow> sql_le v w \<Longrightarrow> sql_le u w"
  by (cases u; cases v; cases w)
    (auto intro: lexord_codes_trans order_trans, (metis less_eq_xreal.simps of_int_le_iff order_trans)+)

lemma sql_le_total: "sql_le u v \<or> sql_le v u"
  using lexord_codes_total by (cases u; cases v) (auto simp: linear)

lemma sql_max_ge: "u \<noteq> SNull \<Longrightarrow> v \<noteq> SNull \<Longrightarrow> sql_max u v \<noteq> SNull \<and> sql_le u (sql_max u v)"
  using sql_le_total [of u v] by (auto simp: sql_max_def sql_le_refl)

lemma sql_le_text: "sql_le (SText s) v \<Longrightarrow> \<exists>t. v = SText t"
  by (cases v) simp_all

section \<open>What may happen to the node table\<close>

text \<open>Every node keeps its row, and the time in it goes up or stays.\<close>

definition later_seen :: "world \<Rightarrow> world \<Rightarrow> bool" where
  "later_seen w w' \<longleftrightarrow> (\<forall>k old. t_nodes (w_db w) k = Some old \<longrightarrow> old \<noteq> SNull \<longrightarrow>
     (\<exists>new. t_nodes (w_db w') k = Some new \<and> new \<noteq> SNull \<and> sql_le old new))"

interpretation later: evolution later_seen
proof unfold_locales
  show "later_seen w w" for w by (auto simp: later_seen_def sql_le_refl)
  show "later_seen u w" if "later_seen u v" "later_seen v w" for u v w
    using that unfolding later_seen_def by (meson sql_le_trans)
qed

declare later.evolves_rules [evolves_intros]

lemma later_same: "t_nodes (w_db w') = t_nodes (w_db w) \<Longrightarrow> later_seen w w'"
  by (simp add: later_seen_def sql_le_refl)

lemma later_blind: "budget_blind later_seen"
  by (simp add: budget_blind_def later_seen_def)

lemma later_store_call:
  "(\<And>st now d x d'. f st now d = Inr (x, d') \<Longrightarrow> t_nodes d' = t_nodes d) \<Longrightarrow> evolves later_seen (store_call f)"
  by (rule evolves_store_call) (simp_all add: later_same)

lemma later_store_query [evolves_intros]: "evolves later_seen (store_query f)"
  by (rule evolves_store_query) (simp add: later_same)

lemma mark_node_seen_later [evolves_intros]: "evolves later_seen (mark_node_seen node ts)"
  unfolding mark_node_seen_def
proof (rule evolves_store_call)
  show "later_seen w (w\<lparr>w_tick := t, w_budget := b\<rparr>)" for w t b by (simp add: later_same)
  show "later_seen w (w\<lparr>w_tick := t, w_budget := b, w_db := d\<rparr>)"
    if "sync_mark_node_seen st node ts (w_db w) = Inr (x, d)" for w t b st x d
    using that sql_max_ge
    by (auto simp: sync_mark_node_seen_def later_seen_def Let_def sql_le_refl
        split: sum.splits if_splits option.splits)
qed

lemma later_rows [evolves_intros]:
  "evolves later_seen (record_received r ttl)" "evolves later_seen (record_event i n s dt)"
  "evolves later_seen (record_completion i n f p e)" "evolves later_seen (record_gateway_snapshot a b c)"
  "evolves later_seen (upsert_node_location v fx src ri sn)" "evolves later_seen (upsert_node_battery v ts pc vo so)"
  "evolves later_seen (upsert_base_state k val)" "evolves later_seen (purge_before cutoff)"
  unfolding store_api_defs
  by (rule later_store_call;
      auto simp: sync_record_received_def sync_record_event_def sync_record_completion_def
        sync_record_gateway_snapshot_def sync_upsert_node_location_def sync_upsert_node_battery_def
        sync_upsert_base_state_def sync_purge_before_def Let_def split: if_splits sum.splits option.splits)+

lemma later_others [evolves_intros]:
  "evolves later_seen (get_last_seen v)" "evolves later_seen (get_node_location v)"
  "evolves later_seen (get_node_battery v)" "evolves later_seen (get_base_state k)"
  "evolves later_seen time_time" "evolves later_seen (bus_publish t p b)"
  "evolves later_seen inc_in_flight" "evolves later_seen dec_in_flight"
  unfolding store_api_defs inc_in_flight_def dec_in_flight_def
  by (rule later_store_query evolves_time_time evolves_bus_publish evolves_modify; simp add: later_same)+

lemma later_modify: "(\<And>w. w_db (f w) = w_db w) \<Longrightarrow> evolves later_seen (modify f)"
  by (rule evolves_modify) (simp add: later_same)

lemma later_note_radio [evolves_intros]: "evolves later_seen (note_radio n r s t)"
  unfolding note_radio_def by (rule later_modify) (simp split: pyval.split)

section \<open>The handlers and the consume loop\<close>

abbreviation ages :: "'a co \<Rightarrow> bool" where
  "ages \<equiv> co_all later_seen (\<lambda>_. True)"

lemma ages_await: "evolves later_seen m \<Longrightarrow> ages (await m)"
  by (erule all_await) simp

lemma ages_bind: "ages c \<Longrightarrow> (\<And>x. ages (k x)) \<Longrightarrow> ages (co_bind c k)"
  by (erule all_bind) simp_all

lemma ages_Ended: "ages (Ended out)"
  by (rule all_Ended) simp

lemma ages_if: "ages c \<Longrightarrow> ages d \<Longrightarrow> ages (if b then c else d)"
  by simp

lemma ages_option: "ages c \<Longrightarrow> (\<And>x. ages (d x)) \<Longrightarrow> ages (case x of None \<Rightarrow> c | Some y \<Rightarrow> d y)"
  by (simp split: option.split)

lemma ages_prod: "(\<And>x y. ages (c x y)) \<Longrightarrow> ages (case p of (x, y) \<Rightarrow> c x y)"
  by (simp split: prod.split)

lemmas ages_rules = ages_bind ages_Ended ages_if ages_option ages_prod ages_await

lemma ages_aggregator:
  "ages (co_get_node_state v)" "ages (co_republish_state v)" "ages (co_apply_seen v t ri sn)"
  "ages (co_apply_location n fx src ri sn)" "ages (co_apply_battery v t p vo src)"
proof -
  show s: "ages (co_get_node_state v)" for v
    unfolding co_get_node_state_def by (intro ages_rules evolves_intros)
  show r: "ages (co_republish_state v)" for v
    unfolding co_republish_state_def by (intro ages_rules evolves_intros s)
  show "ages (co_apply_seen v t ri sn)" "ages (co_apply_location n fx src ri sn)"
    "ages (co_apply_battery v t p vo src)"
    unfolding co_apply_seen_def co_apply_location_def co_apply_battery_def
    by (intro ages_rules evolves_intros r)+
qed

lemma later_pieces [evolves_intros]:
  "evolves later_seen (or_now v)" "evolves later_seen get_gateway_snapshot" "evolves later_seen get_base_location"
  "evolves later_seen (snap_age s)"
  unfolding or_now_def get_gateway_snapshot_def get_base_location_def snap_age_def
  by (intro evolves_intros)+

lemma ages_pieces: "ages co_counts" "ages (co_caller_position r)"
  unfolding co_counts_def co_caller_position_def Let_def by (intro ages_rules evolves_intros)+

lemma ages_handlers:
  "ages (co_gateway_status r)" "ages (co_node_last_seen r)" "ages (co_node_location r)" "ages (co_node_status r)"
  "ages (co_node_location_report r)" "ages (co_base_location r)" "ages (co_return_to_base r)"
  unfolding co_gateway_status_def co_node_last_seen_def co_node_location_def co_node_status_def
    co_node_location_report_def co_base_location_def co_return_to_base_def Let_def
  by (intro ages_rules ages_aggregator ages_pieces evolves_intros)+

lemma ages_plain: "ages (await (handle_ping r))" "ages (await (handle_echo r))" "ages (await (handle_time_now r))"
  unfolding handle_ping_def handle_echo_def handle_time_now_def by (intro ages_rules evolves_intros)+

lemma ages_resolved: "resolve CUT_HANDLERS t = Some h \<Longrightarrow> ages (h r)"
  using ages_handlers ages_plain by (auto simp: resolve_def CUT_HANDLERS_def split: if_splits)

lemma ages_timeout: "ages c \<Longrightarrow> ages (co_run_with_timeout c ttl)"
  unfolding co_run_with_timeout_def
  by (intro ages_rules later_others all_finally all_wait_for later_blind) (simp_all add: later_same)

lemma ages_consume: "each_move later_seen (co_consume m)"
proof -
  have ev: "ages (co_battery_event v)" "ages (co_telemetry_event v)" for v
    unfolding co_battery_event_def co_telemetry_event_def
    by (cases v; simp add: ages_Ended; intro impI ages_rules ages_aggregator evolves_intros)+
  have lift: "ages (co_lift x)" for x :: "exn + 'x"
    unfolding co_lift_def by (rule ages_Ended)
  have route: "ages (co_route_event t p)" for t p
    unfolding co_route_event_def by (intro ages_rules lift ev ages_aggregator evolves_intros)
  have cache: "evolves later_seen (maybe_cache m)"
    unfolding maybe_cache_def by (intro evolves_intros later_modify) simp
  show ?thesis
    unfolding co_consume_def co_catch_exception_def
    by (intro ages_rules all_then [OF route] cache)
qed

section \<open>Any run of the service\<close>

interpretation later: task_frame later_seen
proof unfold_locales
  show "evolves later_seen (andthen time_time (\<lambda>now. mark_node_seen v (fin_ts now)))" for v
    by (intro evolves_intros)
  show "evolves later_seen (service_emit n p)" for n p
    unfolding service_emit_def by (intro evolves_intros)
  show "ages (co_run_with_timeout (h r) ttl)" if "resolve CUT_HANDLERS t = Some h" for t h r ttl
    by (rule ages_timeout) (rule ages_resolved [OF that])
qed (rule later_rows)+

interpretation later_run: live_frame later_seen
proof unfold_locales
  show "each_move later_seen (message_task policy m)" for policy m by (rule later.moves_message)
  have health: "evolves later_seen (publish_health vc s)" for vc s
    unfolding publish_health_def by (intro evolves_intros)
  then show "evolves later_seen (beat vc)" "evolves later_seen (leave vc)" for vc
    unfolding beat_def leave_def by (intro evolves_intros later_modify health; simp)+
  show "evolves later_seen (on_fix q th fx)" for q th fx
    unfolding on_fix_def apply_base_location_def by (intro evolves_intros)
  show "evolves later_seen (run_once sw)" for sw
    unfolding run_once_def by (intro evolves_intros)
qed (rule ages_consume)

section \<open>Properties\<close>

text \<open>
  C12. Whatever the service does, in whatever order, and wherever it is cut off: a node it has seen
  stays in the registry, and its time never goes back, numbers before texts. A time that is a text,
  which a gateway event may bring, is therefore never a number again.
\<close>

theorem last_seen_never_goes_back:
  assumes "live_reach policy sw (Waiting, [], w0) (p, ts, w)" "t_nodes (w_db w0) k = Some old" "old \<noteq> SNull"
  shows "\<exists>new. t_nodes (w_db w) k = Some new \<and> sql_le old new \<and> new \<noteq> SNull \<and>
     (\<forall>s. old = SText s \<longrightarrow> (\<exists>t. new = SText t))"
proof -
  from later_run.run_frame [OF assms(1)] assms(2,3) obtain new where
      "t_nodes (w_db w) k = Some new" "new \<noteq> SNull" "sql_le old new"
    by (auto simp: later_seen_def)
  moreover have "\<exists>t. new = SText t" if "old = SText s" for s
    using \<open>sql_le old new\<close> that sql_le_text by simp
  ultimately show ?thesis by (intro exI [of _ new] conjI allI impI)
qed

text \<open>A telemetry event whose \<open>ts\<close> is a word, for a node that was seen at 100.\<close>

definition seen_before :: world where
  "seen_before = sample_world\<lparr>w_db := empty_store\<lparr>t_nodes := [SText ''n1'' \<mapsto> SReal (Fin 100)]\<rparr>\<rparr>"

definition worded_event :: inbound where
  "worded_event = \<lparr>in_topic = telemetry_topic, in_empty = False,
     in_json = Inr (VDict [(''node_id'', VStr ''n1''), (''ts'', VStr ''soon'')])\<rparr>"

lemma worded_event_consumed:
  "\<exists>w. consume default_policy worded_event seen_before = (Inr (), w) \<and>
     t_nodes (w_db w) (SText ''n1'') = Some (SText ''soon'')"
proof -
  have "sql_numeric ''soon'' = None" by code_simp
  moreover have "float_of_str ''soon'' = Inl (PyExn ''ValueError'')" by code_simp
  ultimately show ?thesis
    by (simp add: consume_def worded_event_def maybe_cache_def topic_defs telemetry_topic_def battery_topic_def native_topics
        direct_prefix_def starts_with_def route_event_def safe_json_def handle_telemetry_event_def event_node_def
        or_now_def apply_seen_def note_radio_def republish_state_def get_node_state_def mark_node_seen_def
        get_last_seen_def store_query_def store_call_def sync_mark_node_seen_def sync_get_last_seen_def
        seen_before_def sample_world_def sample_host_def empty_store_def sql_max_def andthen_def catch_exception_def
        catch_def Let_def py_or_def lift_def)
qed

theorem last_seen_never_goes_back_witness:
  "\<exists>w new. live_reach default_policy daily_sweeper (Waiting, [], seen_before) (Waiting, [], w) \<and>
     t_nodes (w_db w) (SText ''n1'') = Some new \<and> sql_le (SReal (Fin 100)) new \<and> new = SText ''soon'' \<and>
     sync_get_last_seen (\<lambda>x. []) (VStr ''n1'') (w_db w) = Inl (PyExn ''ValueError'')"
proof -
  obtain w where w: "consume default_policy worded_event seen_before = (Inr (), w)"
      "t_nodes (w_db w) (SText ''n1'') = Some (SText ''soon'')"
    using worded_event_consumed by blast
  from consume_live [OF w(1), of daily_sweeper "[]"] have run:
      "live_reach default_policy daily_sweeper (Waiting, [], seen_before) (Waiting, [], w)"
    by (simp add: worded_event_def telemetry_topic_def topic_defs native_topics)
  moreover have "t_nodes (w_db seen_before) (SText ''n1'') = Some (SReal (Fin 100))"
    by (simp add: seen_before_def)
  moreover have "float_of_str ''soon'' = Inl (PyExn ''ValueError'')" by code_simp
  ultimately show ?thesis
    using last_seen_never_goes_back [OF run, of "SText ''n1''" "SReal (Fin 100)"] w(2)
    by (intro exI [of _ w]) (auto simp: sync_get_last_seen_def)
qed

end
