(* ===== verification/Races.thy ===== *)
theory Races
  imports HandlerProps CutHandlers
begin

text \<open>
  Location reports that meet. The database and the retained topic of a node are written by two awaits
  of \<open>apply_location\<close> (state.py): they agree after a report that nothing disturbs, not after two
  reports of the same node that cross, and a report under its time limit stores its fix or nothing.
\<close>

section \<open>The retained topics\<close>

text \<open>What the broker holds for a topic: the last message retained there.\<close>

definition retained :: "string \<Rightarrow> world \<Rightarrow> pyval option" where
  "retained t w = map_option msg_payload (find (\<lambda>m. msg_topic m = t \<and> msg_retain m) (rev (w_sent w)))"

lemma retained_tick [simp]: "retained t (w\<lparr>w_tick := k, w_budget := b\<rparr>) = retained t w"
  by (simp add: retained_def)

lemma retained_sent [simp]:
  "retained t (w\<lparr>w_tick := k, w_budget := b, w_sent := w_sent w @ [m]\<rparr>) =
     (if msg_topic m = t \<and> msg_retain m then Some (msg_payload m) else retained t w)"
  by (simp add: retained_def)

text \<open>What a report leaves: the location table and the retained location of its node.\<close>

definition location_of :: "string \<Rightarrow> world \<Rightarrow> (sqlval \<rightharpoonup> location_row) \<times> pyval option" where
  "location_of n w = (t_locations (w_db w), retained (node_location_topic n) w)"

lemma location_of_reads: "evolves (same persistent) m \<Longrightarrow> evolves (same (location_of n)) m"
  by (simp add: evolves_def same_def persistent_def location_of_def retained_def)

lemma location_of_seen [evolves_intros]: "evolves (same (location_of n)) (mark_node_seen v t)"
  unfolding mark_node_seen_def
  by (rule evolves_store_call)
    (auto simp: same_def location_of_def retained_def sync_mark_node_seen_def Let_def split: sum.splits if_splits)

lemma location_of_radio [evolves_intros]: "evolves (same (location_of n)) (note_radio m r s t)"
  unfolding note_radio_def
  by (rule evolves_modify) (auto simp: same_def location_of_def retained_def split: pyval.split)

lemma location_of_republish [evolves_intros]: "evolves (same (location_of n)) (republish_state v)"
  unfolding republish_state_def
  by (intro evolves_intros location_of_reads evolves_bus_publish)
    (simp_all add: same_def location_of_def retained_def)

section \<open>A report\<close>

text \<open>The row and the retained payload of a reported fix.\<close>

definition report_row :: "location_fix \<Rightarrow> location_row" where
  "report_row fx = the (location_of_fix fx (Some ''report'') None None)"

definition report_payload :: "string \<Rightarrow> location_fix \<Rightarrow> pyval" where
  "report_payload n fx = compact_json (location_body n fx ''report'' None None)"

text \<open>\<open>reported r p fx\<close>: \<open>p\<close> acknowledges the fix \<open>fx\<close>, which is made of the arguments of \<open>r\<close>.\<close>

definition reported :: "request \<Rightarrow> response \<Rightarrow> location_fix \<Rightarrow> bool" where
  "reported r p fx \<longleftrightarrow> (\<exists>tv. report_fix (q_args r) tv = Inr fx) \<and>
     p = response_ok r [(''ack'', VBool True), (''ts'', VFloat (f_ts fx))]"

lemma after_upsert_publishes:
  assumes "after_upsert n fx ''report'' None None w = (Inr (), w')"
  shows "t_locations (w_db w') = t_locations (w_db w) \<and>
     retained (node_location_topic n) w' = Some (report_payload n fx)"
proof
  show "t_locations (w_db w') = t_locations (w_db w)"
    using evolves_sameD [OF after_upsert_keeps assms] by (simp add: places_def)
  from assms obtain u v where pub: "bus_publish (node_location_topic n) (report_payload n fx) True u = (Inr (), v)"
      and rest: "republish_state (VStr n) v = (Inr (), w')"
    unfolding after_upsert_def report_payload_def by (auto elim!: andthenE)
  from pub have "retained (node_location_topic n) v = Some (report_payload n fx)"
    by (auto simp: bus_publish_def awaiting_def Let_def retained_def split: if_splits option.splits)
  with evolves_sameD [OF location_of_republish [of n] rest]
  show "retained (node_location_topic n) w' = Some (report_payload n fx)"
    by (simp add: location_of_def)
qed

lemma upsert_result:
  assumes "upsert_node_location (VStr n) fx (Some ''report'') None None w = (out, w')"
  shows "t_locations (w_db w') = t_locations (w_db w) \<and> (\<forall>u. out \<noteq> Inr u) \<or>
     t_locations (w_db w') = (t_locations (w_db w))(SText n \<mapsto> report_row fx)"
proof (cases out)
  case (Inl e)
  from store_call_result [OF assms [unfolded upsert_node_location_def]] show ?thesis
    using Inl by (auto simp: upsert_node_location_Inr report_row_def)
next
  case (Inr u)
  from store_call_Inr [OF assms [unfolded upsert_node_location_def Inr]] show ?thesis
    by (auto simp: upsert_node_location_Inr report_row_def)
qed

lemma reads_or_now: "evolves (same persistent) (or_now v)"
  unfolding or_now_def by (intro evolves_intros)

section \<open>Reports that cross\<close>

text \<open>A coroutine that is stopped after a number of steps.\<close>

primrec co_steps :: "nat \<Rightarrow> 'a co \<Rightarrow> world \<Rightarrow> 'a co \<times> world" where
  "co_steps 0 c w = (c, w)"
| "co_steps (Suc n) c w = (case c of
      Ended out \<Rightarrow> (Ended out, w)
    | Run f \<Rightarrow> (case f w of (c', w') \<Rightarrow> co_steps n c' w'))"

lemma co_steps_Ended [simp]: "co_steps n (Ended out) w = (Ended out, w)"
  by (cases n) simp_all

lemma co_steps_run: "co_steps n c w = (c', w') \<Longrightarrow> co_run c w = co_run c' w'"
  by (induction n arbitrary: c w) (auto split: co.splits prod.splits)

lemma co_steps_bind_await:
  "co_steps (Suc n) (co_bind (await m) k) w =
     (case m w of (Inl e, w') \<Rightarrow> (Ended (Inl e), w') | (Inr x, w') \<Rightarrow> co_steps n (k x) w')"
  by (simp add: await_def split: prod.split sum.split)

lemma co_bind_assoc: "co_bind (co_bind (await m) k) l = co_bind (await m) (\<lambda>x. co_bind (k x) l)"
  by (auto simp: await_def fun_eq_iff split: prod.split sum.split)

text \<open>What is left of a report that has written its row.\<close>

definition report_rest :: "request \<Rightarrow> location_fix \<Rightarrow> response co" where
  "report_rest r fx =
     co_bind (co_bind (await (mark_node_seen (VStr (q_from r)) (VFloat (f_ts fx)))) (\<lambda>_.
       co_bind (await (andthen (note_radio (VStr (q_from r)) None None (VFloat (f_ts fx))) (\<lambda>_.
         bus_publish (node_location_topic (q_from r)) (report_payload (q_from r) fx) True))) (\<lambda>_.
         co_republish_state (VStr (q_from r))))) (\<lambda>_.
       co_ret (response_ok r [(''ack'', VBool True), (''ts'', VFloat (f_ts fx))]))"

lemma co_run_report_rest:
  "co_run (report_rest r fx) = andthen (after_upsert (q_from r) fx ''report'' None None) (\<lambda>_.
     ret (response_ok r [(''ack'', VBool True), (''ts'', VFloat (f_ts fx))]))"
  unfolding report_rest_def
  by (simp add: co_run_simps after_upsert_def report_payload_def andthen_assoc del: co_run.simps(1))

abbreviation read_fix :: "request \<Rightarrow> (world, location_fix) prog" where
  "read_fix r \<equiv> andthen (or_now (dget (q_args r) ''ts'')) (\<lambda>tv. lift (report_fix (q_args r) tv))"

abbreviation write_fix :: "request \<Rightarrow> location_fix \<Rightarrow> (world, unit) prog" where
  "write_fix r fx \<equiv> upsert_node_location (VStr (q_from r)) fx (Some ''report'') None None"

lemma report_two_steps:
  assumes "acceptable_position (q_args r)"
  shows "co_steps 2 (co_node_location_report r) w =
     (case read_fix r w of
        (Inl e, v) \<Rightarrow> (Ended (Inl e), v)
      | (Inr fx, v) \<Rightarrow> (case write_fix r fx v of
          (Inl e, u) \<Rightarrow> (Ended (Inl e), u)
        | (Inr _, u) \<Rightarrow> (report_rest r fx, u)))"
proof -
  let ?k = "\<lambda>fx. co_bind (co_apply_location (q_from r) fx ''report'' None None) (\<lambda>_.
      co_ret (response_ok r [(''ack'', VBool True), (''ts'', VFloat (f_ts fx))]))"
  have second: "co_steps (Suc 0) (?k fx) v = (case write_fix r fx v of
      (Inl e, u) \<Rightarrow> (Ended (Inl e), u) | (Inr _, u) \<Rightarrow> (report_rest r fx, u))" for fx v
    unfolding co_apply_location_def co_bind_assoc co_steps_bind_await report_payload_def report_rest_def
    by (simp split: prod.split sum.split)
  have "co_node_location_report r = co_bind (await (read_fix r)) ?k"
    using assms by (simp add: co_node_location_report_def acceptable_position_def Let_def)
  then show ?thesis by (simp only: numeral_2_eq_2 co_steps_bind_await second)
qed

text \<open>A report that is stopped after its second step and acknowledged later has written its row.\<close>

lemma suspended_report:
  assumes "co_steps 2 (co_node_location_report r) w = (c, w1)" "co_run c w2 = (Inr p, w3)"
  obtains fx where "reported r p fx" "after_upsert (q_from r) fx ''report'' None None w2 = (Inr (), w3)"
    "t_locations (w_db w1) = (t_locations (w_db w))(SText (q_from r) \<mapsto> report_row fx)"
proof -
  have ok: "acceptable_position (q_args r)"
    using assms by (auto simp: co_node_location_report_def acceptable_position_def Let_def split: if_splits)
  from assms obtain fx v u where fx: "read_fix r w = (Inr fx, v)" and wr: "write_fix r fx v = (Inr u, w1)"
      and c: "c = report_rest r fx"
    by (auto simp: report_two_steps [OF ok] split: prod.splits sum.splits)
  from assms(2) have rest: "after_upsert (q_from r) fx ''report'' None None w2 = (Inr (), w3)"
      and p: "p = response_ok r [(''ack'', VBool True), (''ts'', VFloat (f_ts fx))]"
    unfolding c co_run_report_rest by (auto elim!: andthenE)
  from fx obtain tv where tv: "or_now (dget (q_args r) ''ts'') w = (Inr tv, v)" "report_fix (q_args r) tv = Inr fx"
    by (auto elim!: andthenE)
  have "w_db v = w_db w" using evolves_sameD [OF reads_or_now tv(1)] by (simp add: persistent_def)
  with upsert_result [OF wr] have
      "t_locations (w_db w1) = (t_locations (w_db w))(SText (q_from r) \<mapsto> report_row fx)" by auto
  moreover have "reported r p fx" using p tv(2) by (auto simp: reported_def)
  ultimately show ?thesis using rest that by blast
qed

text \<open>
  A report that runs from its beginning to its acknowledgement leaves the row and the retained
  topic of its node with one and the same fix.
\<close>

lemma report_leaves_one_fix:
  assumes "handle_node_location_report r w = (Inr p, w')"
  shows "\<exists>fx. reported r p fx \<and>
     t_locations (w_db w') = (t_locations (w_db w))(SText (q_from r) \<mapsto> report_row fx) \<and>
     retained (node_location_topic (q_from r)) w' = Some (report_payload (q_from r) fx)"
proof -
  have cut: "co_run (co_node_location_report r) w = (Inr p, w')"
    using assms co_run_handlers(5) by (metis uncut_def)
  obtain c w1 where c: "co_steps 2 (co_node_location_report r) w = (c, w1)"
    by (cases "co_steps 2 (co_node_location_report r) w")
  then have "co_run c w1 = (Inr p, w')" using cut co_steps_run by metis
  from suspended_report [OF c this] obtain fx where "reported r p fx" "after_upsert (q_from r) fx ''report'' None None w1 = (Inr (), w')"
      "t_locations (w_db w1) = (t_locations (w_db w))(SText (q_from r) \<mapsto> report_row fx)"
    by blast
  with after_upsert_publishes show ?thesis by metis
qed

text \<open>
  C13. Two reports of one node cross: the first is suspended after it has written its row, the second
  runs to its end, the first goes on. Both are acknowledged, but the row is the second's fix and what
  the topic retains, for everyone who subscribes later, is the first's.
\<close>

theorem crossing_reports_disagree:
  assumes "co_steps 2 (co_node_location_report r1) w = (c, w1)"
    and "co_run (co_node_location_report r2) w1 = (Inr p2, w2)"
    and "co_run c w2 = (Inr p1, w3)" "q_from r1 = n" "q_from r2 = n"
  shows "\<exists>fx1 fx2. reported r1 p1 fx1 \<and> reported r2 p2 fx2 \<and>
     t_locations (w_db w3) (SText n) = Some (report_row fx2) \<and>
     retained (node_location_topic n) w3 = Some (report_payload n fx1)"
proof -
  from suspended_report [OF assms(1,3)] obtain fx1 where
      one: "reported r1 p1 fx1" "after_upsert n fx1 ''report'' None None w2 = (Inr (), w3)"
    using assms(4) by blast
  have "handle_node_location_report r2 w1 = (Inr p2, w2)"
    using assms(2) co_run_handlers(5) by (metis uncut_def)
  from report_leaves_one_fix [OF this] obtain fx2 where
      two: "reported r2 p2 fx2" "t_locations (w_db w2) = (t_locations (w_db w1))(SText n \<mapsto> report_row fx2)"
    using assms(5) by blast
  from one two after_upsert_publishes [OF one(2)] show ?thesis by auto
qed

section \<open>Under the time limit\<close>

text \<open>
  C14. A report that runs under its time limit, however it ends (a timeout between the commit of the
  database and the answer included), has stored the whole fix it names or nothing at all; when it is
  acknowledged it has stored it.
\<close>

theorem report_all_or_nothing:
  assumes "run_with_timeout (handle_node_location_report r) ttl w = (out, w')"
  shows "t_locations (w_db w') = t_locations (w_db w) \<and> (\<forall>p. out \<noteq> Inr p) \<or>
     (\<exists>tv fx. report_fix (q_args r) tv = Inr fx \<and>
        t_locations (w_db w') = (t_locations (w_db w))(SText (q_from r) \<mapsto> report_row fx))"
proof -
  let ?u = "w\<lparr>w_in_flight := w_in_flight w + 1, w_tick := Suc (w_tick w),
      w_budget := h_cut (w_host w) (w_tick w) ttl\<rparr>"
  obtain res v where run: "handle_node_location_report r ?u = (res, v)"
    by (cases "handle_node_location_report r ?u")
  then have out: "w_db w' = w_db v" "(\<exists>p. out = Inr p) \<longleftrightarrow> (\<exists>p. res = Inr p)"
    using assms by (auto simp: run_with_timeout_def inc_in_flight_def dec_in_flight_def finally_do_def wait_for_def
        split: sum.splits)
  have "t_locations (w_db v) = t_locations (w_db ?u) \<and> (\<forall>p. res \<noteq> Inr p) \<or>
     (\<exists>tv fx. report_fix (q_args r) tv = Inr fx \<and>
        t_locations (w_db v) = (t_locations (w_db ?u))(SText (q_from r) \<mapsto> report_row fx))"
  proof (cases "acceptable_position (q_args r)")
    case False
    then show ?thesis using run bad_report_refused [of r ?u] by auto
  next
    case True
    have "co_run (co_node_location_report r) ?u = (res, v)"
      using run co_run_handlers(5) by (metis uncut_def)
    moreover obtain c u where c: "co_steps 2 (co_node_location_report r) ?u = (c, u)"
      by (cases "co_steps 2 (co_node_location_report r) ?u")
    ultimately have rest: "co_run c u = (res, v)" using co_steps_run by metis
    obtain q v1 where q: "read_fix r ?u = (q, v1)" by (cases "read_fix r ?u")
    have "evolves (same persistent) (read_fix r)" by (intro evolves_intros reads_or_now)
    from evolves_sameD [OF this q] have v1: "w_db v1 = w_db ?u" by (simp add: persistent_def)
    show ?thesis
    proof (cases q)
      case (Inl e)
      with c q rest v1 show ?thesis by (auto simp: report_two_steps [OF True])
    next
      case (Inr fx)
      then obtain tv where tv: "report_fix (q_args r) tv = Inr fx" using q by (auto elim!: andthenE)
      obtain x u' where x: "write_fix r fx v1 = (x, u')" by (cases "write_fix r fx v1")
      have keeps: "evolves (same places) (co_run (report_rest r fx))"
        unfolding co_run_report_rest by (intro evolves_intros after_upsert_keeps)
      show ?thesis
      proof (cases x)
        case (Inl e)
        with c q x rest \<open>q = Inr fx\<close> have "res = Inl e" "v = u'" by (auto simp: report_two_steps [OF True])
        with upsert_result [OF x] v1 tv show ?thesis by auto
      next
        case (Inr y)
        with c q x \<open>q = Inr fx\<close> have "c = report_rest r fx" "u = u'" by (auto simp: report_two_steps [OF True])
        with rest evolves_sameD [OF keeps] have "t_locations (w_db v) = t_locations (w_db u')"
          by (auto simp: places_def)
        with upsert_result [OF x] v1 tv Inr show ?thesis by auto
      qed
    qed
  qed
  with out show ?thesis by auto
qed

section \<open>Witnesses\<close>

text \<open>A second report of the same node, from elsewhere.\<close>

definition second_report :: request where
  "second_report = sample_report\<lparr>q_id := ''r2'', q_args := [(''lat'', VInt 29), (''lon'', VInt 0), (''ts'', VInt 95)]\<rparr>"

definition fix_at :: "real \<Rightarrow> real \<Rightarrow> real \<Rightarrow> location_fix" where
  "fix_at lat lon t = \<lparr>f_lat = Flt (Fin lat), f_lon = Flt (Fin lon), f_ts = Flt (Fin t), f_alt = None,
     f_acc = None, f_fix = None, f_spd = None, f_hdg = None\<rparr>"

lemma sample_reports:
  "report_fix (q_args sample_report) tv = Inr fx \<Longrightarrow> f_lat fx = Flt (Fin 28)"
  "report_fix (q_args second_report) tv = Inr fx \<Longrightarrow> f_lat fx = Flt (Fin 29)"
  "acceptable_position (q_args sample_report)" "acceptable_position (q_args second_report)"
  "read_fix sample_report w = (Inr (fix_at 28 (- 82) 90), w)" "read_fix second_report w = (Inr (fix_at 29 0 95), w)"
  by (auto simp: report_fix_def ebind_Inr_iff sample_report_def second_report_def float_of_int_def fix_at_def
      acceptable_position_def in_range_def or_now_def opt_float_def opt_int_def andthen_def)

lemma admits_fix_at: "admits_location (fix_at a b t, Some src, None, None)"
  by (simp add: admits_location_def opt_fits64_def fix_at_def)

text \<open>On a healthy and live outside a report gets to its second await, and from there to its end.\<close>

lemma report_gets_there:
  assumes "read_fix r w = (Inr (fix_at a b t), w)" "acceptable_position (q_args r)"
    and "healthy w" "live w" "finite_seen w (q_from r)"
  obtains w1 where "co_steps 2 (co_node_location_report r) w = (report_rest r (fix_at a b t), w1)"
    "healthy w1" "live w1" "finite_seen w1 (q_from r)"
proof -
  obtain w1 where "write_fix r (fix_at a b t) w = (Inr (), w1)" "healthy w1" "live w1" "finite_seen w1 (q_from r)"
    by (rule upsert_runs [OF assms(3-5) admits_fix_at [of a b t "''report''"]])
  with assms(1) that show ?thesis by (simp add: report_two_steps [OF assms(2)])
qed

lemma rest_gets_there:
  assumes "healthy w" "live w" "finite_seen w (q_from r)"
  obtains p w' where "co_run (report_rest r (fix_at a b t)) w = (Inr p, w')"
    "healthy w'" "live w'" "finite_seen w' (q_from r)"
proof -
  obtain w' where "after_upsert (q_from r) (fix_at a b t) ''report'' None None w = (Inr (), w')"
      "healthy w'" "live w'" "finite_seen w' (q_from r)"
    by (rule after_upsert_runs [OF assms, of "fix_at a b t" t "''report''"]) (simp add: fix_at_def)
  with that show ?thesis unfolding co_run_report_rest by (simp add: andthen_def)
qed

lemma sample_finite: "finite_seen sample_world n"
  by (simp add: finite_seen_def sample_world_def empty_store_def)

lemma reports_from: "q_from sample_report = ''n1''" "q_from second_report = ''n1''"
  by (simp_all add: sample_report_def second_report_def)

theorem crossing_reports_disagree_witness:
  "\<exists>c w1 p1 p2 w2 w3 fx1 fx2. co_steps 2 (co_node_location_report sample_report) sample_world = (c, w1) \<and>
     co_run (co_node_location_report second_report) w1 = (Inr p2, w2) \<and> co_run c w2 = (Inr p1, w3) \<and>
     t_locations (w_db w3) (SText ''n1'') = Some (report_row fx2) \<and> f_lat fx2 = Flt (Fin 29) \<and>
     retained (node_location_topic ''n1'') w3 = Some (report_payload ''n1'' fx1) \<and> f_lat fx1 = Flt (Fin 28)"
proof -
  obtain w1 where one: "co_steps 2 (co_node_location_report sample_report) sample_world
        = (report_rest sample_report (fix_at 28 (- 82) 90), w1)"
      "healthy w1" "live w1" "finite_seen w1 ''n1''"
    using report_gets_there [OF sample_reports(5,3) sample_healthy sample_live sample_finite]
    unfolding reports_from by blast
  obtain v where two: "co_steps 2 (co_node_location_report second_report) w1
        = (report_rest second_report (fix_at 29 0 95), v)"
      "healthy v" "live v" "finite_seen v ''n1''"
    using report_gets_there [OF sample_reports(6,4) one(2,3)] one(4) unfolding reports_from by blast
  obtain p2 w2 where w2: "co_run (report_rest second_report (fix_at 29 0 95)) v = (Inr p2, w2)"
      "healthy w2" "live w2" "finite_seen w2 ''n1''"
    using rest_gets_there [OF two(2,3), of second_report] two(4) unfolding reports_from by blast
  obtain p1 w3 where w3: "co_run (report_rest sample_report (fix_at 28 (- 82) 90)) w2 = (Inr p1, w3)"
    using rest_gets_there [OF w2(2,3), of sample_report] w2(4) unfolding reports_from by blast
  have "co_run (co_node_location_report second_report) w1 = (Inr p2, w2)"
    using co_steps_run [OF two(1)] w2(1) by simp
  from crossing_reports_disagree [OF one(1) this w3 reports_from] one(1) this w3 show ?thesis
    by (auto simp: reported_def dest!: sample_reports(1,2))
qed

text \<open>The time limit fires at the first await of the report, and the statement it waits for is carried out.\<close>

definition slow_world :: world where
  "slow_world = sample_world\<lparr>w_host := sample_host\<lparr>h_cut := (\<lambda>t ttl. Some 0), h_lands := (\<lambda>t. True)\<rparr>\<rparr>"

lemma timed_out_but_stored:
  obtains w' where "run_with_timeout (handle_node_location_report sample_report) 30 slow_world = (Inl TimeoutError, w')"
    "t_locations (w_db w') (SText ''n1'') \<noteq> None"
proof -
  let ?u = "slow_world\<lparr>w_in_flight := 1, w_tick := 1, w_budget := Some 0\<rparr>"
  let ?fx = "fix_at 28 (- 82) 90"
  obtain u where u: "write_fix sample_report ?fx ?u = (Inl Cancelled, u)" "t_locations (w_db u) (SText ''n1'') \<noteq> None"
    using admits_fix_at [of 28 "- 82" 90 "''report''"]
    by (simp add: upsert_node_location_def store_call_def awaiting_def Let_def slow_world_def sample_world_def
        sample_host_def reports_from sync_upsert_node_location_def opt_fits64_def fix_at_def location_of_fix_def)
  have "co_steps 2 (co_node_location_report sample_report) ?u = (Ended (Inl Cancelled), u)"
    using sample_reports(5) [of ?u] u(1) by (simp add: report_two_steps [OF sample_reports(3)])
  from co_steps_run [OF this] have "uncut co_node_location_report sample_report ?u = (Inl Cancelled, u)"
    by (simp add: uncut_def)
  then have run: "handle_node_location_report sample_report ?u = (Inl Cancelled, u)"
    by (simp only: co_run_handlers)
  have "slow_world\<lparr>w_in_flight := w_in_flight slow_world + 1, w_tick := Suc (w_tick slow_world),
      w_budget := h_cut (w_host slow_world) (w_tick slow_world) 30\<rparr> = ?u"
    by (simp add: slow_world_def sample_world_def)
  with run u(2) show ?thesis
    by (intro that [of "u\<lparr>w_budget := None, w_in_flight := max 0 (w_in_flight u - 1)\<rparr>"])
      (simp_all add: run_with_timeout_def inc_in_flight_def dec_in_flight_def finally_do_def wait_for_def)
qed

theorem report_all_or_nothing_witness:
  "\<exists>w' fx. run_with_timeout (handle_node_location_report sample_report) 30 slow_world = (Inl TimeoutError, w') \<and>
     t_locations (w_db w') = [SText ''n1'' \<mapsto> report_row fx] \<and> f_lat fx = Flt (Fin 28)"
proof -
  obtain w' where w': "run_with_timeout (handle_node_location_report sample_report) 30 slow_world = (Inl TimeoutError, w')"
      "t_locations (w_db w') (SText ''n1'') \<noteq> None"
    by (rule timed_out_but_stored)
  moreover have "t_locations (w_db slow_world) = Map.empty"
    by (simp add: slow_world_def sample_world_def empty_store_def)
  ultimately show ?thesis
    using report_all_or_nothing [OF w'(1)] by (auto simp: reports_from dest!: sample_reports(1))
qed

end
