(* ===== verification/Workers.thy ===== *)
theory Workers
  imports PyValues
begin

text \<open>
  Starting and stopping the background tasks: \<open>GpsdClient\<close> (gpsd.py), \<open>TakSink\<close> (tak/takserver.py)
  and \<open>RetentionSweeper\<close> (retention.py). The state is every task ever created, in order, which of
  them the object refers to, and its stop event. How a task ends is up to the outside.
\<close>

text \<open>\<open>Done None\<close>: returned; \<open>Done (Some e)\<close>: ended by an exception, or cancelled.\<close>

datatype task_state = Running | Done "exn option"

record worker =
  k_tasks :: "task_state list"
  k_task :: "nat option"
  k_stop :: bool

definition new_worker :: worker where
  "new_worker = \<lparr>k_tasks = [], k_task = None, k_stop = False\<rparr>"

definition is_running :: "worker \<Rightarrow> bool" where
  "is_running k \<longleftrightarrow> (case k_task k of None \<Rightarrow> False | Some i \<Rightarrow> k_tasks k ! i = Running)"

definition create_task :: "worker \<Rightarrow> worker" where
  "create_task k = k\<lparr>k_tasks := k_tasks k @ [Running], k_task := Some (length (k_tasks k))\<rparr>"

text \<open>How the task ends when it is asked to: by itself within the time limit, or when cancelled.\<close>

record ending =
  in_time :: "exn option option"
  cancelled_with :: "exn option"

section \<open>The clients\<close>

definition client_start :: "worker \<Rightarrow> worker" where
  "client_start k = (if is_running k then k else create_task (k\<lparr>k_stop := False\<rparr>))"

text \<open>What \<open>await\<close> makes of a task that has ended.\<close>

definition awaited :: "exn option \<Rightarrow> exn + unit" where
  "awaited r = (case r of None \<Rightarrow> Inr () | Some e \<Rightarrow> Inl e)"

definition swallow_cancelled :: "exn + unit \<Rightarrow> exn + unit" where
  "swallow_cancelled out = (if out = Inl Cancelled then Inr () else out)"

text \<open>
  \<open>stop\<close>: the event is set and the task waited for; when it does not end in time it is cancelled.
  A task that had already ended is awaited all the same.
\<close>

definition client_stop :: "ending \<Rightarrow> worker \<Rightarrow> (exn + unit) \<times> worker" where
  "client_stop e k =
     (let k = k\<lparr>k_stop := True\<rparr> in
      case k_task k of
        None \<Rightarrow> (Inr (), k)
      | Some i \<Rightarrow> (case k_tasks k ! i of
          Done r \<Rightarrow> (awaited r, k)
        | Running \<Rightarrow> (case in_time e of
            Some r \<Rightarrow> (awaited r, k\<lparr>k_tasks := (k_tasks k)[i := Done r]\<rparr>)
          | None \<Rightarrow> (swallow_cancelled (awaited (cancelled_with e)),
              k\<lparr>k_tasks := (k_tasks k)[i := Done (cancelled_with e)]\<rparr>))))"

text \<open>\<open>TakSink\<close> has the same two methods, with another time limit.\<close>

definition tak_sink_start :: "worker \<Rightarrow> worker" where "tak_sink_start = client_start"

definition tak_sink_stop :: "ending \<Rightarrow> worker \<Rightarrow> (exn + unit) \<times> worker" where "tak_sink_stop = client_stop"

section \<open>The sweeper\<close>

definition sweeper_start :: "worker \<Rightarrow> worker" where
  "sweeper_start k = (if k_task k \<noteq> None then k else create_task k)"

definition sweeper_stop :: "ending \<Rightarrow> worker \<Rightarrow> (exn + unit) \<times> worker" where
  "sweeper_stop e k = (case k_task k of
      None \<Rightarrow> (Inr (), k)
    | Some i \<Rightarrow>
        (let r = (case k_tasks k ! i of Done r \<Rightarrow> r | Running \<Rightarrow> cancelled_with e);
             k = k\<lparr>k_tasks := (k_tasks k)[i := Done r]\<rparr>
         in case swallow_cancelled (awaited r) of
              Inr _ \<Rightarrow> (Inr (), k\<lparr>k_task := None\<rparr>)
            | Inl x \<Rightarrow> (Inl x, k)))"

section \<open>Histories\<close>

datatype worker_op = Start | Stop ending | Ends "exn option"

fun run_op :: "(worker \<Rightarrow> worker) \<Rightarrow> (ending \<Rightarrow> worker \<Rightarrow> (exn + unit) \<times> worker) \<Rightarrow> worker_op \<Rightarrow> worker \<Rightarrow> worker" where
  "run_op start stop Start k = start k"
| "run_op start stop (Stop e) k = snd (stop e k)"
| "run_op start stop (Ends r) k = (case k_task k of
      None \<Rightarrow> k
    | Some i \<Rightarrow> if k_tasks k ! i = Running then k\<lparr>k_tasks := (k_tasks k)[i := Done r]\<rparr> else k)"

definition run_calls ::
  "(worker \<Rightarrow> worker) \<Rightarrow> (ending \<Rightarrow> worker \<Rightarrow> (exn + unit) \<times> worker) \<Rightarrow> worker_op list \<Rightarrow> worker \<Rightarrow> worker" where
  "run_calls start stop ops = fold (run_op start stop) ops"

definition running_tasks :: "worker \<Rightarrow> nat" where
  "running_tasks k = length (filter (\<lambda>t. t = Running) (k_tasks k))"

text \<open>Only the task the object refers to can be running.\<close>

definition sound :: "worker \<Rightarrow> bool" where
  "sound k \<longleftrightarrow> (\<forall>i < length (k_tasks k). k_tasks k ! i = Running \<longrightarrow> k_task k = Some i) \<and>
     (case k_task k of None \<Rightarrow> True | Some i \<Rightarrow> i < length (k_tasks k))"

lemma running_one: "sound k \<Longrightarrow> running_tasks k = (if is_running k then 1 else 0)"
proof -
  assume s: "sound k"
  have "{i. i < length (k_tasks k) \<and> k_tasks k ! i = Running} = (if is_running k then {the (k_task k)} else {})"
    using s by (auto simp: sound_def is_running_def split: option.splits)
  then show ?thesis
    unfolding running_tasks_def length_filter_conv_card by (simp split: if_splits)
qed

lemma sound_new: "sound new_worker"
  by (simp add: sound_def new_worker_def)

lemma sound_create: "sound k \<Longrightarrow> \<not> is_running k \<Longrightarrow> sound (create_task k) \<and> is_running (create_task k)"
  by (auto simp: sound_def create_task_def is_running_def nth_append less_Suc_eq split: option.splits)

lemma sound_done:
  "sound k \<Longrightarrow> k_task k = Some i \<Longrightarrow> sound (k\<lparr>k_tasks := (k_tasks k)[i := Done r], k_task := t\<rparr>) \<and>
     \<not> is_running (k\<lparr>k_tasks := (k_tasks k)[i := Done r], k_task := t\<rparr>)"
  if "t = Some i \<or> t = None"
  using that by (auto simp: sound_def is_running_def nth_list_update split: if_splits)

lemma sound_ended:
  assumes "sound k" "k_task k = Some i"
  shows "sound (k\<lparr>k_tasks := (k_tasks k)[i := Done r]\<rparr>)" "\<not> is_running (k\<lparr>k_tasks := (k_tasks k)[i := Done r]\<rparr>)"
proof -
  have "k\<lparr>k_tasks := (k_tasks k)[i := Done r]\<rparr> = k\<lparr>k_tasks := (k_tasks k)[i := Done r], k_task := Some i\<rparr>"
    using assms(2) by (cases k) simp
  with sound_done [OF _ assms, of "Some i"]
  show "sound (k\<lparr>k_tasks := (k_tasks k)[i := Done r]\<rparr>)" "\<not> is_running (k\<lparr>k_tasks := (k_tasks k)[i := Done r]\<rparr>)"
    by metis+
qed

lemma sound_stop_event [simp]: "sound (k\<lparr>k_stop := b\<rparr>) = sound k" "is_running (k\<lparr>k_stop := b\<rparr>) = is_running k"
  by (simp_all add: sound_def is_running_def split: option.split)

section \<open>The contract\<close>

text \<open>
  \<open>start\<close> keeps the bookkeeping sound, \<open>stop\<close> too, and leaves nothing running even when it
  raises.
\<close>

locale background_task =
  fixes start :: "worker \<Rightarrow> worker" and stop :: "ending \<Rightarrow> worker \<Rightarrow> (exn + unit) \<times> worker"
  assumes start_sound: "sound k \<Longrightarrow> sound (start k)"
    and stop_sound: "sound k \<Longrightarrow> sound (snd (stop e k))"
    and stop_ends: "sound k \<Longrightarrow> \<not> is_running (snd (stop e k))"
begin

lemma op_sound: "sound k \<Longrightarrow> sound (run_op start stop op k)"
proof (cases op)
  case (Ends r)
  moreover assume "sound k"
  ultimately show ?thesis
    by (auto simp: sound_ended split: option.split)
qed (simp_all add: start_sound stop_sound)

lemma history_sound: "sound k \<Longrightarrow> sound (run_calls start stop ops k)"
  unfolding run_calls_def by (induction ops arbitrary: k) (auto simp: op_sound)

lemma at_most_one: "running_tasks (run_calls start stop ops new_worker) \<le> 1"
  using running_one [OF history_sound [OF sound_new]] by simp

lemma stopped: "running_tasks (run_calls start stop (ops @ [Stop e]) new_worker) = 0"
proof -
  let ?k = "run_calls start stop ops new_worker"
  have s: "sound ?k" by (rule history_sound [OF sound_new])
  have "run_calls start stop (ops @ [Stop e]) new_worker = snd (stop e ?k)" by (simp add: run_calls_def)
  with running_one [OF stop_sound [OF s]] stop_ends [OF s] show ?thesis by simp
qed

end

interpretation client: background_task client_start client_stop
proof unfold_locales
  fix k e
  assume k: "sound k"
  then show "sound (client_start k)" by (simp add: client_start_def sound_create)
  have "sound (snd (client_stop e k)) \<and> \<not> is_running (snd (client_stop e k))"
  proof (cases "k_task k")
    case None
    with k show ?thesis by (simp add: client_stop_def is_running_def)
  next
    case (Some i)
    have s: "sound (k\<lparr>k_stop := True\<rparr>)" "k_task (k\<lparr>k_stop := True\<rparr>) = Some i" using k Some by simp_all
    show ?thesis
      using sound_ended [OF s] k Some
      by (auto simp: client_stop_def Let_def is_running_def split: task_state.split option.split)
  qed
  then show "sound (snd (client_stop e k))" "\<not> is_running (snd (client_stop e k))" by blast+
qed

interpretation sweeping: background_task sweeper_start sweeper_stop
proof unfold_locales
  fix k e
  assume k: "sound k"
  then show "sound (sweeper_start k)" by (auto simp: sweeper_start_def is_running_def intro: sound_create [THEN conjunct1])
  have "sound (snd (sweeper_stop e k)) \<and> \<not> is_running (snd (sweeper_stop e k))"
  proof (cases "k_task k")
    case None
    with k show ?thesis by (simp add: sweeper_stop_def is_running_def)
  next
    case (Some i)
    show ?thesis
      using sound_ended [OF k Some] sound_done [OF _ k Some, of None] Some
      by (auto simp: sweeper_stop_def Let_def split: sum.split)
  qed
  then show "sound (snd (sweeper_stop e k))" "\<not> is_running (snd (sweeper_stop e k))" by blast+
qed

section \<open>Properties\<close>

text \<open>
  After any history of starts, stops (whatever they raise) and tasks ending by themselves, a client
  and the sweeper have at most one task running, and none after a stop. A client that is started has
  one; the sweeper has not, when its task died before: \<open>start\<close> then does nothing.
\<close>

theorem one_task_at_most:
  "running_tasks (run_calls client_start client_stop ops new_worker) \<le> 1 \<and>
   running_tasks (run_calls sweeper_start sweeper_stop ops new_worker) \<le> 1 \<and>
   running_tasks (run_calls client_start client_stop (ops @ [Stop e]) new_worker) = 0 \<and>
   running_tasks (run_calls sweeper_start sweeper_stop (ops @ [Stop e]) new_worker) = 0 \<and>
   running_tasks (run_calls client_start client_stop (ops @ [Start]) new_worker) = 1 \<and>
   running_tasks (run_calls sweeper_start sweeper_stop [Start, Ends r, Start] new_worker) = 0"
proof -
  let ?k = "run_calls client_start client_stop ops new_worker"
  have s: "sound ?k" by (rule client.history_sound [OF sound_new])
  then have "is_running (client_start ?k)" by (simp add: client_start_def sound_create)
  with running_one [OF client.start_sound [OF s]]
  have "running_tasks (run_calls client_start client_stop (ops @ [Start]) new_worker) = 1"
    by (simp add: run_calls_def)
  moreover have "running_tasks (run_calls sweeper_start sweeper_stop [Start, Ends r, Start] new_worker) = 0"
    by (simp add: run_calls_def running_tasks_def sweeper_start_def create_task_def new_worker_def)
  ultimately show ?thesis by (simp only: client.at_most_one sweeping.at_most_one client.stopped sweeping.stopped)
qed

end
