(* ===== verification/Processes.thy ===== *)
theory Processes
  imports Config Workers TakSystem
begin

text \<open>
  The two processes from their start to their end: \<open>Service.run\<close> (transport/service.py) with the
  connection of transport/bus.py, \<open>Bridge.run\<close> (tak/bridge.py), the reconnect loops of the bridge and
  its sink, and the commands around them (cli.py, tak/cli.py). What each await yields is up to the
  outside: it returns, raises, or is where the task gets cancelled. Here it matters what is still
  released then; what the parts do in themselves is modelled in the theories before.
\<close>

section \<open>The service process\<close>

datatype await_point = Open_client | Subscribe string | Publish_running | Publish_base | Consume
  | Await_heartbeat | Stop_sweeper | Stop_gpsd | Publish_stopped | Close_client | Drain_tasks

text \<open>
  \<open>sv_script\<close> says how the successive awaits end, \<open>sv_ending\<close> how a worker ends that is told to stop
  there, \<open>sv_log\<close> is what has been awaited. \<open>sv_client\<close> is \<open>MqttBus._client\<close>, \<open>sv_heartbeat\<close> the task of
  the heartbeat once there is one.
\<close>

record service_run =
  sv_script :: "nat \<Rightarrow> exn option"
  sv_ending :: "nat \<Rightarrow> ending"
  sv_tick :: nat
  sv_log :: "(await_point \<times> exn option) list"
  sv_client :: bool
  sv_heartbeat :: "task_state option"
  sv_sweeper :: worker
  sv_gpsd :: "worker option"
  sv_store_open :: bool

definition do_await :: "await_point \<Rightarrow> (service_run, unit) prog" where
  "do_await a = (\<lambda>s.
     (let out = sv_script s (sv_tick s)
      in (awaited out, s\<lparr>sv_tick := Suc (sv_tick s), sv_log := sv_log s @ [(a, out)]\<rparr>)))"

text \<open>An await that raises nothing of its own, but at which the task can be cancelled.\<close>

definition do_await_quietly :: "await_point \<Rightarrow> (service_run, unit) prog" where
  "do_await_quietly a = (\<lambda>s.
     (let out = map_option (\<lambda>_. Cancelled) (sv_script s (sv_tick s))
      in (awaited out, s\<lparr>sv_tick := Suc (sv_tick s), sv_log := sv_log s @ [(a, out)]\<rparr>)))"

text \<open>\<open>MqttBus.connect\<close>\<close>

fun subscribe_all :: "string list \<Rightarrow> (service_run, unit) prog" where
  "subscribe_all [] = ret ()"
| "subscribe_all (t # ts) = andthen (do_await (Subscribe t)) (\<lambda>_. subscribe_all ts)"

definition bus_connect :: "(service_run, unit) prog \<Rightarrow> (service_run, unit) prog" where
  "bus_connect body =
     andthen (do_await Open_client) (\<lambda>_.
     finally_do
       (andthen (modify (\<lambda>s. s\<lparr>sv_client := True\<rparr>)) (\<lambda>_.
        andthen (subscribe_all SUBSCRIPTIONS) (\<lambda>_.
          finally_do body (modify (\<lambda>s. s\<lparr>sv_client := False\<rparr>)))))
       (do_await Close_client))"

definition start_base :: "base_source \<Rightarrow> (service_run, unit) prog" where
  "start_base source = (case source of
      Static \<Rightarrow> do_await Publish_base
    | Gpsd \<Rightarrow> modify (\<lambda>s. s\<lparr>sv_gpsd := Some (client_start new_worker)\<rparr>)
    | Mqtt \<Rightarrow> ret ())"

text \<open>
  \<open>_heartbeat\<close> ends when it is cancelled, and not before: it logs what a tick raises. A cancellation of
  the service itself that arrives while it waits for the heartbeat is swallowed as well.
\<close>

definition end_heartbeat :: "(service_run, unit) prog" where
  "end_heartbeat =
     andthen (modify (\<lambda>s. s\<lparr>sv_heartbeat := Some (Done None)\<rparr>)) (\<lambda>_.
       catch (do_await_quietly Await_heartbeat) (\<lambda>e. if e = Cancelled then ret () else raise e))"

text \<open>Stopping a worker: how it ends is the outside's choice, and the await raises what \<open>stop\<close> raises.\<close>

definition stop_worker ::
  "await_point \<Rightarrow> (service_run \<Rightarrow> (exn + unit) \<times> service_run) \<Rightarrow> (service_run, unit) prog" where
  "stop_worker a f = (\<lambda>s. case f s of (out, s') \<Rightarrow>
     (out, s'\<lparr>sv_tick := Suc (sv_tick s'),
              sv_log := sv_log s' @ [(a, case out of Inl e \<Rightarrow> Some e | Inr _ \<Rightarrow> None)]\<rparr>))"

definition stop_sweeper :: "(service_run, unit) prog" where
  "stop_sweeper = stop_worker Stop_sweeper (\<lambda>s.
     case sweeper_stop (sv_ending s (sv_tick s)) (sv_sweeper s) of (out, k) \<Rightarrow> (out, s\<lparr>sv_sweeper := k\<rparr>))"

definition stop_gpsd :: "(service_run, unit) prog" where
  "stop_gpsd = andthen (gets sv_gpsd) (\<lambda>g. case g of
      None \<Rightarrow> ret ()
    | Some k \<Rightarrow> stop_worker Stop_gpsd (\<lambda>s.
        case client_stop (sv_ending s (sv_tick s)) k of (out, k') \<Rightarrow> (out, s\<lparr>sv_gpsd := Some k'\<rparr>)))"

text \<open>The \<open>finally\<close> of the consume loop.\<close>

definition stop_workers :: "(service_run, unit) prog" where
  "stop_workers =
     andthen end_heartbeat (\<lambda>_.
     andthen stop_sweeper (\<lambda>_.
     andthen stop_gpsd (\<lambda>_.
       catch_exception (do_await Publish_stopped) (ret ()))))"

text \<open>\<open>Service.run\<close>, with \<open>n\<close> request tasks open when it gets to its end.\<close>

definition serve :: "base_source \<Rightarrow> (service_run, unit) prog" where
  "serve source =
     andthen (do_await Publish_running) (\<lambda>_.
     andthen (start_base source) (\<lambda>_.
     andthen (modify (\<lambda>s. s\<lparr>sv_sweeper := sweeper_start (sv_sweeper s)\<rparr>)) (\<lambda>_.
     andthen (modify (\<lambda>s. s\<lparr>sv_heartbeat := Some Running\<rparr>)) (\<lambda>_.
       finally_do (do_await Consume) stop_workers))))"

definition drain_and_close :: "nat \<Rightarrow> (service_run, unit) prog" where
  "drain_and_close n =
     andthen (if n = 0 then ret () else do_await_quietly Drain_tasks) (\<lambda>_.
       modify (\<lambda>s. s\<lparr>sv_store_open := False\<rparr>))"

definition service_life :: "base_source \<Rightarrow> nat \<Rightarrow> (service_run, unit) prog" where
  "service_life source n = finally_do (bus_connect (serve source)) (drain_and_close n)"

definition new_service :: "(nat \<Rightarrow> exn option) \<Rightarrow> (nat \<Rightarrow> ending) \<Rightarrow> service_run" where
  "new_service script endings = \<lparr>sv_script = script, sv_ending = endings, sv_tick = 0, sv_log = [],
     sv_client = False, sv_heartbeat = None, sv_sweeper = new_worker, sv_gpsd = None, sv_store_open = True\<rparr>"

text \<open>
  \<open>run\<close> (cli.py): a signal cancels the task of the service, whose cancellation is then no error;
  without a signal the task's outcome is the command's.
\<close>

definition service_amain :: "bool \<Rightarrow> exn + unit \<Rightarrow> exn + unit" where
  "service_amain signalled out = (if signalled then swallow_cancelled out else out)"

definition run_command ::
  "exn + app_config \<Rightarrow> schema \<Rightarrow> bool \<Rightarrow> nat \<Rightarrow> (nat \<Rightarrow> exn option) \<Rightarrow> (nat \<Rightarrow> ending) \<Rightarrow> ending_of_command" where
  "run_command loaded s signalled n script endings = (case load_config loaded of
      Inl e \<Rightarrow> e
    | Inr cfg \<Rightarrow> (case open_store s of
        (Some e, _) \<Rightarrow> Traceback e
      | (None, _) \<Rightarrow> (case service_init cfg of
          Inl e \<Rightarrow> Traceback e
        | Inr _ \<Rightarrow>
            (case service_amain signalled
                (fst (service_life (bc_source (sc_base (ac_service cfg))) n (new_service script endings))) of
              Inl e \<Rightarrow> Traceback e
            | Inr _ \<Rightarrow> Exit_status 0))))"

section \<open>The bridge process\<close>

text \<open>
  \<open>_mqtt_loop\<close> (tak/bridge.py) as control: how each connection ended, whether the stop event was set by
  then, and how the pause of five seconds after a failure ended. A cancellation is expected where the
  messages are waited for, and not in the pause. \<open>Running\<close>: the loop has not come to its end.
\<close>

datatype connection_end = Messages_over | Failed exn | Loop_cancelled

datatype pause_end = Pause_over | Pause_stopped | Pause_cancelled

record mqtt_round =
  mr_end :: connection_end
  mr_stopped :: bool
  mr_pause :: pause_end

fun mqtt_control :: "bool \<Rightarrow> mqtt_round list \<Rightarrow> task_state" where
  "mqtt_control stopped [] = (if stopped then Done None else Running)"
| "mqtt_control stopped (r # rs) =
     (if stopped then Done None
      else case mr_end r of
          Loop_cancelled \<Rightarrow> Done None
        | Messages_over \<Rightarrow> mqtt_control (mr_stopped r) rs
        | Failed e \<Rightarrow>
            if mr_stopped r then Done None
            else (case mr_pause r of
                Pause_stopped \<Rightarrow> Done None
              | Pause_cancelled \<Rightarrow> Done (Some Cancelled)
              | Pause_over \<Rightarrow> mqtt_control False rs))"

text \<open>\<open>TakSink._run\<close>: the pauses between its sessions, and its end.\<close>

definition SINK_DELAYS :: "real list" where "SINK_DELAYS = [1, 2, 5, 10, 30]"

record sink_round =
  sr_out :: "exn + unit"
  sr_stopped :: bool
  sr_pause :: pause_end

fun sink_run :: "nat \<Rightarrow> sink_round list \<Rightarrow> real list \<times> task_state" where
  "sink_run tries [] = ([], Running)"
| "sink_run tries (r # rs) =
     (if sr_out r = Inl Cancelled then ([], Done None)
      else
        let k = (case sr_out r of Inr _ \<Rightarrow> 0 | Inl _ \<Rightarrow> tries);
            delay = SINK_DELAYS ! min k (length SINK_DELAYS - 1)
        in if sr_stopped r then ([], Done None)
           else (case sr_pause r of
               Pause_stopped \<Rightarrow> ([delay], Done None)
             | Pause_cancelled \<Rightarrow> ([delay], Done (Some Cancelled))
             | Pause_over \<Rightarrow> (case sink_run (Suc k) rs of (ds, t) \<Rightarrow> (delay # ds, t))))"

text \<open>
  \<open>_heartbeat\<close> of the bridge after \<open>n\<close> ticks: only \<open>CancelledError\<close> is expected, so any other exception
  of a tick ends the task with it.
\<close>

fun heartbeat_after :: "tak_cfg \<Rightarrow> nat \<Rightarrow> bridge \<Rightarrow> task_state \<times> bridge" where
  "heartbeat_after cfg 0 b = (Running, b)"
| "heartbeat_after cfg (Suc n) b = (case heartbeat_after cfg n b of
      (Running, b1) \<Rightarrow> (case heartbeat_tick cfg b1 of
          (Inr _, b2) \<Rightarrow> (Running, b2)
        | (Inl e, b2) \<Rightarrow> (Done (if e = Cancelled then None else Some e), b2))
    | (Done r, b1) \<Rightarrow> (Done r, b1))"

record bridge_run =
  bk_sink :: worker
  bk_heartbeat :: task_state

text \<open>
  \<open>Bridge.run\<close>: \<open>looped\<close> is how the loop ends (\<open>mqtt_control\<close>), \<open>beats\<close> what has become of the heartbeat by
  then, \<open>e\<close> how the wait for the sink ends. A cancellation of \<open>run\<close> during the wait for the heartbeat is
  swallowed with the heartbeat's own.
\<close>

definition await_heartbeat :: "(bridge_run, unit) prog" where
  "await_heartbeat =
     andthen (modify (\<lambda>b. case bk_heartbeat b of Running \<Rightarrow> b\<lparr>bk_heartbeat := Done None\<rparr> | Done r \<Rightarrow> b)) (\<lambda>_.
     andthen (gets bk_heartbeat) (\<lambda>t.
       catch (lift (case t of Running \<Rightarrow> Inr () | Done r \<Rightarrow> awaited r))
         (\<lambda>x. if x = Cancelled then ret () else raise x)))"

definition stop_sink :: "ending \<Rightarrow> (bridge_run, unit) prog" where
  "stop_sink e = (\<lambda>b. case tak_sink_stop e (bk_sink b) of (out, k) \<Rightarrow> (out, b\<lparr>bk_sink := k\<rparr>))"

definition bridge_life :: "exn option \<Rightarrow> task_state \<Rightarrow> ending \<Rightarrow> (bridge_run, unit) prog" where
  "bridge_life looped beats e =
     andthen (modify (\<lambda>b. b\<lparr>bk_sink := tak_sink_start (bk_sink b)\<rparr>)) (\<lambda>_.
     andthen (modify (\<lambda>b. b\<lparr>bk_heartbeat := Running\<rparr>)) (\<lambda>_.
       finally_do (andthen (modify (\<lambda>b. b\<lparr>bk_heartbeat := beats\<rparr>)) (\<lambda>_. lift (awaited looped)))
         (andthen await_heartbeat (\<lambda>_. stop_sink e))))"

definition new_bridge_run :: bridge_run where
  "new_bridge_run = \<lparr>bk_sink = new_worker, bk_heartbeat = Done None\<rparr>"

text \<open>
  \<open>main\<close> of tak/cli.py: a signal sets the stop event and gives the bridge five seconds, in which it ends
  by itself, or after which it is cancelled; \<open>task\<close> says how it ends.
\<close>

definition bridge_amain :: "bool \<Rightarrow> exn + unit \<Rightarrow> ending \<Rightarrow> exn + unit" where
  "bridge_amain signalled out task =
     (if signalled then (case in_time task of
          Some r \<Rightarrow> awaited r
        | None \<Rightarrow> swallow_cancelled (awaited (cancelled_with task)))
      else out)"

text \<open>\<open>_load_config\<close> is there once more.\<close>

definition tak_load_config :: "exn + app_config \<Rightarrow> ending_of_command + app_config" where
  "tak_load_config loaded = (case loaded of Inl e \<Rightarrow> Inl (Exit_status 1) | Inr cfg \<Rightarrow> Inr cfg)"

definition raised :: "exn + unit \<Rightarrow> exn option" where
  "raised out = (case out of Inl e \<Rightarrow> Some e | Inr _ \<Rightarrow> None)"

text \<open>
  \<open>prompt\<close>: the bridge ends within the five seconds. What follows the loop is the same when it does not.
\<close>

definition tak_main ::
  "exn + app_config \<Rightarrow> bool \<Rightarrow> bool \<Rightarrow> exn option \<Rightarrow> task_state \<Rightarrow> ending \<Rightarrow> ending_of_command" where
  "tak_main loaded signalled prompt looped beats e = (case tak_load_config loaded of
      Inl e \<Rightarrow> e
    | Inr cfg \<Rightarrow>
        (let out = fst (bridge_life looped beats e new_bridge_run);
             task = \<lparr>in_time = (if prompt then Some (raised out) else None), cancelled_with = raised out\<rparr>
         in case bridge_amain signalled out task of
              Inl e \<Rightarrow> Traceback e
            | Inr _ \<Rightarrow> Exit_status 0))"

section \<open>Logging\<close>

text \<open>
  \<open>_ContextFilter\<close> gives a log record the attributes the format names, and \<open>_configure_logging\<close> sets the
  level and adds a handler to a root logger that has none. The upper-case names of the module \<open>logging\<close>
  are its levels and two values \<open>setLevel\<close> refuses; \<open>upper\<close> is taken on ASCII letters.
\<close>

definition add_missing :: "string \<Rightarrow> pydict \<Rightarrow> pydict" where
  "add_missing k d = (if has_key d k then d else d @ [(k, VStr ''-'')])"

definition context_filter :: "pydict \<Rightarrow> pydict" where
  "context_filter record =
     add_missing ''rpc_type'' (add_missing ''node_id'' (add_missing ''request_id'' record))"

definition upper_char :: "char \<Rightarrow> char" where
  "upper_char c = (let n = of_char c :: nat in if 97 \<le> n \<and> n \<le> 122 then char_of (n - 32) else c)"

definition LEVELS :: "(string \<times> int) list" where
  "LEVELS = [(''CRITICAL'', 50), (''FATAL'', 50), (''ERROR'', 40), (''WARNING'', 30), (''WARN'', 30),
     (''INFO'', 20), (''DEBUG'', 10), (''NOTSET'', 0)]"

record root_logger =
  lg_level :: int
  lg_handlers :: nat
  lg_filtered :: nat

definition set_level :: "string \<Rightarrow> exn + int" where
  "set_level level = (let name = map upper_char level in
     if name = ''BASIC_FORMAT'' then Inl (PyExn ''ValueError'')
     else if name = ''_STYLES'' then Inl (PyExn ''TypeError'')
     else Inr (case map_of LEVELS name of Some n \<Rightarrow> n | None \<Rightarrow> 20))"

definition configure_logging :: "string \<Rightarrow> root_logger \<Rightarrow> exn + root_logger" where
  "configure_logging level logger = ebind (set_level level) (\<lambda>n.
     Inr (if lg_handlers logger = 0 then logger\<lparr>lg_level := n, lg_handlers := 1, lg_filtered := 1\<rparr>
          else logger\<lparr>lg_level := n\<rparr>))"

text \<open>The bridge's has no filter, and its level may come from the command line.\<close>

definition tak_configure_logging :: "string option \<Rightarrow> app_config \<Rightarrow> root_logger \<Rightarrow> exn + root_logger" where
  "tak_configure_logging log_level cfg logger =
     ebind (set_level (case log_level of None \<Rightarrow> sc_log_level (ac_service cfg)
         | Some l \<Rightarrow> if l = [] then sc_log_level (ac_service cfg) else l)) (\<lambda>n.
       Inr (if lg_handlers logger = 0 then logger\<lparr>lg_level := n, lg_handlers := 1\<rparr> else logger\<lparr>lg_level := n\<rparr>))"

section \<open>Pre- and postconditions\<close>

text \<open>From a state with \<open>P\<close>, the outcome and the state after it satisfy \<open>Q\<close>.\<close>

definition triple :: "('w \<Rightarrow> bool) \<Rightarrow> ('w, 'a) prog \<Rightarrow> (exn + 'a \<Rightarrow> 'w \<Rightarrow> bool) \<Rightarrow> bool" where
  "triple P m Q \<longleftrightarrow> (\<forall>w. P w \<longrightarrow> Q (fst (m w)) (snd (m w)))"

lemma tripleD: "triple P m Q \<Longrightarrow> P w \<Longrightarrow> m w = (out, w') \<Longrightarrow> Q out w'"
  by (metis triple_def fst_conv snd_conv)

lemma tripleI: "(\<And>w out w'. P w \<Longrightarrow> m w = (out, w') \<Longrightarrow> Q out w') \<Longrightarrow> triple P m Q"
  by (simp add: triple_def)

lemma triple_conseq: "triple P m Q \<Longrightarrow> (\<And>w. P' w \<Longrightarrow> P w) \<Longrightarrow> (\<And>out w. Q out w \<Longrightarrow> Q' out w) \<Longrightarrow> triple P' m Q'"
  by (simp add: triple_def)

lemma triple_andthen:
  "triple P m R \<Longrightarrow> (\<And>e w. R (Inl e) w \<Longrightarrow> Q (Inl e) w) \<Longrightarrow> (\<And>x. triple (R (Inr x)) (f x) Q) \<Longrightarrow>
     triple P (andthen m f) Q"
  by (rule tripleI) (erule andthenE; blast dest: tripleD)

lemma triple_finally:
  "triple P m R \<Longrightarrow>
     (\<And>out. triple (R out) h (\<lambda>r w. Q (case r of Inl e \<Rightarrow> Inl e | Inr _ \<Rightarrow> out) w)) \<Longrightarrow>
     triple P (finally_do m h) Q"
  unfolding triple_def finally_do_def
  by (auto split: prod.splits sum.splits) (metis fst_conv snd_conv sum.case)+

lemma triple_modify: "(\<And>w. P w \<Longrightarrow> Q (Inr ()) (f w)) \<Longrightarrow> triple P (modify f) Q"
  by (simp add: triple_def)

lemma triple_ret: "(\<And>w. P w \<Longrightarrow> Q (Inr x) w) \<Longrightarrow> triple P (ret x) Q"
  by (simp add: triple_def)

lemmas triple_rules = triple_andthen triple_finally triple_modify triple_ret

section \<open>What is released\<close>

definition attempted :: "await_point \<Rightarrow> service_run \<Rightarrow> bool" where
  "attempted a s \<longleftrightarrow> a \<in> fst ` set (sv_log s)"

definition opened :: "service_run \<Rightarrow> bool" where
  "opened s \<longleftrightarrow> (Open_client, None) \<in> set (sv_log s)"

text \<open>What a run has still to release, apart from the broker's connection.\<close>

definition workers_down :: "service_run \<Rightarrow> bool" where
  "workers_down s \<longleftrightarrow> sv_heartbeat s \<noteq> Some Running \<and> \<not> is_running (sv_sweeper s) \<and>
     (\<forall>k. sv_gpsd s = Some k \<longrightarrow> is_running k \<longrightarrow> (\<exists>e. (Stop_sweeper, Some e) \<in> set (sv_log s)))"

definition workers_up :: "service_run \<Rightarrow> bool" where
  "workers_up s \<longleftrightarrow> sound (sv_sweeper s) \<and> (\<forall>k. sv_gpsd s = Some k \<longrightarrow> sound k)"

lemma do_await_down: "a \<noteq> Stop_sweeper \<Longrightarrow> triple workers_down (do_await a) (\<lambda>_. workers_down)"
  "a \<noteq> Stop_sweeper \<Longrightarrow> triple workers_down (do_await_quietly a) (\<lambda>_. workers_down)"
  by (auto simp: triple_def do_await_def do_await_quietly_def workers_down_def Let_def)

lemma do_await_up: "triple workers_up (do_await a) (\<lambda>_. workers_up)"
  "triple workers_up (do_await_quietly a) (\<lambda>_. workers_up)"
  by (auto simp: triple_def do_await_def do_await_quietly_def workers_up_def Let_def)

lemma end_heartbeat_result:
  "triple workers_up end_heartbeat (\<lambda>out s. out = Inr () \<and> workers_up s \<and> sv_heartbeat s = Some (Done None))"
  by (auto simp: triple_def end_heartbeat_def do_await_quietly_def workers_up_def Let_def awaited_def catch_def
      split: option.split)

lemma stop_sweeper_result:
  "triple (\<lambda>s. workers_up s \<and> sv_heartbeat s = Some (Done None)) stop_sweeper
     (\<lambda>out s. workers_up s \<and> sv_heartbeat s = Some (Done None) \<and> \<not> is_running (sv_sweeper s) \<and>
        (\<forall>e. out = Inl e \<longrightarrow> (Stop_sweeper, Some e) \<in> set (sv_log s)))"
proof (rule tripleI)
  fix s out s'
  assume up: "workers_up s \<and> sv_heartbeat s = Some (Done None)" and run: "stop_sweeper s = (out, s')"
  obtain r k where k: "sweeper_stop (sv_ending s (sv_tick s)) (sv_sweeper s) = (r, k)"
    by (cases "sweeper_stop (sv_ending s (sv_tick s)) (sv_sweeper s)")
  have "sound (sv_sweeper s)" using up by (simp add: workers_up_def)
  from sweeping.stop_sound [OF this] sweeping.stop_ends [OF this] k have "sound k" "\<not> is_running k"
    by (metis snd_conv)+
  with up run k show "workers_up s' \<and> sv_heartbeat s' = Some (Done None) \<and> \<not> is_running (sv_sweeper s') \<and>
        (\<forall>e. out = Inl e \<longrightarrow> (Stop_sweeper, Some e) \<in> set (sv_log s'))"
    by (auto simp: stop_sweeper_def stop_worker_def workers_up_def)
qed

lemma stop_gpsd_result:
  "triple (\<lambda>s. workers_up s \<and> sv_heartbeat s = Some (Done None) \<and> \<not> is_running (sv_sweeper s)) stop_gpsd
     (\<lambda>_. workers_down)"
proof (rule tripleI)
  fix s out s'
  assume up: "workers_up s \<and> sv_heartbeat s = Some (Done None) \<and> \<not> is_running (sv_sweeper s)"
    and run: "stop_gpsd s = (out, s')"
  show "workers_down s'"
  proof (cases "sv_gpsd s")
    case None
    with up run show ?thesis by (auto simp: stop_gpsd_def workers_down_def)
  next
    case (Some g)
    obtain r k where k: "client_stop (sv_ending s (sv_tick s)) g = (r, k)"
      by (cases "client_stop (sv_ending s (sv_tick s)) g")
    have "sound g" using up Some by (simp add: workers_up_def)
    from client.stop_ends [OF this] k have "\<not> is_running k" by (metis snd_conv)
    with up run k Some show ?thesis by (auto simp: stop_gpsd_def stop_worker_def workers_down_def)
  qed
qed

lemma stop_workers_result: "triple workers_up stop_workers (\<lambda>_. workers_down)"
proof -
  let ?up = "\<lambda>s. workers_up s \<and> sv_heartbeat s = Some (Done None)"
  have last: "triple workers_down (catch_exception (do_await Publish_stopped) (ret ())) (\<lambda>_. workers_down)"
    using do_await_down(1) [of Publish_stopped]
    by (auto simp: triple_def catch_exception_def catch_def split: prod.splits sum.splits)
  have tail: "triple (\<lambda>s. ?up s \<and> \<not> is_running (sv_sweeper s))
      (andthen stop_gpsd (\<lambda>_. catch_exception (do_await Publish_stopped) (ret ()))) (\<lambda>_. workers_down)"
    by (rule triple_andthen [OF triple_conseq [OF stop_gpsd_result] _ last]) simp_all
  have "triple ?up (andthen stop_sweeper (\<lambda>_.
      andthen stop_gpsd (\<lambda>_. catch_exception (do_await Publish_stopped) (ret ())))) (\<lambda>_. workers_down)"
  proof (rule triple_andthen [OF stop_sweeper_result])
    show "triple (\<lambda>s. workers_up s \<and> sv_heartbeat s = Some (Done None) \<and> \<not> is_running (sv_sweeper s) \<and>
        (\<forall>e. Inr x = Inl e \<longrightarrow> (Stop_sweeper, Some e) \<in> set (sv_log s)))
      (andthen stop_gpsd (\<lambda>_. catch_exception (do_await Publish_stopped) (ret ()))) (\<lambda>_. workers_down)" for x
      by (rule triple_conseq [OF tail]) simp_all
  qed (auto simp: workers_down_def)
  then have "triple (\<lambda>s. Inr x = (Inr () :: exn + unit) \<and> ?up s) (andthen stop_sweeper (\<lambda>_.
      andthen stop_gpsd (\<lambda>_. catch_exception (do_await Publish_stopped) (ret ())))) (\<lambda>_. workers_down)" for x
    by (rule triple_conseq) simp_all
  from triple_andthen [OF end_heartbeat_result _ this] show ?thesis
    unfolding stop_workers_def by simp
qed

text \<open>Inside the connection: the workers are started and all stopped again.\<close>

definition untouched :: "service_run \<Rightarrow> bool" where
  "untouched s \<longleftrightarrow> sv_heartbeat s = None \<and> sv_sweeper s = new_worker \<and> sv_gpsd s = None"

lemma untouched_down: "untouched s \<Longrightarrow> workers_down s" "untouched s \<Longrightarrow> workers_up s"
  by (simp add: untouched_def workers_down_def is_running_def new_worker_def)
    (simp add: untouched_def workers_up_def sound_new)

lemma do_await_untouched: "triple untouched (do_await a) (\<lambda>_. untouched)"
  by (auto simp: triple_def do_await_def untouched_def Let_def)

lemma sound_started: "sound k \<Longrightarrow> sound (sweeper_start k)" "sound (client_start new_worker)"
  by (rule sweeping.start_sound, assumption, rule client.start_sound, rule sound_new)

lemma serve_result: "triple untouched (serve source) (\<lambda>_. workers_down)"
  unfolding serve_def
proof (rule triple_andthen [OF do_await_untouched])
  have base: "triple untouched (start_base source) (\<lambda>out s. (\<forall>e. out = Inl e \<longrightarrow> untouched s) \<and>
      sv_heartbeat s = None \<and> sv_sweeper s = new_worker \<and> (\<forall>k. sv_gpsd s = Some k \<longrightarrow> sound k))"
    by (cases source) (auto simp: triple_def start_base_def untouched_def do_await_def Let_def sound_started)
  have rest: "triple workers_up (finally_do (do_await Consume) stop_workers) (\<lambda>_. workers_down)"
    by (rule triple_finally [OF do_await_up(1)]) (rule triple_conseq [OF stop_workers_result]; simp)
  show "triple (untouched) (andthen (start_base source) (\<lambda>_.
     andthen (modify (\<lambda>s. s\<lparr>sv_sweeper := sweeper_start (sv_sweeper s)\<rparr>)) (\<lambda>_.
     andthen (modify (\<lambda>s. s\<lparr>sv_heartbeat := Some Running\<rparr>)) (\<lambda>_.
       finally_do (do_await Consume) stop_workers)))) (\<lambda>_. workers_down)"
  proof (rule triple_andthen [OF base])
    fix x :: unit
    show "triple (\<lambda>s. (\<forall>e. Inr x = Inl e \<longrightarrow> untouched s) \<and> sv_heartbeat s = None \<and> sv_sweeper s = new_worker \<and>
        (\<forall>k. sv_gpsd s = Some k \<longrightarrow> sound k))
      (andthen (modify (\<lambda>s. s\<lparr>sv_sweeper := sweeper_start (sv_sweeper s)\<rparr>)) (\<lambda>_.
       andthen (modify (\<lambda>s. s\<lparr>sv_heartbeat := Some Running\<rparr>)) (\<lambda>_.
         finally_do (do_await Consume) stop_workers))) (\<lambda>_. workers_down)"
      using rest sound_started(1) [OF sound_new]
      by (auto simp: triple_def workers_up_def)
  qed (auto intro: untouched_down)
qed (auto intro: untouched_down)

text \<open>The connection is closed when it has been opened, and nothing else is touched by that.\<close>

lemma log_grows:
  "do_await a s = (out, s') \<Longrightarrow> set (sv_log s) \<subseteq> set (sv_log s')"
  "do_await_quietly a s = (out, s') \<Longrightarrow> set (sv_log s) \<subseteq> set (sv_log s')"
  by (auto simp: do_await_def do_await_quietly_def Let_def)

lemma subscribe_untouched: "triple untouched (subscribe_all ts) (\<lambda>_. untouched)"
proof (induction ts)
  case Nil
  show ?case unfolding subscribe_all.simps by (rule triple_ret)
next
  case (Cons t ts)
  show ?case unfolding subscribe_all.simps
    by (rule triple_andthen [OF do_await_untouched _ Cons.IH])
qed

lemma connect_result:
  assumes "triple untouched body (\<lambda>_. workers_down)"
  shows "triple untouched (bus_connect body) (\<lambda>_. workers_down)"
proof -
  have inner: "triple untouched (finally_do body (modify (\<lambda>s. s\<lparr>sv_client := False\<rparr>))) (\<lambda>_. workers_down)"
    by (rule triple_finally [OF assms]) (rule triple_modify, simp add: workers_down_def)
  have "triple untouched (andthen (modify (\<lambda>s. s\<lparr>sv_client := True\<rparr>)) (\<lambda>_.
      andthen (subscribe_all SUBSCRIPTIONS) (\<lambda>_. finally_do body (modify (\<lambda>s. s\<lparr>sv_client := False\<rparr>)))))
      (\<lambda>_. workers_down)"
  proof (rule triple_andthen [where R = "\<lambda>_. untouched"])
    show "triple untouched (andthen (subscribe_all SUBSCRIPTIONS)
        (\<lambda>_. finally_do body (modify (\<lambda>s. s\<lparr>sv_client := False\<rparr>)))) (\<lambda>_. workers_down)"
      by (rule triple_andthen [OF subscribe_untouched _ inner]) (rule untouched_down)
  qed (auto intro: untouched_down triple_modify simp: untouched_def)
  from triple_finally [OF this, of "do_await Close_client" "\<lambda>_. workers_down"]
  have "triple untouched (finally_do (andthen (modify (\<lambda>s. s\<lparr>sv_client := True\<rparr>)) (\<lambda>_.
      andthen (subscribe_all SUBSCRIPTIONS) (\<lambda>_. finally_do body (modify (\<lambda>s. s\<lparr>sv_client := False\<rparr>)))))
      (do_await Close_client)) (\<lambda>_. workers_down)"
    using do_await_down(1) [of Close_client] by (simp add: await_point.distinct)
  then show ?thesis
    unfolding bus_connect_def
    by (rule triple_andthen [OF do_await_untouched, rotated]) (rule untouched_down)
qed

text \<open>A client that was opened is closed, whatever happens in between.\<close>

definition client_settled :: "service_run \<Rightarrow> bool" where
  "client_settled s \<longleftrightarrow> (opened s \<longrightarrow> attempted Close_client s)"

lemma connect_settles: "triple (\<lambda>s. \<not> opened s) (bus_connect body) (\<lambda>_. client_settled)"
proof (rule tripleI)
  fix s out s'
  assume s: "\<not> opened s" and run: "bus_connect body s = (out, s')"
  obtain r v where v: "do_await Open_client s = (r, v)" by (cases "do_await Open_client s")
  show "client_settled s'"
  proof (cases r)
    case (Inl e)
    with s v run show ?thesis
      by (auto simp: bus_connect_def andthen_def client_settled_def opened_def do_await_def Let_def awaited_def
          split: option.splits)
  next
    case (Inr u)
    with v run have "finally_do (andthen (modify (\<lambda>s. s\<lparr>sv_client := True\<rparr>)) (\<lambda>_.
      andthen (subscribe_all SUBSCRIPTIONS) (\<lambda>_. finally_do body (modify (\<lambda>s. s\<lparr>sv_client := False\<rparr>)))))
      (do_await Close_client) v = (out, s')"
      by (simp add: bus_connect_def andthen_def)
    then show ?thesis
      by (auto simp: finally_do_def client_settled_def attempted_def do_await_def Let_def image_iff
          split: prod.splits sum.splits)
  qed
qed

lemma drain_result:
  "triple (\<lambda>s. workers_down s \<and> client_settled s) (drain_and_close n)
     (\<lambda>_ s. workers_down s \<and> client_settled s \<and>
        (sv_store_open s \<longrightarrow> (Drain_tasks, Some Cancelled) \<in> set (sv_log s)))"
  by (auto simp: triple_def drain_and_close_def andthen_def do_await_quietly_def Let_def workers_down_def
      client_settled_def opened_def attempted_def awaited_def split: option.split)

section \<open>Properties\<close>

text \<open>
  C27. However \<open>Service.run\<close> ends, at whichever await something is raised or the process is told to stop:
  the broker connection it opened has been closed, the heartbeat, the sweeper and the GPSD client do not
  run any more (the GPSD client unless stopping the sweeper raised), and the database is closed, unless
  a further cancellation hits the wait for the open requests.
\<close>

theorem service_run_cleans_up:
  assumes "service_life source n (new_service script endings) = (out, s)"
  shows "((Open_client, None) \<in> set (sv_log s) \<longrightarrow> (\<exists>r. (Close_client, r) \<in> set (sv_log s))) \<and>
     sv_heartbeat s \<noteq> Some Running \<and> \<not> is_running (sv_sweeper s) \<and>
     (\<forall>k. sv_gpsd s = Some k \<longrightarrow> is_running k \<longrightarrow> (\<exists>e. (Stop_sweeper, Some e) \<in> set (sv_log s))) \<and>
     (sv_store_open s \<longrightarrow> (Drain_tasks, Some Cancelled) \<in> set (sv_log s))"
proof -
  have "triple (\<lambda>s. untouched s \<and> \<not> opened s) (bus_connect (serve source)) (\<lambda>_ s. workers_down s \<and> client_settled s)"
    using connect_result [OF serve_result [of source]] connect_settles [of "serve source"]
    by (auto simp: triple_def)
  then have "triple (\<lambda>s. untouched s \<and> \<not> opened s) (service_life source n)
      (\<lambda>_ s. workers_down s \<and> client_settled s \<and> (sv_store_open s \<longrightarrow> (Drain_tasks, Some Cancelled) \<in> set (sv_log s)))"
    unfolding service_life_def by (rule triple_finally) (rule drain_result)
  from tripleD [OF this _ assms] have "workers_down s" "client_settled s"
      "sv_store_open s \<longrightarrow> (Drain_tasks, Some Cancelled) \<in> set (sv_log s)"
    by (auto simp: new_service_def untouched_def opened_def)
  then show ?thesis
    by (auto simp: workers_down_def client_settled_def opened_def attempted_def image_iff)
qed

text \<open>A service with a static base location that is told to stop while it waits for messages.\<close>

definition stopped_script :: "nat \<Rightarrow> exn option" where
  "stopped_script k = (if k = 9 then Some Cancelled else None)"

definition obedient :: "nat \<Rightarrow> ending" where
  "obedient k = \<lparr>in_time = Some None, cancelled_with = Some Cancelled\<rparr>"

lemma stopped_service:
  "(case service_life Static 1 (new_service stopped_script obedient) of (out, s) \<Rightarrow>
     out = Inl Cancelled \<and> map fst (sv_log s) =
       [Open_client] @ map Subscribe SUBSCRIPTIONS @ [Publish_running, Publish_base, Consume, Await_heartbeat,
        Stop_sweeper, Publish_stopped, Close_client, Drain_tasks] \<and> \<not> sv_store_open s \<and>
     (Open_client, None) \<in> set (sv_log s))"
  by code_simp

theorem service_run_cleans_up_witness:
  "\<exists>out s. service_life Static 1 (new_service stopped_script obedient) = (out, s) \<and> out = Inl Cancelled \<and>
     (\<exists>r. (Close_client, r) \<in> set (sv_log s)) \<and> \<not> is_running (sv_sweeper s) \<and> \<not> sv_store_open s"
proof -
  obtain out s where run: "service_life Static 1 (new_service stopped_script obedient) = (out, s)"
    by (cases "service_life Static 1 (new_service stopped_script obedient)")
  with service_run_cleans_up [OF run] stopped_service show ?thesis by auto
qed

lemma heartbeat_dies:
  "heartbeat_after cfg n b = (Done r, b') \<Longrightarrow>
     \<exists>m < n. \<exists>b1 x b2. heartbeat_after cfg m b = (Running, b1) \<and> heartbeat_tick cfg b1 = (Inl x, b2) \<and>
       r = (if x = Cancelled then None else Some x)"
proof (induction n arbitrary: r b')
  case (Suc n)
  obtain t b1 where t: "heartbeat_after cfg n b = (t, b1)" by (cases "heartbeat_after cfg n b")
  show ?case
  proof (cases t)
    case Running
    with Suc.prems t obtain x b2 where "heartbeat_tick cfg b1 = (Inl x, b2)" "r = (if x = Cancelled then None else Some x)"
      by (auto split: prod.splits sum.splits)
    with t Running show ?thesis by blast
  next
    case (Done r')
    with Suc.prems t have "heartbeat_after cfg n b = (Done r, b')" by simp
    from Suc.IH [OF this] show ?thesis using less_SucI by blast
  qed
qed simp

text \<open>How \<open>run\<close> ends once the sink has been stopped.\<close>

definition after_sink :: "exn option \<Rightarrow> ending \<Rightarrow> exn + unit" where
  "after_sink looped e = (case (case in_time e of
        Some r \<Rightarrow> awaited r | None \<Rightarrow> swallow_cancelled (awaited (cancelled_with e))) of
      Inl x \<Rightarrow> Inl x
    | Inr _ \<Rightarrow> awaited looped)"

lemma bridge_life_result:
  assumes "bridge_life looped beats e new_bridge_run = (out, k)"
  shows "case beats of
      Done (Some x) \<Rightarrow> x \<noteq> Cancelled \<longrightarrow> out = Inl x \<and> is_running (bk_sink k)
    | _ \<Rightarrow> \<not> is_running (bk_sink k) \<and> out = after_sink looped e"
proof -
  define sink where "sink = \<lparr>k_tasks = [Running], k_task = Some 0, k_stop = False\<rparr>"
  have start: "tak_sink_start new_worker = sink"
    by (simp add: sink_def tak_sink_start_def client_start_def create_task_def new_worker_def is_running_def)
  have life: "bridge_life looped beats e new_bridge_run =
      finally_do (andthen (modify (\<lambda>b. b\<lparr>bk_heartbeat := beats\<rparr>)) (\<lambda>_. lift (awaited looped)))
        (andthen await_heartbeat (\<lambda>_. stop_sink e)) \<lparr>bk_sink = sink, bk_heartbeat = Running\<rparr>"
    by (simp add: bridge_life_def new_bridge_run_def start)
  obtain r k' where stop: "tak_sink_stop e sink = (r, k')" by (cases "tak_sink_stop e sink")
  then have k': "\<not> is_running k'" "r = (case in_time e of
        Some r \<Rightarrow> awaited r | None \<Rightarrow> swallow_cancelled (awaited (cancelled_with e)))"
    by (cases "in_time e"; auto simp: sink_def tak_sink_stop_def client_stop_def is_running_def Let_def)+
  have running: "is_running sink" by (simp add: sink_def is_running_def)
  have loop: "andthen (modify (\<lambda>b. b\<lparr>bk_heartbeat := beats\<rparr>)) (\<lambda>_. lift (awaited looped))
      \<lparr>bk_sink = sink, bk_heartbeat = Running\<rparr> = (awaited looped, \<lparr>bk_sink = sink, bk_heartbeat = beats\<rparr>)"
    by (simp add: andthen_def)
  show ?thesis
  proof (cases "\<exists>x. beats = Done (Some x)")
    case True
    then obtain x where x: "beats = Done (Some x)" by blast
    have "out = Inl x \<and> is_running (bk_sink k)" if "x \<noteq> Cancelled"
    proof -
      have "andthen await_heartbeat (\<lambda>_. stop_sink e) \<lparr>bk_sink = sink, bk_heartbeat = beats\<rparr> =
          (Inl x, \<lparr>bk_sink = sink, bk_heartbeat = beats\<rparr>)"
        using that by (simp add: x andthen_def await_heartbeat_def awaited_def catch_def)
      with assms running show ?thesis by (auto simp: life finally_do_def loop)
    qed
    with x show ?thesis by simp
  next
    case False
    then have "andthen await_heartbeat (\<lambda>_. stop_sink e) \<lparr>bk_sink = sink, bk_heartbeat = beats\<rparr> =
        (r, \<lparr>bk_sink = k', bk_heartbeat = Done None\<rparr>)"
      by (cases beats) (auto simp: andthen_def await_heartbeat_def awaited_def catch_def stop_sink_def stop)
    with assms k'(2) have "out = after_sink looped e" "bk_sink k = k'"
      by (auto simp: life finally_do_def loop after_sink_def split: sum.splits)
    with k' False show ?thesis by (auto split: task_state.split option.split)
  qed
qed

text \<open>
  C28. The bridge's process at its end: its sink is stopped and \<open>run\<close> ends as the sink does, unless a tick of
  the heartbeat has raised before (a record it cannot publish suffices). Then \<open>run\<close> ends with that
  exception, which nobody has seen until then, and leaves the sink running.
\<close>

theorem bridge_run_ends:
  "case bridge_life looped (fst (heartbeat_after cfg n b)) e new_bridge_run of (out, k) \<Rightarrow>
     (case fst (heartbeat_after cfg n b) of
        Done (Some x) \<Rightarrow> out = Inl x \<and> is_running (bk_sink k) \<and>
          (\<exists>m < n. \<exists>b1 b2. heartbeat_after cfg m b = (Running, b1) \<and> heartbeat_tick cfg b1 = (Inl x, b2))
      | _ \<Rightarrow> \<not> is_running (bk_sink k) \<and> out = after_sink looped e)"
proof -
  obtain beats b' where beats: "heartbeat_after cfg n b = (beats, b')" by (cases "heartbeat_after cfg n b")
  obtain out k where run: "bridge_life looped beats e new_bridge_run = (out, k)"
    by (cases "bridge_life looped beats e new_bridge_run")
  show ?thesis
  proof (cases "\<exists>x. beats = Done (Some x)")
    case True
    then obtain x where x: "beats = Done (Some x)" by blast
    with heartbeat_dies [of cfg n b "Some x"] beats obtain m b1 y b2 where
        m: "m < n" "heartbeat_after cfg m b = (Running, b1)" "heartbeat_tick cfg b1 = (Inl y, b2)"
          "Some x = (if y = Cancelled then None else Some y)"
      by blast
    then have y: "y = x" "x \<noteq> Cancelled" by (auto split: if_splits)
    with bridge_life_result [OF run] x have "out = Inl x \<and> is_running (bk_sink k)" by simp
    with m y x run beats show ?thesis by (simp del: heartbeat_after.simps) blast
  next
    case False
    then have "beats = Running \<or> beats = Done None" by (cases beats) auto
    with bridge_life_result [OF run] run beats show ?thesis by (elim disjE; simp del: heartbeat_after.simps)
  qed
qed

text \<open>A node whose time stamp is beyond the year 9999, and a bridge that does not evict.\<close>

definition late_record :: bridge where
  "late_record = (fresh_bridge (\<lambda>i. 1700000000))\<lparr>br_state :=
     [(''n1'', [(''lat'', VInt 28), (''lon'', VInt 1), (''ts'', VInt 253402300800)])]\<rparr>"

definition plain_cfg :: tak_cfg where
  "plain_cfg = \<lparr>t_callsign = (\<lambda>n. Inr (''MC-'' @ n)), t_field_type = ''a-f-G-U-C'', t_base_type = ''a-f-G-U-C-I'',
     t_stale_after = 300, t_remove_after = 0\<rparr>"

lemma late_record_ends_heartbeat:
  "fst (heartbeat_after plain_cfg (Suc 0) late_record) = Done (Some (PyExn ''ValueError''))"
proof -
  have "utc_micros (VInt 253402300800) = Inl (PyExn ''ValueError'')"
    using round_even_bounds [of 253402300800000000] by (auto simp: utc_micros_def datetime_ok_def Let_def)
  then show ?thesis
    by (simp add: heartbeat_tick_def evict_long_offline_def republish_all_def publish_one_def plain_cfg_def
        late_record_def fresh_bridge_def andthen_def has_position_def callsign_for_def BASE_KEY_def event_time_def)
qed

theorem bridge_run_ends_witness:
  "case bridge_life None (fst (heartbeat_after plain_cfg (Suc 0) late_record)) (obedient 0) new_bridge_run of (out, k) \<Rightarrow>
     out = Inl (PyExn ''ValueError'') \<and> is_running (bk_sink k)"
  using bridge_run_ends [where looped = None and cfg = plain_cfg and n = "Suc 0" and b = late_record and e = "obedient 0"] late_record_ends_heartbeat
  by (auto simp del: heartbeat_after.simps split: prod.splits)

text \<open>Both loops: the MQTT loop cannot end but by the stop event or a cancellation.\<close>

lemma mqtt_control_returns:
  "mqtt_control False rs = Done t \<Longrightarrow>
     \<exists>r \<in> set rs. mr_end r = Loop_cancelled \<or> mr_stopped r \<or> mr_pause r \<noteq> Pause_over"
proof (induction rs)
  case (Cons r rs)
  show ?case
  proof (cases "mr_stopped r")
    case False
    with Cons show ?thesis by (auto split: connection_end.splits pause_end.splits)
  qed simp
qed simp

text \<open>The sink's loop waits as the GPSD client's does.\<close>

lemma sink_run_is_backoff:
  "list_all (\<lambda>r. sr_pause r = Pause_over) rs \<Longrightarrow>
     fst (sink_run k rs) = backoff k (map (\<lambda>r. (sr_out r, sr_stopped r)) rs)"
proof (induction rs arbitrary: k)
  case (Cons r rs)
  let ?k = "case sr_out r of Inr _ \<Rightarrow> 0 | Inl _ \<Rightarrow> k"
  have delay: "SINK_DELAYS ! min j (length SINK_DELAYS - 1) = reconnect_delay j" for j
    by (simp add: reconnect_delay_def RECONNECT_DELAYS_def SINK_DELAYS_def)
  from Cons have rest: "fst (sink_run (Suc ?k) rs) = backoff (Suc ?k) (map (\<lambda>r. (sr_out r, sr_stopped r)) rs)"
    and pause: "sr_pause r = Pause_over"
    by simp_all
  have "fst (sink_run k (r # rs)) = (if sr_stopped r \<or> sr_out r = Inl Cancelled then []
      else reconnect_delay ?k # fst (sink_run (Suc ?k) rs))"
  proof (cases "sink_run (Suc ?k) rs")
    case (Pair ds t)
    with pause show ?thesis
      by (cases "sr_out r = Inl Cancelled"; cases "sr_stopped r") (simp_all add: Let_def delay [simplified])
  qed
  then show ?case unfolding rest by (simp only: list.map backoff.simps Let_def)
qed simp

section \<open>Logging\<close>

lemma add_missing_has: "has_key (add_missing k d) j \<longleftrightarrow> j = k \<or> has_key d j"
  by (auto simp: add_missing_def has_key_def map_add_def split: option.split)

lemma add_missing_get: "dget (add_missing k d) j = (if j = k \<and> \<not> has_key d k then VStr ''-'' else dget d j)"
  by (auto simp: add_missing_def has_key_def dget_def map_add_def split: option.split)

lemma context_filter_complete:
  "k \<in> {''request_id'', ''node_id'', ''rpc_type''} \<Longrightarrow>
     has_key (context_filter d) k \<and> dget (context_filter d) k = (if has_key d k then dget d k else VStr ''-'')"
  by (auto simp: context_filter_def add_missing_has add_missing_get)

lemma configure_twice:
  "configure_logging level logger = Inr r1 \<Longrightarrow> configure_logging level' r1 = Inr r2 \<Longrightarrow>
     lg_handlers r2 = lg_handlers r1 \<and> 0 < lg_handlers r2"
  by (auto simp: configure_logging_def ebind_Inr_iff)

end
