(* ===== verification/Scripts.thy ===== *)
theory Scripts
  imports ServiceProps
begin

text \<open>
  scripts/send_request.py and scripts/seed_gateway_status.py: the two scripts for the bench, which share
  no code with the service, and what the service makes of what they publish.
\<close>

section \<open>send_request.py\<close>

definition SCRIPT_REQUEST_TOPIC :: string where "SCRIPT_REQUEST_TOPIC = ''mc/rpc/req''"

definition SCRIPT_RESPONSE_PREFIX :: string where "SCRIPT_RESPONSE_PREFIX = ''mc/rpc/resp''"

text \<open>The options that matter here; \<open>so_args\<close> is what \<open>json.loads\<close> makes of \<open>--args\<close>.\<close>

record script_opts =
  so_type :: string
  so_from :: string
  so_id :: "string option"
  so_ttl :: int
  so_args :: payload

text \<open>\<open>fresh\<close> are the first eight digits of a UUID.\<close>

definition script_id :: "script_opts \<Rightarrow> string \<Rightarrow> string" where
  "script_id opts fresh = (case so_id opts of None \<Rightarrow> fresh | Some i \<Rightarrow> if i = [] then fresh else i)"

definition script_request :: "script_opts \<Rightarrow> string \<Rightarrow> pyval \<Rightarrow> pyval" where
  "script_request opts fresh args = VDict
     [(''v'', VInt 1), (''id'', VStr (script_id opts fresh)), (''type'', VStr (so_type opts)),
      (''from'', VStr (so_from opts)), (''ttl'', VInt (so_ttl opts)), (''args'', args)]"

definition script_response_topic :: "script_opts \<Rightarrow> string" where
  "script_response_topic opts = SCRIPT_RESPONSE_PREFIX @ ''/'' @ so_from opts"

text \<open>\<open>on_message\<close>: the body when it carries the id; an exception ends the client's thread.\<close>

definition on_message :: "string \<Rightarrow> payload \<Rightarrow> exn + pyval option" where
  "on_message req_id payload = (case payload of
      Inl e \<Rightarrow> if e = JSONDecodeError then Inr None else Inl e
    | Inr (VDict d) \<Rightarrow> Inr (if dget d ''id'' = VStr req_id then Some (VDict d) else None)
    | Inr _ \<Rightarrow> Inl (PyExn ''AttributeError''))"

text \<open>The messages of the subscription up to the first that counts, after which it disconnects.\<close>

fun script_listen :: "string \<Rightarrow> payload list \<Rightarrow> pyval option" where
  "script_listen req_id [] = None"
| "script_listen req_id (p # ps) = (case on_message req_id p of
      Inl e \<Rightarrow> None
    | Inr None \<Rightarrow> script_listen req_id ps
    | Inr (Some body) \<Rightarrow> Some body)"

text \<open>
  \<open>main\<close> with the messages that arrive before the deadline: the exit status, or the exception of the
  parsing that it does not catch, and what it has published.
\<close>

definition send_request_main :: "script_opts \<Rightarrow> string \<Rightarrow> payload list \<Rightarrow> (exn + int) \<times> (string \<times> pyval) list" where
  "send_request_main opts fresh delivered = (case so_args opts of
      Inl e \<Rightarrow> (if e = JSONDecodeError then Inr 2 else Inl e, [])
    | Inr args \<Rightarrow>
        (Inr (if script_listen (script_id opts fresh) delivered = None then 1 else 0),
         [(SCRIPT_REQUEST_TOPIC, script_request opts fresh args)]))"

section \<open>seed_gateway_status.py\<close>

definition SEED_STATES :: "string list" where
  "SEED_STATES = [''connected'', ''disconnected'', ''error'', ''unknown'']"

definition seed_payload :: "string \<Rightarrow> string option \<Rightarrow> real \<Rightarrow> pyval" where
  "seed_payload state detail now = VDict
     [(''state'', VStr state), (''detail'', of_opt VStr detail), (''ts'', fin_ts now), (''since'', fin_ts now)]"

text \<open>\<open>main\<close>: the choice of the state is checked by the argument parser, which exits with 2.\<close>

definition seed_main :: "string \<Rightarrow> string option \<Rightarrow> real \<Rightarrow> int \<times> (string \<times> pyval \<times> bool) list" where
  "seed_main state detail now =
     (if state \<notin> set SEED_STATES then (2, []) else (0, [(''mc/gateway/status'', seed_payload state detail now, True)]))"

section \<open>Lemmas\<close>

text \<open>The copies of the topics are those of the contract.\<close>

lemma script_topics:
  "SCRIPT_REQUEST_TOPIC = RPC_REQUEST" "SCRIPT_RESPONSE_PREFIX = RPC_RESPONSE_PREFIX"
  by (simp_all add: SCRIPT_REQUEST_TOPIC_def SCRIPT_RESPONSE_PREFIX_def topic_defs)

text \<open>With a dict of arguments the script writes a request as the service's own model would.\<close>

definition requested :: "script_opts \<Rightarrow> string \<Rightarrow> pydict \<Rightarrow> request" where
  "requested opts fresh a = \<lparr>q_v = 1, q_id = script_id opts fresh, q_type = so_type opts, q_from = so_from opts,
     q_ttl = Some (so_ttl opts), q_args = a\<rparr>"

lemma script_request_dump: "script_request opts fresh (VDict a) = request_dump (requested opts fresh a)"
  by (simp add: script_request_def request_dump_def requested_def)

lemma listen_response: "p_id p = i \<Longrightarrow> script_listen i (Inr (response_json p) # ps) = Some (response_json p)"
  by (simp add: on_message_def response_json_def dget_def)

lemma listen_others:
  "list_all (\<lambda>q. p_id q \<noteq> i) qs \<Longrightarrow> script_listen i (map (Inr \<circ> response_json) qs @ ps) = script_listen i ps"
  by (induction qs) (simp_all add: on_message_def response_json_def dget_def)

text \<open>Whatever becomes of a request, the response carries its id, type and sender.\<close>

lemma reply_answers:
  assumes "outcome_of DEFAULT_HANDLERS r ttl out"
  shows "p_id (reply_to ttl r out) = q_id r \<and> p_to (reply_to ttl r out) = q_from r"
proof (cases "\<exists>p. out = Some (Inr p)")
  case True
  then obtain p where p: "out = Some (Inr p)" by blast
  with assms obtain h v v' where h: "resolve DEFAULT_HANDLERS (q_type r) = Some h"
      and run: "run_with_timeout (h r) ttl v = (Inr p, v')"
    by (auto simp: outcome_of_def split: option.splits)
  from yieldsD [OF timeout_yields [OF resolve_default [OF h]] run] have "answers r p" .
  then show ?thesis by (simp add: p reply_to_def error_of_def answers_def)
next
  case False
  then show ?thesis
    by (auto simp: reply_to_def split: option.split sum.split)
qed

section \<open>Properties\<close>

text \<open>
  C29. The script and the service fit together: a request the script writes, with arguments that are an
  object and within the limits of the schema, is carried out by a service whose database and broker
  work, and the one response goes to the topic the script has subscribed to and carries the id it waits
  for, so that the script finds it behind responses to other requests of that node and exits with 0.
\<close>

theorem script_gets_its_answer:
  assumes "healthy w" "live w" "\<And>n. h_lax_int (w_host w) (VInt n) = Some n"
    and "so_args opts = Inr (VDict a)" "well_formed_request (requested opts fresh a)"
    and "\<not> has_request (w_db w) (so_from opts) (script_id opts fresh)"
    and "fits64 (resolve_ttl policy (so_type opts) (Some (so_ttl opts)))"
    and "list_all (\<lambda>q. p_id q \<noteq> script_id opts fresh) others"
  shows "\<exists>t payload w' p. snd (send_request_main opts fresh []) = [(t, payload)] \<and>
     handle_one policy t (Inr payload) w = (Inr (), w') \<and> responses w' = responses w @ [response_message p] \<and>
     msg_topic (response_message p) = script_response_topic opts \<and>
     fst (send_request_main opts fresh (map (Inr \<circ> response_json) others @ [Inr (msg_payload (response_message p))]))
       = Inr 0"
proof -
  let ?r = "requested opts fresh a"
  have fields: "q_from ?r = so_from opts" "q_id ?r = script_id opts fresh" "q_type ?r = so_type opts"
      "q_ttl ?r = Some (so_ttl opts)"
    by (simp_all add: requested_def)
  have named: "q_from ?r \<noteq> []" using assms(5) by (auto simp: well_formed_request_def)
  from dflt.process_fresh [OF assms(1) named _ _ refl, of policy] assms(2,6,7) obtain w' out where
      run: "process_request DEFAULT_HANDLERS service_emit policy ?r w = (Inr (), w')"
      and out: "outcome_of DEFAULT_HANDLERS ?r (resolve_ttl policy (q_type ?r) (q_ttl ?r)) out"
      and c: "carried_out ?r (resolve_ttl policy (q_type ?r) (q_ttl ?r)) out True w w'"
    unfolding fields by auto
  define p where "p = reply_to (resolve_ttl policy (q_type ?r) (q_ttl ?r)) ?r out"
  have ans: "p_id p = q_id ?r \<and> p_to p = q_from ?r"
    using reply_answers [OF out] by (simp add: p_def)
  have "handle_one policy RPC_REQUEST (Inr (request_dump ?r)) w = (Inr (), w')"
    using validate_request_dump [OF assms(5) assms(3)] run
    by (simp add: handle_one_def andthen_def inbound_to_request_def)
  moreover have "responses w' = responses w @ [response_message p]"
    using c by (simp add: carried_out_def p_def)
  moreover have "script_listen (script_id opts fresh)
      (map (Inr \<circ> response_json) others @ [Inr (msg_payload (response_message p))]) = Some (response_json p)"
    using ans listen_response [of p "script_id opts fresh" "[]"]
    by (simp only: listen_others [OF assms(8)] fields response_message_def message.simps)
  moreover have "msg_topic (response_message p) = script_response_topic opts"
    using ans by (simp add: fields response_message_def script_response_topic_def script_topics)
  moreover have "snd (send_request_main opts fresh []) = [(RPC_REQUEST, request_dump ?r)]"
    by (simp add: send_request_main_def assms(4) script_request_dump script_topics)
  ultimately show ?thesis
    by (intro exI conjI) (assumption | simp add: send_request_main_def assms(4))+
qed

text \<open>A ping from the bench, behind a response to somebody else's request.\<close>

definition bench_opts :: script_opts where
  "bench_opts = \<lparr>so_type = ''ping'', so_from = ''bench'', so_id = None, so_ttl = 10, so_args = Inr (VDict [])\<rparr>"

theorem script_gets_its_answer_witness:
  "\<exists>t payload w' p. handle_one default_policy t (Inr payload) sample_world = (Inr (), w') \<and>
     responses w' = [response_message p] \<and>
     fst (send_request_main bench_opts ''0123abcd''
       [Inr (response_json (response_ok sample_request [])), Inr (msg_payload (response_message p))]) = Inr 0"
proof -
  have "fits64 (resolve_ttl default_policy (so_type bench_opts) (Some (so_ttl bench_opts)))"
    by (simp add: fits64_def resolve_ttl_def default_policy_def bench_opts_def)
  moreover have "well_formed_request (requested bench_opts ''0123abcd'' [])"
    by (simp add: well_formed_request_def requested_def bench_opts_def script_id_def)
  moreover have "\<not> has_request (w_db sample_world) (so_from bench_opts) (script_id bench_opts ''0123abcd'')"
    by (simp add: has_request_def sample_world_def empty_store_def)
  moreover have "so_args bench_opts = Inr (VDict [])" "script_id bench_opts ''0123abcd'' = ''0123abcd''"
    by (simp_all add: bench_opts_def script_id_def)
  moreover have "\<And>n. h_lax_int (w_host sample_world) (VInt n) = Some n" "responses sample_world = []"
    by (simp_all add: sample_world_def sample_host_def responses_def)
  ultimately show ?thesis
    using script_gets_its_answer [of sample_world bench_opts "[]" "''0123abcd''" default_policy
        "[response_ok sample_request []]"]
    by auto
qed

text \<open>
  C30. What the seeding script retains is what \<open>gateway.status\<close> reports: when the service has consumed the
  message, whatever its database did, an answer of the handler has the state and the detail given on the
  command line, and the script's clock as the time since when.
\<close>

theorem seeded_status_is_served:
  assumes "seed_main state detail now = (0, [(t, payload, retain)])"
    and "consume policy \<lparr>in_topic = t, in_empty = False, in_json = Inr payload\<rparr> w = (Inr (), w')"
    and "w_gateway v = w_gateway w'" "handle_gateway_status r v = (Inr p, v')"
  shows "retain \<and> state \<in> set SEED_STATES \<and> (\<exists>body. p_body p = Some body \<and>
     dget body ''state'' = VStr state \<and> dget body ''detail'' = of_opt VStr detail \<and>
     dget body ''since'' = fin_ts now)"
proof -
  from assms(1) have seed: "state \<in> set SEED_STATES" "t = GATEWAY_STATUS" "payload = seed_payload state detail now" retain
    by (auto simp: seed_main_def GATEWAY_STATUS_def split: if_splits)
  have no_event: "t \<noteq> RPC_REQUEST" "\<not> starts_with direct_prefix t" "t \<noteq> battery_topic" "t \<noteq> telemetry_topic"
    unfolding seed(2) by (simp_all add: topic_defs direct_prefix_def starts_with_def battery_topic_def
        telemetry_topic_def native_topics)
  let ?m = "\<lparr>in_topic = t, in_empty = False, in_json = Inr payload\<rparr>"
  have "maybe_cache ?m w = (Inr (), w')"
    using assms(2) no_event by (auto simp: consume_def elim!: andthenE)
  moreover have "gateway_fields ?m = Inr (VStr state, of_opt VStr detail, fin_ts now)"
    by (simp add: gateway_fields_def seed(3) seed_payload_def dget_def dget_or_def)
  moreover have keep: "catch_exception (record_gateway_snapshot a b c) (ret ()) u = (out, u') \<Longrightarrow>
      w_gateway u' = w_gateway u" for a b c u out u'
  proof -
    have "aside (catch_exception (record_gateway_snapshot a b c) (ret ()))" by (intro evolves_intros)
    then show "catch_exception (record_gateway_snapshot a b c) (ret ()) u = (out, u') \<Longrightarrow> w_gateway u' = w_gateway u"
      by (auto simp: outside_aggregator_def dest: evolves_sameD)
  qed
  ultimately obtain g where "w_gateway w' = g" "c_state g = VStr state" "c_detail g = of_opt VStr detail"
      "c_since g = fin_ts now"
    by (auto simp: maybe_cache_def seed(2) time_time_def elim!: andthenE dest!: keep)
  with assms(3,4) seed(1) show ?thesis
    using seed(4)
    by (auto simp: handle_gateway_status_def get_gateway_snapshot_def gateway_body_def dget_def py_or_def
        SEED_STATES_def elim!: andthenE)
qed

lemma sample_seed_runs:
  "\<exists>w' p v'. consume default_policy \<lparr>in_topic = ''mc/gateway/status'', in_empty = False,
       in_json = Inr (seed_payload ''error'' (Some ''serial timeout'') 99)\<rparr> sample_world = (Inr (), w') \<and>
     handle_gateway_status sample_request w' = (Inr p, v')"
  by (simp add: consume_def maybe_cache_def topic_defs gateway_fields_def seed_payload_def dget_def dget_or_def
      starts_with_def direct_prefix_def battery_topic_def telemetry_topic_def native_topics andthen_def time_time_def catch_exception_def catch_def
      record_gateway_snapshot_def store_call_def sync_record_gateway_snapshot_def bind_key_def Let_def
      handle_gateway_status_def get_gateway_snapshot_def counts_def store_query_def snap_age_def age_s_def
      sample_world_def sample_host_def empty_store_def)

theorem seeded_status_is_served_witness:
  "\<exists>w' p v' body. handle_gateway_status sample_request w' = (Inr p, v') \<and> p_body p = Some body \<and>
     dget body ''state'' = VStr ''error'' \<and> dget body ''detail'' = VStr ''serial timeout'' \<and>
     dget body ''since'' = fin_ts 99"
proof -
  have seed: "seed_main ''error'' (Some ''serial timeout'') 99 =
      (0, [(''mc/gateway/status'', seed_payload ''error'' (Some ''serial timeout'') 99, True)])"
    by (simp add: seed_main_def SEED_STATES_def)
  obtain w' p v' where run: "consume default_policy \<lparr>in_topic = ''mc/gateway/status'', in_empty = False,
        in_json = Inr (seed_payload ''error'' (Some ''serial timeout'') 99)\<rparr> sample_world = (Inr (), w')"
      "handle_gateway_status sample_request w' = (Inr p, v')"
    using sample_seed_runs by blast
  from seeded_status_is_served [OF seed run(1) refl run(2)] run(2) show ?thesis by auto
qed

end
