(* ===== verification/Spec2Isabelle.thy ===== *)
theory Spec2Isabelle
  imports Answered StartUp GpsdProps EndToEnd PersistProps Codes ConfigProps LastSeen Races Processes Scripts
begin

text \<open>
  A verification of meshcore-rpc-services, an application-layer RPC service for a mesh radio network,
  against a model of its Python sources (src/meshcore_rpc_services/ and src/scripts/).

  \<^bold>\<open>The program.\<close> Mesh nodes send JSON requests through a gateway that publishes them on the MQTT
  topic mc/rpc/req. transport/service.py consumes the topic, transport/adapter.py and schemas.py turn
  a payload into a request or a refusal, and core.py takes a request through its life: it is recorded
  in SQLite (persistence/sqlite.py), which is also how a replayed id is detected, routed by type
  (router.py) to one of ten handlers (handlers/), run under a time limit (timeouts/), answered on
  mc/rpc/resp/<node>, and completed in the database. state.py keeps what is known about nodes and the
  home base, in the database and on retained topics; it is fed by the handlers, by gateway events,
  and by GPSD (gpsd.py). retention.py deletes old rows. A second process, tak/, follows the retained
  topics and sends Cursor-on-Target events to a TAK server.

  \<^bold>\<open>How the model is built.\<close> A coroutine is a program \<open>(world, 'a) prog\<close>: a function from the state
  to an outcome, a value or an exception, and the state after it (Prelude). Sequencing, \<open>try\<close> and
  \<open>finally\<close> are \<open>andthen\<close>, \<open>catch_exception\<close> and \<open>finally_do\<close>, so every raise and early return of
  the source is a branch. What the program does not determine is the \<open>host\<close> in the state: clock
  readings, whether a database statement or a publish succeeds, after how many awaits a time limit
  fires, and whether the operation awaited then still takes effect; a theorem over all worlds is one
  over all such behaviours.

  \<^bold>\<open>Theories and sources.\<close>

  \<^item> Prelude: programs, frames (\<open>evolves R m\<close>: every run of \<open>m\<close> stays within \<open>R\<close>; locale
    \<open>evolution\<close>), results (\<open>yields\<close>). PyValues: the Python values, conversions and comparisons the
    source uses. Calendar: datetime.
  \<^item> Contract: errors.py, lifecycle.py, mqtt/topics.py. Schemas: schemas.py. Adapter:
    transport/adapter.py. Policy: timeouts/policy.py. Router: router.py. Geo: geo.py.
  \<^item> SqlStore: the tables of schema.sql and the synchronous operations of persistence/sqlite.py.
    StoreLaws: the contract of the upserted tables (a locale with three interpretations) and the
    invariant \<open>store_ok\<close> of the request tables. Connection: the same blocks of statements on the one
    connection all worker threads share. Migrations: opening a database, with crashes in between.
  \<^item> World: the asynchronous store, publishing, the time limit (timeouts/tracker.py). StateAgg:
    state.py. Handlers: handlers/. Core: core.py. CoreLaws, Pipeline, Refinement: the contract of
    router and emitter (locale \<open>pipeline\<close>), what \<open>process_request\<close> then guarantees on any outside,
    and, where the database answers, its refinement of an abstract specification (\<open>reply_to\<close>,
    \<open>final_of\<close>, \<open>trace_of\<close>, \<open>carried_out\<close>).
  \<^item> Service: transport/bus.py, the messages of transport/service.py, retention.py, with a request
    run to its end before the next message. Calm: absence of cancellation.
  \<^item> Coroutines: coroutines that may be suspended at each await (\<open>'a co\<close>), with the time limit around
    one. CutHandlers: the handlers, the aggregator and the counters of the store written so; run
    without interruption they are those of Handlers and StateAgg. CutLaws, Raises: what they keep at
    every await, and what they may raise. Tasks: the life of a request as such a coroutine, and systems
    of tasks under any schedule. LiveService: the running service, with the
    consumer, tasks, heartbeat, sweeps, GPS fixes and the shutdown in any order
    (locale \<open>task_frame\<close>; \<open>live_frame\<close> of LiveProps extends it to whole runs). InFlight: the counter of
    open requests.
  \<^item> Gpsd: gpsd.py. Workers: starting and stopping background tasks (gpsd.py, tak/takserver.py,
    retention.py). Config: config.py, the constructors of the service and the bridge, and the
    commands initdb and purge of cli.py.
  \<^item> Cot: tak/cot.py down to the bytes; XmlReader: an independent reader for them. TakSink:
    tak/takserver.py (a bounded queue, locale \<open>lossy_queue\<close>). Bridge: tak/bridge.py. TakSystem: the
    tasks of the bridge as a step relation. TakLaws: the bridge on records it can publish.
  \<^item> Processes: the two processes from start to end (\<open>Service.run\<close> with the connection of
    transport/bus.py, \<open>Bridge.run\<close>, the reconnect loops), the commands run of cli.py and tak/cli.py and
    the logging configuration. StartUp: the objects of a new service, the start-up summary, the messages
    of the bus. Scripts: src/scripts/.

  \<^bold>\<open>What is shown.\<close>

  \<^item> PipelineProps, Liveness, TaskProps, LiveProps, Codes: each request is carried out as specified;
    at most one response per request; replayed ids run no handler, also when they arrive at once;
    responses have the declared shape and codes; what a database failure and a shutdown do to requests
    in flight. Lemmas beside them tie the models of one request together: a task run alone is
    \<open>process_request\<close>, and the sequential loop is a schedule of the running service.
  \<^item> Answered: on an outside that works every request that can be answered gets exactly one response,
    on the topic of its sender and with its id and type, however the tasks of the running service take
    turns. Tasks are followed by the multiset of addresses they still owe a response to; the addresses
    due are read off the JSON of the request messages.
  \<^item> LastSeen, Races: in the running service the last-seen value of a node only grows; what becomes of
    two location reports that cross at their awaits, and of one that the time limit cuts off.
  \<^item> StoreProps, PersistProps: invariants over histories of operations, duplicate detection, the
    purge; receptions and sweeps are all or nothing when SQLite fails under any of their statements
    (\<open>with_faults\<close>), and what interleaving makes of that; schema upgrades and crashes.
  \<^item> HandlerProps, StatusProps, PureProps: what a report stores is what a query finds, freshness and
    online limits, counters, what each handler may touch; bearing and distance lead from the caller to
    the base (\<open>arrives\<close> of Geo states the arrival in spherical coordinates), and a bearing may be 360.
  \<^item> ServiceProps, SweepProps, GpsdProps, ConfigProps, Workers: what can end the consume loop, refused
    payloads, retention, which lines of GPSD become which fixes, the throttled GPS position, reconnect
    delays, accepted configurations, at most one running task per worker.
  \<^item> TakProps: the bytes handed to a connection of the TAK server are whole events, also when it breaks
    at any byte, that parse back to what was reported and are XML 1.0 unless a node id holds a control
    character; reconnects and evictions. Processes: what is released however a process ends. Scripts: the
    scripts and the service understand each other. EndToEnd: the service and the bridge composed over the
    retained topics, from a location report to the event a reader decodes, and the acknowledged
    report that stops the bridge.

  \<^bold>\<open>Abstractions.\<close> A finite float is a real number, so rounding is not modelled; infinities, NaN and
  the overflow of an integer to a float are. A payload is what json.loads makes of it, a value or the
  exception; pydantic's conversion of a value to an int, the shortest decimal of a float and SQLite's
  text of a REAL are functions of the host. Python's unbounded integers are \<open>int\<close>, with the 64-bit
  limit of SQLite checked where a value is bound. Strings are lists of HOL's characters, one per code
  point, of which there are only those up to 255; Cot encodes them as UTF-8, in one or two bytes.
  Longer sequences and lone surrogates, which cannot be encoded, are not covered. Handlers, request tasks and the consumer can be suspended at every await;
  an operation of the database or the broker is one step, and where a task is cancelled while it waits
  for one the host says whether it still takes effect. The heartbeat, a sweep, a GPS fix and the
  shutdown are single steps between them. The bridge's coroutines do not suspend and are steps as they
  are. In Processes the outcome of each await is an input and its effect on the data is left out. The
  reader of XmlReader has fuel, one unit per character of its input, which its round-trip lemma
  shows to be enough. All loops of the code are recursions over the messages, lines, records or ticks
  they consume; there is no other fuel.

  \<^bold>\<open>Not modelled.\<close> Log messages but the start-up summary, which have no effect on the state; reading
  YAML, environment and command-line options, which pydantic-settings, yaml and click do; sockets and
  the MQTT client, which appear as inputs and outcomes; the choice of an event loop in \<open>_run_async\<close>. How
  MQTT filters match topics is the broker's.

  \<^bold>\<open>Where to go on.\<close> The heartbeat, the sweep and the GPS fix of LiveService cut at their awaits; the
  processes of Processes run on the states of LiveService and TakSystem.
\<close>

end
